(* ===== verification/Prelude.thy ===== *)
theory Prelude
  imports Main "HOL-Library.Word" "HOL-Library.Sublist"
begin

text \<open>
  Shared vocabulary of the development: the C types and constants that the sources use,
  C strings as \<^typ>\<open>string\<close> (a character list without its terminating NUL; a \<open>NULL\<close>
  pointer is \<^term>\<open>None\<close>), splitting a string at a separator and joining it again, and the
  collections that carry the component proofs:
  \<^item> \<open>table_defs\<close>: the tables of records in terms of the fields of the process;
  \<^item> \<open>run_defs\<close>: the definitions that evaluate a lookup in the image on the sample platform.
\<close>

unbundle bit_operations_syntax

named_theorems table_defs
named_theorems run_defs

section \<open>C types and constants\<close>

type_synonym byte = "8 word"
type_synonym u16 = "16 word"
type_synonym u32 = "32 word"
type_synonym u64 = "64 word"
type_synonym ptr = nat

text \<open>Error numbers of the Linux C library.\<close>

abbreviation (input) ENOENT :: int where "ENOENT \<equiv> 2"
abbreviation (input) EINTR :: int where "EINTR \<equiv> 4"
abbreviation (input) EIO :: int where "EIO \<equiv> 5"
abbreviation (input) ENXIO :: int where "ENXIO \<equiv> 6"
abbreviation (input) ENOMEM :: int where "ENOMEM \<equiv> 12"
abbreviation (input) EACCES :: int where "EACCES \<equiv> 13"
abbreviation (input) EFAULT :: int where "EFAULT \<equiv> 14"
abbreviation (input) EEXIST :: int where "EEXIST \<equiv> 17"
abbreviation (input) ENOTDIR :: int where "ENOTDIR \<equiv> 20"
abbreviation (input) EISDIR :: int where "EISDIR \<equiv> 21"
abbreviation (input) EINVAL :: int where "EINVAL \<equiv> 22"
abbreviation (input) EROFS :: int where "EROFS \<equiv> 30"
abbreviation (input) ENOSYS :: int where "ENOSYS \<equiv> 38"
abbreviation (input) EOVERFLOW :: int where "EOVERFLOW \<equiv> 75"
abbreviation (input) ENOTSUP :: int where "ENOTSUP \<equiv> 95"

text \<open>Flags of \<open>open\<close>, \<open>access\<close> and \<open>memfd_create\<close>; the file-type bits of \<open>st_mode\<close>.\<close>

abbreviation (input) O_WRONLY :: u32 where "O_WRONLY \<equiv> 0x1"
abbreviation (input) O_RDWR :: u32 where "O_RDWR \<equiv> 0x2"
abbreviation (input) O_CREAT :: u32 where "O_CREAT \<equiv> 0x40"
abbreviation (input) O_EXCL :: u32 where "O_EXCL \<equiv> 0x80"
abbreviation (input) O_TRUNC :: u32 where "O_TRUNC \<equiv> 0x200"
abbreviation (input) O_CLOEXEC :: u32 where "O_CLOEXEC \<equiv> 0x80000"
abbreviation (input) O_TMPFILE :: u32 where "O_TMPFILE \<equiv> 0x410000"
abbreviation (input) MFD_CLOEXEC :: u32 where "MFD_CLOEXEC \<equiv> 0x1"
abbreviation (input) X_OK :: u32 where "X_OK \<equiv> 1"
abbreviation (input) W_OK :: u32 where "W_OK \<equiv> 2"
abbreviation (input) R_OK :: u32 where "R_OK \<equiv> 4"

abbreviation (input) S_IFMT :: u32 where "S_IFMT \<equiv> 0xF000"
abbreviation (input) S_IFSOCK :: u32 where "S_IFSOCK \<equiv> 0xC000"
abbreviation (input) S_IFLNK :: u32 where "S_IFLNK \<equiv> 0xA000"
abbreviation (input) S_IFREG :: u32 where "S_IFREG \<equiv> 0x8000"
abbreviation (input) S_IFBLK :: u32 where "S_IFBLK \<equiv> 0x6000"
abbreviation (input) S_IFDIR :: u32 where "S_IFDIR \<equiv> 0x4000"
abbreviation (input) S_IFCHR :: u32 where "S_IFCHR \<equiv> 0x2000"
abbreviation (input) S_IFIFO :: u32 where "S_IFIFO \<equiv> 0x1000"

abbreviation (input) SEEK_SET :: int where "SEEK_SET \<equiv> 0"
abbreviation (input) SEEK_CUR :: int where "SEEK_CUR \<equiv> 1"
abbreviation (input) SEEK_END :: int where "SEEK_END \<equiv> 2"
abbreviation (input) SEEK_DATA :: int where "SEEK_DATA \<equiv> 3"
abbreviation (input) SEEK_HOLE :: int where "SEEK_HOLE \<equiv> 4"

abbreviation (input) DT_DIR :: nat where "DT_DIR \<equiv> 4"
abbreviation (input) DT_REG :: nat where "DT_REG \<equiv> 8"

abbreviation (input) PATH_MAX :: nat where "PATH_MAX \<equiv> 4096"

section \<open>Splitting and joining strings\<close>

text \<open>
  \<open>split_on c s\<close> cuts \<open>s\<close> at every \<open>c\<close>, keeping the empty pieces, and \<open>join_with c ps\<close>
  glues pieces with \<open>c\<close>: the two sides of every path argument below.
\<close>

fun split_on :: "char \<Rightarrow> string \<Rightarrow> string list" where
  "split_on c [] = [[]]"
| "split_on c (x # xs) =
     (if x = c then [] # split_on c xs
      else (case split_on c xs of [] \<Rightarrow> [[x]] | p # ps \<Rightarrow> (x # p) # ps))"

fun join_with :: "char \<Rightarrow> string list \<Rightarrow> string" where
  "join_with c [] = []"
| "join_with c [p] = p"
| "join_with c (p # ps) = p @ c # join_with c ps"

lemma split_on_nonempty [simp]: "split_on c s \<noteq> []"
  by (induction s) (auto split: list.splits)

lemma join_with_Cons: "ps \<noteq> [] \<Longrightarrow> join_with c (p # ps) = p @ c # join_with c ps"
  by (cases ps) auto

lemma join_with_Cons_if: "join_with c (p # ps) = (if ps = [] then p else p @ c # join_with c ps)"
  by (cases ps) auto

lemma join_with_append:
  "join_with c (ps @ qs) =
     (if ps = [] then join_with c qs else if qs = [] then join_with c ps
      else join_with c ps @ c # join_with c qs)"
  by (induction ps) (auto simp: join_with_Cons_if)

lemma join_with_snoc: "join_with c (ps @ [q]) = (if ps = [] then q else join_with c ps @ c # q)"
  by (simp add: join_with_append)

lemma split_on_no_sep: "p \<in> set (split_on c s) \<Longrightarrow> c \<notin> set p"
  by (induction s arbitrary: p) (auto split: list.splits if_splits)

lemma split_on_simple: "c \<notin> set s \<Longrightarrow> split_on c s = [s]"
  by (induction s) auto

lemma split_on_append_sep: "c \<notin> set p \<Longrightarrow> split_on c (p @ c # s) = p # split_on c s"
  by (induction p) auto

lemma split_on_join:
  "ps \<noteq> [] \<Longrightarrow> (\<And>p. p \<in> set ps \<Longrightarrow> c \<notin> set p) \<Longrightarrow> split_on c (join_with c ps) = ps"
proof (induction ps)
  case (Cons p ps)
  then show ?case
    by (cases "ps = []") (auto simp: split_on_simple split_on_append_sep join_with_Cons_if)
qed simp

lemma join_split_on [simp]: "join_with c (split_on c s) = s"
proof (induction s)
  case (Cons x s)
  then show ?case
    by (cases "split_on c s") (auto simp: join_with_Cons_if split: if_splits)
qed simp

lemma split_on_takeWhile:
  "split_on c s = takeWhile (\<lambda>x. x \<noteq> c) s #
     (case dropWhile (\<lambda>x. x \<noteq> c) s of [] \<Rightarrow> [] | _ # r \<Rightarrow> split_on c r)"
  by (induction s) (auto split: list.splits)

text \<open>The total size of the pieces, each with one separator: what bounds every rebuilt string.\<close>

definition weight :: "string list \<Rightarrow> nat" where
  "weight ps = sum_list (map (\<lambda>p. Suc (length p)) ps)"

lemma weight_simps [simp]:
  "weight [] = 0" "weight (p # ps) = Suc (length p) + weight ps"
  "weight (ps @ qs) = weight ps + weight qs"
  by (simp_all add: weight_def)

lemma length_join_with: "length (join_with c ps) = weight ps - 1"
  by (induction c ps rule: join_with.induct) auto

lemma weight_split_on: "weight (split_on c s) = Suc (length s)"
  by (induction s) (auto split: list.splits)

lemma weight_butlast: "weight (butlast ps) \<le> weight ps"
  by (cases ps rule: rev_cases) auto

lemma weight_ge_two: "(\<And>p. p \<in> set ps \<Longrightarrow> p \<noteq> []) \<Longrightarrow> 2 * length ps \<le> weight ps"
proof (induction ps)
  case (Cons p ps)
  then have "p \<noteq> []" "2 * length ps \<le> weight ps" by auto
  then show ?case by (cases p) auto
qed simp

end
