(* ===== verification/Platform.thy ===== *)
theory Platform
  imports Prelude
begin

text \<open>
  What the sources call and do not contain. The kernel with the real C library entry points,
  and libsquashfs, are records of functions: parameters of every definition that uses them.
  All of them act on one opaque state \<open>'w\<close> (the kernel, the real file system, the image and
  the readers that libsquashfs keeps), so a call may change anything outside the process
  state that the sources own. The laws that a theorem needs of them are stated where it needs
  them, as named hypotheses.
\<close>

section \<open>System calls\<close>

text \<open>
  A call returns its result, the value it stored in \<open>errno\<close> (\<^term>\<open>None\<close>: it left \<open>errno\<close> alone)
  and the next outside state.
\<close>

type_synonym ('w, 'a) sys = "'w \<Rightarrow> 'a \<times> int option \<times> 'w"

record dirent =
  d_ino :: nat
  d_off :: int
  d_reclen :: nat
  d_type :: nat
  d_name :: string

record stat =
  st_ino :: nat
  st_mode :: u32
  st_nlink :: nat
  st_uid :: nat
  st_gid :: nat
  st_size :: int
  st_blksize :: nat
  st_blocks :: int
  st_atim :: int
  st_mtim :: int
  st_ctim :: int

text \<open>
  The entry points of \<open>g_xLibcFuncs\<close>; the four that the sources compare with \<open>NULL\<close> before
  calling are options. Then the direct calls of \<open>utils.c\<close> and \<open>logging.c\<close>, which bypass the
  hooks, \<open>malloc\<close> as far as the sources observe it (whether an allocation succeeds), and the
  return codes of the two calls that set up the attribute of the mutex. A
  path is \<^term>\<open>None\<close> for \<open>NULL\<close>; an offset is its value; \<open>read\<close> and \<open>pread\<close> return the bytes
  they stored in the buffer.
\<close>

record 'w libc =
  libc_open :: "string option \<Rightarrow> u32 \<Rightarrow> u32 option \<Rightarrow> ('w, int) sys"
  libc_read :: "int \<Rightarrow> nat \<Rightarrow> ('w, int \<times> byte list) sys"
  libc_pread :: "int \<Rightarrow> nat \<Rightarrow> int \<Rightarrow> ('w, int \<times> byte list) sys"
  libc_pread64 :: "(int \<Rightarrow> nat \<Rightarrow> int \<Rightarrow> ('w, int \<times> byte list) sys) option"
  libc_lseek :: "int \<Rightarrow> int \<Rightarrow> int \<Rightarrow> ('w, int) sys"
  libc_lseek64 :: "(int \<Rightarrow> int \<Rightarrow> int \<Rightarrow> ('w, int) sys) option"
  libc_close :: "(int \<Rightarrow> ('w, int) sys) option"
  libc_close_nocancel :: "(int \<Rightarrow> ('w, int) sys) option"
  libc_opendir :: "string option \<Rightarrow> ('w, int option) sys"
  libc_readdir :: "int \<Rightarrow> ('w, dirent option) sys"
  libc_closedir :: "int \<Rightarrow> ('w, int) sys"
  libc_access :: "string option \<Rightarrow> u32 \<Rightarrow> ('w, int) sys"
  libc_xstat :: "int \<Rightarrow> string option \<Rightarrow> bool \<Rightarrow> ('w, int \<times> stat option) sys"
  sys_memfd_create :: "string \<Rightarrow> u32 \<Rightarrow> ('w, int) sys"
  sys_openat :: "string \<Rightarrow> u32 \<Rightarrow> u32 \<Rightarrow> ('w, int) sys"
  sys_unlinkat :: "string \<Rightarrow> ('w, int) sys"
  sys_write :: "int \<Rightarrow> string \<Rightarrow> ('w, int) sys"
  libc_mkdir :: "string \<Rightarrow> u32 \<Rightarrow> ('w, int) sys"
  libc_rmdir :: "string \<Rightarrow> ('w, int) sys"
  libc_getpid :: int
  libc_malloc_ok :: "('w, bool) sys"
  pthread_mutexattr_init :: int
  pthread_mutexattr_settype :: int

section \<open>libsquashfs\<close>

datatype sqfs_error =
    SQFS_ERROR_ALLOC | SQFS_ERROR_IO | SQFS_ERROR_COMPRESSOR | SQFS_ERROR_INTERNAL
  | SQFS_ERROR_CORRUPTED | SQFS_ERROR_UNSUPPORTED | SQFS_ERROR_OVERFLOW
  | SQFS_ERROR_OUT_OF_BOUNDS | SFQS_ERROR_SUPER_MAGIC | SFQS_ERROR_SUPER_VERSION
  | SQFS_ERROR_SUPER_BLOCK_SIZE | SQFS_ERROR_NOT_DIR | SQFS_ERROR_NO_ENTRY
  | SQFS_ERROR_LINK_LOOP | SQFS_ERROR_NOT_FILE | SQFS_ERROR_ARG_INVALID | SQFS_ERROR_SEQUENCE

datatype sqfs_inode_type =
    SQFS_INODE_DIR | SQFS_INODE_FILE | SQFS_INODE_SLINK | SQFS_INODE_BDEV | SQFS_INODE_CDEV
  | SQFS_INODE_FIFO | SQFS_INODE_SOCKET | SQFS_INODE_EXT_DIR | SQFS_INODE_EXT_FILE
  | SQFS_INODE_EXT_SLINK | SQFS_INODE_EXT_BDEV | SQFS_INODE_EXT_CDEV | SQFS_INODE_EXT_FIFO
  | SQFS_INODE_EXT_SOCKET | SQFS_INODE_OTHER

text \<open>
  The part of \<open>sqfs_inode_generic_t\<close> that the sources read: the header \<open>base\<close> and, one field
  per member of the union \<open>data\<close>, the link counts and sizes.
\<close>

record sqfs_inode =
  base_type :: sqfs_inode_type
  base_mode :: u16
  base_inode_number :: u32
  base_mod_time :: u32
  dir_nlink :: u32
  dir_size :: u64
  dir_ext_nlink :: u32
  dir_ext_size :: u64
  file_ext_nlink :: u32
  slink_nlink :: u32
  slink_target_size :: u64
  slink_ext_nlink :: u32
  slink_ext_target_size :: u64
  dev_nlink :: u32
  dev_ext_nlink :: u32
  ipc_nlink :: u32
  ipc_ext_nlink :: u32

record sqfs_super =
  inode_count :: u32
  block_size :: u32
  bytes_used :: u64
  compression_id :: u16
  super_flags :: u16

text \<open>A directory entry; \<open>entry_size\<close> is one less than the length of its name.\<close>

record sqfs_dir_entry =
  entry_type :: sqfs_inode_type
  entry_size :: nat
  entry_name :: string

text \<open>
  Objects of the library are pointers; a returned inode or entry is the value behind the
  pointer it stored, with \<^term>\<open>None\<close> for \<open>NULL\<close>. \<open>sqfs_error_of\<close> reads a return code as the
  enumerator of \<open>sqfs/error.h\<close> with that value.
\<close>

record 'w libsquashfs =
  sqfs_error_of :: "int \<Rightarrow> sqfs_error option"
  SQFS_FLAG_COMPRESSOR_OPTIONS :: u16
  sqfs_compressor_name_from_id :: "u16 \<Rightarrow> string option"
  sqfs_open_file :: "string \<Rightarrow> ('w, ptr option) sys"
  sqfs_super_read :: "ptr \<Rightarrow> ('w, int \<times> sqfs_super) sys"
  sqfs_compressor_config_init :: "u16 \<Rightarrow> u32 \<Rightarrow> int \<times> nat"
  sqfs_compressor_create :: "nat \<Rightarrow> ('w, int \<times> ptr option) sys"
  sqfs_compressor_read_options :: "ptr \<Rightarrow> ptr \<Rightarrow> ('w, int) sys"
  sqfs_data_reader_create :: "ptr \<Rightarrow> u32 \<Rightarrow> ptr \<Rightarrow> ('w, ptr option) sys"
  sqfs_data_reader_load_fragment_table :: "ptr \<Rightarrow> sqfs_super \<Rightarrow> ('w, int) sys"
  sqfs_data_reader_read :: "ptr \<Rightarrow> sqfs_inode \<Rightarrow> u64 \<Rightarrow> u32 \<Rightarrow> ('w, int \<times> byte list) sys"
  sqfs_dir_reader_create :: "sqfs_super \<Rightarrow> ptr \<Rightarrow> ptr \<Rightarrow> ('w, ptr option) sys"
  sqfs_dir_reader_get_root_inode :: "ptr \<Rightarrow> ('w, int \<times> sqfs_inode option) sys"
  sqfs_dir_reader_find_by_path :: "ptr \<Rightarrow> string \<Rightarrow> ('w, int \<times> sqfs_inode option) sys"
  sqfs_dir_reader_open_dir :: "ptr \<Rightarrow> sqfs_inode \<Rightarrow> ('w, int) sys"
  sqfs_dir_reader_read :: "ptr \<Rightarrow> ('w, int \<times> sqfs_dir_entry option) sys"
  sqfs_dir_reader_get_inode :: "ptr \<Rightarrow> ('w, int \<times> sqfs_inode option) sys"
  sqfs_inode_get_file_size :: "sqfs_inode \<Rightarrow> int \<times> u64"
  sqfs_destroy :: "ptr \<Rightarrow> ('w, unit) sys"

section \<open>Configuration\<close>

text \<open>
  The environment of the process, and the two facts of the ABI that the sources depend on:
  \<open>sizeof(long)\<close>, which on both supported ABIs is also the size of \<open>off_t\<close>, \<open>time_t\<close>,
  \<open>blkcnt_t\<close> and \<open>size_t\<close> (4 for \<open>BITS=32\<close>, 8 for \<open>BITS=64\<close>), and \<open>sizeof(struct dirent)\<close>.
\<close>

record config =
  getenv :: "string \<Rightarrow> string option"
  sizeof_long :: nat
  sizeof_dirent :: nat

text \<open>The conversion to a signed type of that size.\<close>

definition long_cast :: "config \<Rightarrow> int \<Rightarrow> int" where
  "long_cast c x = signed_take_bit (8 * sizeof_long c - 1) x"

lemma long_cast_id:
  assumes "0 < sizeof_long c" and "- (2 ^ (8 * sizeof_long c - 1)) \<le> x" and "x < 2 ^ (8 * sizeof_long c - 1)"
  shows "long_cast c x = x"
  using assms by (simp add: long_cast_def signed_take_bit_int_eq_self)

end
