(* ===== verification/Process.thy ===== *)
theory Process
  imports Platform
begin

text \<open>
  The state of the process that the sources own: the structures of \<open>src/sqfs_mgr.c\<close>, the
  manager \<open>g_xSqfsMgr\<close>, the output of \<open>src/logging.c\<close> and the counters of \<open>src/utils.c\<close>,
  with \<open>errno\<close> and the outside state. Entries of the two hash tables live in typed heaps and
  the tables hold their addresses, because the sources change an entry through the pointer
  that a lookup returned.
\<close>

section \<open>Structures of the manager\<close>

record SqfsDirEntryNode =
  node_inode :: "sqfs_inode option"
  node_dirent :: dirent

text \<open>
  The singly linked list of nodes is the list of its nodes: a pointer into it is the list
  from that node on, \<open>NULL\<close> is \<^term>\<open>[]\<close> and \<open>->next\<close> is \<^term>\<open>tl\<close>.
\<close>

record DirMapEntry =
  dir_key :: int
  dir_reader :: ptr
  is_real_dir :: bool
  dir_entry_list :: "SqfsDirEntryNode list"
  dir_entry_current :: "SqfsDirEntryNode list"
  dir_entry_list_reached_end :: bool

record FDMapEntry =
  fd_key :: int
  fd_inode :: sqfs_inode
  fd_offset :: u64

section \<open>uthash and utlist\<close>

text \<open>
  The macros of the submodule \<open>uthash\<close>: a table is what its head pointer stands for. The
  element carries its key, so adding and deleting name both. \<open>LL_APPEND\<close> is the macro of
  \<open>utlist.h\<close> on the list of nodes.
\<close>

record 'h uthash =
  HASH_NULL :: 'h
  HASH_FIND :: "'h \<Rightarrow> int \<Rightarrow> ptr option"
  HASH_ADD :: "int \<Rightarrow> ptr \<Rightarrow> 'h \<Rightarrow> 'h"
  HASH_DEL :: "int \<Rightarrow> ptr \<Rightarrow> 'h \<Rightarrow> 'h"
  LL_APPEND :: "SqfsDirEntryNode list \<Rightarrow> SqfsDirEntryNode \<Rightarrow> SqfsDirEntryNode list"

text \<open>
  Their documented behaviour: a lookup in an empty table fails, an element added under a key
  that the table does not have is found under it, a deleted element is no longer found, other
  keys are not touched, and appending puts the node at the end.
\<close>

definition uthash_ok :: "'h uthash \<Rightarrow> bool" where
  "uthash_ok U \<longleftrightarrow>
     (\<forall>k. HASH_FIND U (HASH_NULL U) k = None) \<and>
     (\<forall>h k p. HASH_FIND U h k = None \<longrightarrow>
        HASH_FIND U (HASH_ADD U k p h) = (HASH_FIND U h)(k := Some p)) \<and>
     (\<forall>h k p. HASH_FIND U h k = Some p \<longrightarrow>
        HASH_FIND U (HASH_DEL U k p h) = (HASH_FIND U h)(k := None)) \<and>
     (\<forall>ns n. LL_APPEND U ns n = ns @ [n])"

record ('w, 'h) env =
  libc :: "'w libc"
  lib :: "'w libsquashfs"
  ut :: "'h uthash"
  cfg :: config

section \<open>The process state\<close>

text \<open>
  \<open>trap\<close> records undefined behaviour (\<open>Faulted\<close>: a dangling or \<open>NULL\<close> pointer is followed, an
  array is written out of bounds) and non-termination (\<open>Hung\<close>: a loop never ends, or a thread
  waits for a lock it holds itself). What a definition computes after a trap has no meaning.
\<close>

datatype trap = Running | Faulted | Hung

record 'h sqfs_mgr =
  mutex_recursive :: bool
  mutex_depth :: nat
  mgr_file :: "ptr option"
  mgr_compressor :: "ptr option"
  mgr_data_reader :: "ptr option"
  mgr_super :: sqfs_super
  mgr_cfg :: nat
  dir_map :: 'h
  fd_map :: 'h

text \<open>
  The counters \<open>live_*\<close> are ghost state: how many objects of each kind the sources have
  received from libsquashfs or \<open>malloc\<close> and not released yet. Of the image these are the file
  object, the descriptor behind it, the compressor and the data reader: \<open>sqfs_destroy\<close> on a file
  object would close its descriptor, \<open>sqfs_free\<close> gives back the memory alone.
\<close>

datatype image_part = Image_file | Image_descriptor | Image_compressor | Image_data_reader

record ('w, 'h) proc = "'h sqfs_mgr" +
  os :: 'w
  errno :: int
  trapped :: trap
  next_ptr :: ptr
  fd_heap :: "ptr \<Rightarrow> FDMapEntry option"
  dir_heap :: "ptr \<Rightarrow> DirMapEntry option"
  live_inodes :: int
  live_nodes :: int
  live_dir_entries :: int
  live_readers :: int
  live_parts :: "image_part \<Rightarrow> int"
  log_once :: bool
  log_fd :: int
  dir_counter :: nat
  tmp_counter :: nat

text \<open>The process before the constructor runs: every static object is zero.\<close>

definition fresh_proc :: "'h uthash \<Rightarrow> 'w \<Rightarrow> ('w, 'h) proc" where
  "fresh_proc U w =
     \<lparr>mutex_recursive = False, mutex_depth = 0, mgr_file = None, mgr_compressor = None,
      mgr_data_reader = None,
      mgr_super = \<lparr>inode_count = 0, block_size = 0, bytes_used = 0, compression_id = 0, super_flags = 0\<rparr>,
      mgr_cfg = 0, dir_map = HASH_NULL U, fd_map = HASH_NULL U, os = w, errno = 0, trapped = Running,
      next_ptr = 0, fd_heap = (\<lambda>p. None), dir_heap = (\<lambda>p. None), live_inodes = 0, live_nodes = 0,
      live_dir_entries = 0, live_readers = 0, live_parts = (\<lambda>k. 0), log_once = False, log_fd = -1, dir_counter = 0,
      tmp_counter = 0\<rparr>"

definition set_trap :: "trap \<Rightarrow> ('w, 'h) proc \<Rightarrow> ('w, 'h) proc" where
  "set_trap t s = (if trapped s = Running then s\<lparr>trapped := t\<rparr> else s)"

definition sys_call :: "('w, 'a) sys \<Rightarrow> ('w, 'h) proc \<Rightarrow> 'a \<times> ('w, 'h) proc" where
  "sys_call f s =
     (case f (os s) of
        (a, e, w) \<Rightarrow> (a, s\<lparr>os := w, errno := (case e of None \<Rightarrow> errno s | Some n \<Rightarrow> n)\<rparr>))"

text \<open>
  An allocation that succeeds returns an address not used before: the model does not reuse
  addresses, so an access to freed memory is an access to an address the heap does not have.
\<close>

definition malloc :: "('w, 'h) env \<Rightarrow> ('w, 'h) proc \<Rightarrow> ptr option \<times> ('w, 'h) proc" where
  "malloc P s =
     (case sys_call (libc_malloc_ok (libc P)) s of
        (ok, s') \<Rightarrow> if ok then (Some (next_ptr s'), s'\<lparr>next_ptr := Suc (next_ptr s')\<rparr>)
                  else (None, s'))"

section \<open>The lock\<close>

text \<open>
  One thread's view of the mutex: how often it holds it. Taking a mutex that is not recursive
  a second time never returns; releasing one that is not held is undefined.
\<close>

definition sqfs_lock :: "('w, 'h) proc \<Rightarrow> ('w, 'h) proc" where
  "sqfs_lock s =
     (if mutex_depth s = 0 \<or> mutex_recursive s then s\<lparr>mutex_depth := Suc (mutex_depth s)\<rparr>
      else set_trap Hung s)"

definition sqfs_unlock :: "('w, 'h) proc \<Rightarrow> ('w, 'h) proc" where
  "sqfs_unlock s =
     (if mutex_depth s = 0 then set_trap Faulted s else s\<lparr>mutex_depth := mutex_depth s - 1\<rparr>)"

section \<open>Frames\<close>

text \<open>
  \<open>core_eq s t\<close>: between \<open>s\<close> and \<open>t\<close> only the outside state, \<open>errno\<close>, the trap, the log output
  and the counters of \<open>utils.c\<close> have changed, so nothing that the manager keeps.
\<close>

definition core_eq :: "('w, 'h) proc \<Rightarrow> ('w, 'h) proc \<Rightarrow> bool" where
  "core_eq s t \<longleftrightarrow>
     mutex_recursive t = mutex_recursive s \<and> mutex_depth t = mutex_depth s \<and>
     mgr_file t = mgr_file s \<and> mgr_compressor t = mgr_compressor s \<and>
     mgr_data_reader t = mgr_data_reader s \<and> mgr_super t = mgr_super s \<and> mgr_cfg t = mgr_cfg s \<and>
     dir_map t = dir_map s \<and> fd_map t = fd_map s \<and> next_ptr t = next_ptr s \<and>
     fd_heap t = fd_heap s \<and> dir_heap t = dir_heap s \<and>
     live_inodes t = live_inodes s \<and> live_nodes t = live_nodes s \<and>
     live_dir_entries t = live_dir_entries s \<and> live_readers t = live_readers s \<and> live_parts t = live_parts s"

lemma core_eq_refl [simp]: "core_eq s s"
  by (simp add: core_eq_def)

lemma core_eq_trans [trans]: "core_eq s t \<Longrightarrow> core_eq t u \<Longrightarrow> core_eq s u"
  by (simp add: core_eq_def)

text \<open>
  The contract of everything that leaves the manager alone: system calls, library calls and
  logging. Its consequences are simplification rules for every instance.
\<close>

locale quiet =
  fixes f :: "('w, 'h) proc \<Rightarrow> ('w, 'h) proc"
  assumes core: "core_eq s (f s)"
begin

lemma unchanged [simp]:
  "mutex_recursive (f s) = mutex_recursive s" "mutex_depth (f s) = mutex_depth s"
  "mgr_file (f s) = mgr_file s" "mgr_compressor (f s) = mgr_compressor s"
  "mgr_data_reader (f s) = mgr_data_reader s" "mgr_super (f s) = mgr_super s"
  "mgr_cfg (f s) = mgr_cfg s" "dir_map (f s) = dir_map s" "fd_map (f s) = fd_map s"
  "next_ptr (f s) = next_ptr s" "fd_heap (f s) = fd_heap s" "dir_heap (f s) = dir_heap s"
  "live_inodes (f s) = live_inodes s" "live_nodes (f s) = live_nodes s"
  "live_dir_entries (f s) = live_dir_entries s" "live_readers (f s) = live_readers s"
  "live_parts (f s) = live_parts s"
  using core [of s] by (simp_all add: core_eq_def)

end

interpretation set_trap: quiet "set_trap t" for t
  by unfold_locales (simp add: core_eq_def set_trap_def)

interpretation sys_call: quiet "\<lambda>s. snd (sys_call f s)" for f
  by unfold_locales (simp add: core_eq_def sys_call_def split: prod.split)

lemma sys_call_core: "sys_call f s = (a, t) \<Longrightarrow> core_eq s t"
  using sys_call.core [of s f] by simp

lemma sys_call_trapped: "sys_call f s = (a, t) \<Longrightarrow> trapped t = trapped s \<and> log_fd t = log_fd s \<and> log_once t = log_once s"
  by (auto simp: sys_call_def split: prod.splits)

lemma sys_call_trapped' [simp]:
  "trapped (snd (sys_call f s)) = trapped s" "log_fd (snd (sys_call f s)) = log_fd s"
  "log_once (snd (sys_call f s)) = log_once s"
  by (simp_all add: sys_call_def split: prod.split)

lemma sys_call_pair: "sys_call f s = (fst (sys_call f s), snd (sys_call f s))"
  by simp

lemma set_trap_simps [simp]:
  "os (set_trap t s) = os s" "errno (set_trap t s) = errno s" "log_fd (set_trap t s) = log_fd s"
  by (simp_all add: set_trap_def)

lemma set_trap_bad [simp]: "t \<noteq> Running \<Longrightarrow> trapped (set_trap t s) \<noteq> Running"
  by (simp add: set_trap_def)

section \<open>What the platform promises\<close>

text \<open>
  The laws of the kernel, the C library and libsquashfs that the theorems about whole hooks
  assume. \<open>H w\<close> is the set of open descriptors and directory streams in the outside state \<open>w\<close>:
  a handle that the kernel returns was not open before, only closing it ends it, and no other
  call ends any handle. \<open>budget\<close> bounds how often a write is interrupted. \<open>left r w\<close> bounds the
  entries that the directory reader \<open>r\<close> has not returned yet.
\<close>

datatype handle = Descriptor int | Stream int

definition keeps :: "('w \<Rightarrow> handle set) \<Rightarrow> ('w, 'a) sys \<Rightarrow> bool" where
  "keeps H f \<longleftrightarrow> (\<forall>w. H w \<subseteq> H (snd (snd (f w))))"

definition closes :: "('w \<Rightarrow> handle set) \<Rightarrow> handle \<Rightarrow> ('w, 'a) sys \<Rightarrow> bool" where
  "closes H h f \<longleftrightarrow> (\<forall>w. H w - {h} \<subseteq> H (snd (snd (f w))))"

definition opens :: "('w \<Rightarrow> handle set) \<Rightarrow> ('a \<Rightarrow> handle option) \<Rightarrow> ('w, 'a) sys \<Rightarrow> bool" where
  "opens H handle_of f \<longleftrightarrow>
     keeps H f \<and>
     (\<forall>w h. handle_of (fst (f w)) = Some h \<longrightarrow> h \<notin> H w \<and> h \<in> H (snd (snd (f w))))"

definition new_fd :: "int \<Rightarrow> handle option" where
  "new_fd fd = (if fd \<ge> 0 then Some (Descriptor fd) else None)"

text \<open>
  A write stores at most what it was given; a failing one sets \<open>errno\<close>, and it is interrupted
  finitely often.
\<close>

definition writes_ok :: "'w libc \<Rightarrow> ('w \<Rightarrow> nat) \<Rightarrow> bool" where
  "writes_ok L budget \<longleftrightarrow>
     (\<forall>fd p w. case sys_write L fd p w of
        (n, e, w') \<Rightarrow>
          n \<le> int (length p) \<and> budget w' \<le> budget w \<and>
          (n < 0 \<longrightarrow> e \<noteq> None \<and> (e = Some EINTR \<longrightarrow> budget w' < budget w)))"

definition kernel_ok :: "'w libc \<Rightarrow> ('w \<Rightarrow> handle set) \<Rightarrow> ('w \<Rightarrow> nat) \<Rightarrow> bool" where
  "kernel_ok L H budget \<longleftrightarrow>
     writes_ok L budget \<and> libc_close L \<noteq> None \<and>
     (\<forall>name flags. opens H new_fd (sys_memfd_create L name flags)) \<and>
     (\<forall>path flags mode. opens H new_fd (sys_openat L path flags mode)) \<and>
     (\<forall>path. opens H (map_option Stream) (libc_opendir L path)) \<and>
     (\<forall>close fd. libc_close L = Some close \<longrightarrow> closes H (Descriptor fd) (close fd)) \<and>
     (\<forall>close fd. libc_close_nocancel L = Some close \<longrightarrow> closes H (Descriptor fd) (close fd)) \<and>
     (\<forall>d. closes H (Stream d) (libc_closedir L d)) \<and>
     (\<forall>path flags mode. keeps H (libc_open L path flags mode)) \<and>
     (\<forall>fd n. keeps H (libc_read L fd n)) \<and>
     (\<forall>fd n off. keeps H (libc_pread L fd n off)) \<and>
     (\<forall>pread64 fd n off. libc_pread64 L = Some pread64 \<longrightarrow> keeps H (pread64 fd n off)) \<and>
     (\<forall>fd off whence. keeps H (libc_lseek L fd off whence)) \<and>
     (\<forall>lseek64 fd off whence. libc_lseek64 L = Some lseek64 \<longrightarrow> keeps H (lseek64 fd off whence)) \<and>
     (\<forall>d. keeps H (libc_readdir L d)) \<and>
     (\<forall>path mode. keeps H (libc_access L path mode)) \<and>
     (\<forall>ver path b. keeps H (libc_xstat L ver path b)) \<and>
     (\<forall>path. keeps H (sys_unlinkat L path)) \<and>
     (\<forall>fd p. keeps H (sys_write L fd p)) \<and>
     (\<forall>path mode. keeps H (libc_mkdir L path mode)) \<and>
     (\<forall>path. keeps H (libc_rmdir L path)) \<and>
     keeps H (libc_malloc_ok L)"

text \<open>
  libsquashfs does not close descriptors or streams of the application, stores an object when
  it reports success, and a directory has finitely many entries.
\<close>

definition lib_keeps :: "'w libsquashfs \<Rightarrow> ('w \<Rightarrow> handle set) \<Rightarrow> bool" where
  "lib_keeps Q H \<longleftrightarrow>
     (\<forall>path. keeps H (sqfs_open_file Q path)) \<and>
     (\<forall>f. keeps H (sqfs_super_read Q f)) \<and>
     (\<forall>c. keeps H (sqfs_compressor_create Q c)) \<and>
     (\<forall>c f. keeps H (sqfs_compressor_read_options Q c f)) \<and>
     (\<forall>f b c. keeps H (sqfs_data_reader_create Q f b c)) \<and>
     (\<forall>r super. keeps H (sqfs_data_reader_load_fragment_table Q r super)) \<and>
     (\<forall>r i off n. keeps H (sqfs_data_reader_read Q r i off n)) \<and>
     (\<forall>super c f. keeps H (sqfs_dir_reader_create Q super c f)) \<and>
     (\<forall>r. keeps H (sqfs_dir_reader_get_root_inode Q r)) \<and>
     (\<forall>r path. keeps H (sqfs_dir_reader_find_by_path Q r path)) \<and>
     (\<forall>r i. keeps H (sqfs_dir_reader_open_dir Q r i)) \<and>
     (\<forall>r. keeps H (sqfs_dir_reader_read Q r)) \<and>
     (\<forall>r. keeps H (sqfs_dir_reader_get_inode Q r)) \<and>
     (\<forall>p. keeps H (sqfs_destroy Q p))"

definition listing_ok :: "'w libc \<Rightarrow> 'w libsquashfs \<Rightarrow> (ptr \<Rightarrow> 'w \<Rightarrow> nat) \<Rightarrow> bool" where
  "listing_ok L Q left \<longleftrightarrow>
     (\<forall>r w. case sqfs_dir_reader_read Q r w of
        ((ret, entry), e, w') \<Rightarrow>
          ret = 0 \<longrightarrow> left r w' < left r w \<and> entry \<noteq> None) \<and>
     (\<forall>r w. case sqfs_dir_reader_get_inode Q r w of
        ((ret, i), e, w') \<Rightarrow> left r w' \<le> left r w \<and> (ret = 0 \<longrightarrow> i \<noteq> None)) \<and>
     (\<forall>r w. left r (snd (snd (libc_malloc_ok L w))) \<le> left r w) \<and>
     (\<forall>c w. case sqfs_compressor_create Q c w of ((ret, p), e, w') \<Rightarrow> ret = 0 \<longrightarrow> p \<noteq> None)"

definition platform_ok ::
    "('w, 'h) env \<Rightarrow> ('w \<Rightarrow> handle set) \<Rightarrow> ('w \<Rightarrow> nat) \<Rightarrow> (ptr \<Rightarrow> 'w \<Rightarrow> nat) \<Rightarrow> bool" where
  "platform_ok P H budget left \<longleftrightarrow>
     uthash_ok (ut P) \<and> kernel_ok (libc P) H budget \<and> lib_keeps (lib P) H \<and>
     listing_ok (libc P) (lib P) left"

text \<open>
  The image has a name of 256 characters or more: it does not fit \<open>d_name\<close> with its terminator. A
  step keeps the trap, or raises a fault for such a name.
\<close>

definition long_names :: "'w libsquashfs \<Rightarrow> bool" where
  "long_names Q \<longleftrightarrow> (\<exists>r w d. fst (sqfs_dir_reader_read Q r w) = (0, Some d) \<and> 256 \<le> entry_size d + 1)"

definition trap_kept :: "'w libsquashfs \<Rightarrow> ('w, 'h) proc \<Rightarrow> ('w, 'h) proc \<Rightarrow> bool" where
  "trap_kept Q s t \<longleftrightarrow> trapped t = trapped s \<or> trapped t = Faulted \<and> long_names Q"

lemma trap_kept_same [simp]: "trapped t = trapped s \<Longrightarrow> trap_kept Q s t"
  by (simp add: trap_kept_def)

lemma trap_kept_trans: "trap_kept Q s t \<Longrightarrow> trap_kept Q t u \<Longrightarrow> trap_kept Q s u"
  by (auto simp: trap_kept_def)

text \<open>A state that no operation has brought into a trap, except for a name that is too long.\<close>

definition sound :: "('w, 'h) env \<Rightarrow> ('w, 'h) proc \<Rightarrow> bool" where
  "sound P s \<longleftrightarrow> trapped s = Running \<or> trapped s = Faulted \<and> long_names (lib P)"

lemma sound_kept: "sound P s \<Longrightarrow> trap_kept (lib P) s t \<Longrightarrow> sound P t"
  by (auto simp: sound_def trap_kept_def)

text \<open>A step that ends no handle and raises no trap.\<close>

definition calm :: "('w \<Rightarrow> handle set) \<Rightarrow> ('w, 'h) proc \<Rightarrow> ('w, 'h) proc \<Rightarrow> bool" where
  "calm H s t \<longleftrightarrow> H (os s) \<subseteq> H (os t) \<and> trapped t = trapped s"

lemma calm_refl [simp]: "calm H s s"
  by (simp add: calm_def)

lemma calm_trans [trans]: "calm H s t \<Longrightarrow> calm H t u \<Longrightarrow> calm H s u"
  by (auto simp: calm_def)

lemma sys_call_calm [intro]: "keeps H f \<Longrightarrow> calm H s (snd (sys_call f s))"
  by (auto simp: calm_def keeps_def sys_call_def split: prod.split) (metis snd_conv subsetD)

lemma opens_keeps [dest]: "opens H g f \<Longrightarrow> keeps H f"
  by (simp add: opens_def)

lemma opens_fresh:
  assumes "opens H g f" and "g (fst (sys_call f s)) = Some h"
  shows "h \<notin> H (os s)" and "h \<in> H (os (snd (sys_call f s)))"
  using assms by (auto simp: opens_def sys_call_def split: prod.splits) (metis fst_conv snd_conv)+

lemma closes_call:
  assumes "closes H h f"
  shows "H (os s) - {h} \<subseteq> H (os (snd (sys_call f s)))" and "trapped (snd (sys_call f s)) = trapped s"
  using assms by (auto simp: closes_def sys_call_def split: prod.split) (metis Diff_iff insertCI insertE singletonD snd_conv subsetD)

text \<open>The laws, one by one, and what they say of a call that the process makes.\<close>

lemma kernel_okD:
  assumes "kernel_ok L H budget"
  shows "writes_ok L budget" "libc_close L \<noteq> None"
    "opens H new_fd (sys_memfd_create L name flags)" "opens H new_fd (sys_openat L path flags mode)"
    "opens H (map_option Stream) (libc_opendir L opath)"
    "libc_close L = Some close \<Longrightarrow> closes H (Descriptor fd) (close fd)"
    "libc_close_nocancel L = Some close \<Longrightarrow> closes H (Descriptor fd) (close fd)"
    "closes H (Stream d) (libc_closedir L d)"
    "libc_pread64 L = Some pread64 \<Longrightarrow> keeps H (pread64 fd n off)"
    "libc_lseek64 L = Some lseek64 \<Longrightarrow> keeps H (lseek64 fd off whence)"
  using assms by (simp_all add: kernel_ok_def)

lemma kernel_keeps:
  assumes "kernel_ok L H budget"
  shows "keeps H (libc_open L opath flags omode)" "keeps H (libc_read L fd n)"
    "keeps H (libc_pread L fd n off)" "keeps H (libc_lseek L fd off whence)"
    "keeps H (libc_readdir L d)" "keeps H (libc_access L opath flags)"
    "keeps H (libc_xstat L ver opath b)" "keeps H (sys_unlinkat L path)" "keeps H (sys_write L fd p)"
    "keeps H (libc_mkdir L path mode)" "keeps H (libc_rmdir L path)" "keeps H (libc_malloc_ok L)"
    "keeps H (sys_memfd_create L name flags)" "keeps H (sys_openat L path flags mode)"
    "keeps H (libc_opendir L opath)"
proof -
  show "keeps H (sys_memfd_create L name flags)" "keeps H (sys_openat L path flags mode)"
    "keeps H (libc_opendir L opath)"
    using kernel_okD(3-5) [OF assms] by blast+
qed (use assms in \<open>simp_all add: kernel_ok_def\<close>)

lemma lib_keepsD:
  assumes "lib_keeps Q H"
  shows "keeps H (sqfs_open_file Q path)" "keeps H (sqfs_super_read Q f)"
    "keeps H (sqfs_compressor_create Q c)" "keeps H (sqfs_compressor_read_options Q p f)"
    "keeps H (sqfs_data_reader_create Q f b p)" "keeps H (sqfs_data_reader_load_fragment_table Q r super)"
    "keeps H (sqfs_data_reader_read Q r i off m)" "keeps H (sqfs_dir_reader_create Q super p f)"
    "keeps H (sqfs_dir_reader_get_root_inode Q r)" "keeps H (sqfs_dir_reader_find_by_path Q r path)"
    "keeps H (sqfs_dir_reader_open_dir Q r i)" "keeps H (sqfs_dir_reader_read Q r)"
    "keeps H (sqfs_dir_reader_get_inode Q r)" "keeps H (sqfs_destroy Q p)"
  using assms by (simp_all add: lib_keeps_def)

lemma platform_okD:
  assumes "platform_ok P H budget left"
  shows "uthash_ok (ut P)" "kernel_ok (libc P) H budget" "lib_keeps (lib P) H"
    "listing_ok (libc P) (lib P) left"
  using assms by (simp_all add: platform_ok_def)

lemma keeps_subset: "keeps H f \<Longrightarrow> H (os s) \<subseteq> H (os (snd (sys_call f s)))"
  using sys_call_calm [of H f s] by (simp add: calm_def)

end
