(* ===== verification/Sample.thy ===== *)
theory Sample
  imports Process
begin

text \<open>
  A concrete platform that satisfies the laws of \<open>Process\<close>: a kernel with an output, a counter
  for fresh handles and a list of open ones, a count of \<open>funchook\<close> objects, an image with one file of five bytes in its root
  and in its directory \<open>d\<close>, and a hash table that is an association list. The witnesses of the
  theorems run on it.
\<close>

record machine =
  m_out :: string
  m_interrupts :: nat
  m_next :: nat
  m_handles :: "handle list"
  m_real :: "dirent list"
  m_listing :: nat
  m_failed :: bool
  m_objects :: int

definition m_alloc_fd :: "machine \<Rightarrow> int \<times> int option \<times> machine" where
  "m_alloc_fd w =
     (int (m_next w), None, w\<lparr>m_next := m_next w + 1, m_handles := Descriptor (int (m_next w)) # m_handles w\<rparr>)"

definition m_alloc_dir :: "machine \<Rightarrow> int option \<times> int option \<times> machine" where
  "m_alloc_dir w =
     (Some (int (m_next w)), None, w\<lparr>m_next := m_next w + 1, m_handles := Stream (int (m_next w)) # m_handles w\<rparr>)"

definition m_close :: "handle \<Rightarrow> machine \<Rightarrow> int \<times> int option \<times> machine" where
  "m_close h w =
     (if h \<in> set (m_handles w) then (0, None, w\<lparr>m_handles := removeAll h (m_handles w)\<rparr>)
      else (-1, Some 9, w))"

text \<open>A write takes at most seven bytes at a time and may be interrupted a few times first.\<close>

definition m_write :: "string \<Rightarrow> machine \<Rightarrow> int \<times> int option \<times> machine" where
  "m_write p w =
     (if m_interrupts w > 0 then (-1, Some EINTR, w\<lparr>m_interrupts := m_interrupts w - 1\<rparr>)
      else (int (min 7 (length p)), None, w\<lparr>m_out := m_out w @ take 7 p\<rparr>))"

definition m_readdir :: "machine \<Rightarrow> dirent option \<times> int option \<times> machine" where
  "m_readdir w =
     (case m_real w of [] \<Rightarrow> (None, None, w) | e # es \<Rightarrow> (Some e, None, w\<lparr>m_real := es\<rparr>))"

definition sample_libc :: "machine libc" where
  "sample_libc =
     \<lparr>libc_open = (\<lambda>path flags mode w.
        if path = Some ''/etc/motd'' then m_alloc_fd w else (-1, Some ENOENT, w)),
      libc_read = (\<lambda>fd n w. ((0, []), None, w)),
      libc_pread = (\<lambda>fd n off w. ((0, []), None, w)),
      libc_pread64 = Some (\<lambda>fd n off w. ((0, []), None, w)),
      libc_lseek = (\<lambda>fd off whence w. (0, None, w)),
      libc_lseek64 = Some (\<lambda>fd off whence w. (0, None, w)),
      libc_close = Some (\<lambda>fd. m_close (Descriptor fd)),
      libc_close_nocancel = None,
      libc_opendir = (\<lambda>path w.
        if path = Some ''/hook'' \<or> (case path of Some p \<Rightarrow> take 5 p = ''/tmp/'' | None \<Rightarrow> False)
        then m_alloc_dir w else (None, Some ENOENT, w)),
      libc_readdir = (\<lambda>d. m_readdir),
      libc_closedir = (\<lambda>d. m_close (Stream d)),
      libc_access = (\<lambda>path mode w. (-1, Some ENOENT, w)),
      libc_xstat = (\<lambda>ver path b w. ((-1, None), Some ENOENT, w)),
      sys_memfd_create = (\<lambda>name flags. m_alloc_fd),
      sys_openat = (\<lambda>path flags mode. m_alloc_fd),
      sys_unlinkat = (\<lambda>path w. (0, None, w)),
      sys_write = (\<lambda>fd. m_write),
      libc_mkdir = (\<lambda>path mode w. (0, None, w)),
      libc_rmdir = (\<lambda>path w. (0, None, w)),
      libc_getpid = 42,
      libc_malloc_ok = (\<lambda>w. (True, None, w)),
      pthread_mutexattr_init = 0,
      pthread_mutexattr_settype = 0\<rparr>"

definition sample_file :: sqfs_inode where
  "sample_file =
     \<lparr>base_type = SQFS_INODE_FILE, base_mode = 0x1A4, base_inode_number = 7, base_mod_time = 1000,
      dir_nlink = 0, dir_size = 0, dir_ext_nlink = 0, dir_ext_size = 0, file_ext_nlink = 0,
      slink_nlink = 0, slink_target_size = 0, slink_ext_nlink = 0, slink_ext_target_size = 0,
      dev_nlink = 0, dev_ext_nlink = 0, ipc_nlink = 0, ipc_ext_nlink = 0\<rparr>"

definition sample_dir :: sqfs_inode where
  "sample_dir = sample_file\<lparr>base_type := SQFS_INODE_DIR, base_mode := 0x1ED,
     base_inode_number := 3, dir_nlink := 2, dir_size := 30\<rparr>"

definition sample_super :: sqfs_super where
  "sample_super =
     \<lparr>inode_count = 3, block_size = 0x20000, bytes_used = 4096, compression_id = 1, super_flags = 0\<rparr>"

definition sample_bytes :: "byte list" where
  "sample_bytes = [104, 101, 108, 108, 111]"

definition m_data_read :: "u64 \<Rightarrow> u32 \<Rightarrow> machine \<Rightarrow> (int \<times> byte list) \<times> int option \<times> machine" where
  "m_data_read off n w =
     (let bytes = take (unat n) (drop (unat off) sample_bytes)
      in ((int (length bytes), bytes), None, w))"

definition m_dir_read :: "machine \<Rightarrow> (int \<times> sqfs_dir_entry option) \<times> int option \<times> machine" where
  "m_dir_read w =
     (if m_listing w > 0 then
        ((0, Some \<lparr>entry_type = SQFS_INODE_FILE, entry_size = 0, entry_name = ''a''\<rparr>), None,
         w\<lparr>m_listing := m_listing w - 1\<rparr>)
      else ((1, None), None, w))"

definition m_find :: "string \<Rightarrow> machine \<Rightarrow> (int \<times> sqfs_inode option) \<times> int option \<times> machine" where
  "m_find path w =
     ((if path = ''a'' \<or> path = ''d/a'' then (0, Some sample_file)
       else if path = ''d'' then (0, Some sample_dir)
       else (-13, None)), None, w)"

definition m_open_dir :: "machine \<Rightarrow> int \<times> int option \<times> machine" where
  "m_open_dir w = (0, None, w\<lparr>m_listing := 1\<rparr>)"

definition sample_lib :: "machine libsquashfs" where
  "sample_lib =
     \<lparr>sqfs_error_of = (\<lambda>n. if n = -1 then Some SQFS_ERROR_ALLOC else if n = -2 then Some SQFS_ERROR_IO
        else if n = -13 then Some SQFS_ERROR_NO_ENTRY else None),
      SQFS_FLAG_COMPRESSOR_OPTIONS = 0x400,
      sqfs_compressor_name_from_id = (\<lambda>i. if i = 1 then Some ''gzip'' else None),
      sqfs_open_file = (\<lambda>path w. (Some 1, None, w)),
      sqfs_super_read = (\<lambda>f w. ((0, sample_super), None, w)),
      sqfs_compressor_config_init = (\<lambda>c b. (0, 0)),
      sqfs_compressor_create = (\<lambda>c w. ((0, Some 2), None, w)),
      sqfs_compressor_read_options = (\<lambda>c f w. (0, None, w)),
      sqfs_data_reader_create = (\<lambda>f b c w. (Some 3, None, w)),
      sqfs_data_reader_load_fragment_table = (\<lambda>r super w. (0, None, w)),
      sqfs_data_reader_read = (\<lambda>r i. m_data_read),
      sqfs_dir_reader_create = (\<lambda>super c f w. (Some 4, None, w)),
      sqfs_dir_reader_get_root_inode = (\<lambda>r w. ((0, Some sample_dir), None, w)),
      sqfs_dir_reader_find_by_path = (\<lambda>r. m_find),
      sqfs_dir_reader_open_dir = (\<lambda>r i. m_open_dir),
      sqfs_dir_reader_read = (\<lambda>r. m_dir_read),
      sqfs_dir_reader_get_inode = (\<lambda>r w. ((0, Some sample_file), None, w)),
      sqfs_inode_get_file_size = (\<lambda>i. (0, 5)),
      sqfs_destroy = (\<lambda>p w. ((), None, w))\<rparr>"

definition sample_uthash :: "(int \<times> ptr) list uthash" where
  "sample_uthash =
     \<lparr>HASH_NULL = [], HASH_FIND = map_of, HASH_ADD = (\<lambda>k p h. (k, p) # h),
      HASH_DEL = (\<lambda>k p h. filter (\<lambda>(k', p'). k' \<noteq> k) h), LL_APPEND = (\<lambda>ns n. ns @ [n])\<rparr>"

definition sample_getenv :: "string \<Rightarrow> string option" where
  "sample_getenv name =
     (if name = ''HOOKSQFS_FILE'' then Some ''/images/app.sqfs''
      else if name = ''HOOKSQFS_LOG_INCLUDE'' then Some ''open, sqfs_close'' else None)"

definition sample_env :: "(machine, (int \<times> ptr) list) env" where
  "sample_env =
     \<lparr>libc = sample_libc, lib = sample_lib, ut = sample_uthash,
      cfg = \<lparr>getenv = sample_getenv, sizeof_long = 8, sizeof_dirent = 280\<rparr>\<rparr>"

text \<open>The machine at the start, and the process on it before the constructor of the library runs.\<close>

definition sample_machine :: machine where
  "sample_machine =
     \<lparr>m_out = [], m_interrupts = 2, m_next = 3, m_handles = [],
      m_real = [\<lparr>d_ino = 99, d_off = 0, d_reclen = 24, d_type = 8, d_name = ''r''\<rparr>], m_listing = 0,
      m_failed = False, m_objects = 0\<rparr>"

definition sample_proc :: "(machine, (int \<times> ptr) list) proc" where
  "sample_proc = fresh_proc sample_uthash sample_machine"

text \<open>The open handles of the machine; every one it handed out is below the counter.\<close>

definition m_open :: "machine \<Rightarrow> handle set" where
  "m_open w = {h \<in> set (m_handles w). (case h of Descriptor n \<Rightarrow> n < int (m_next w) | Stream n \<Rightarrow> n < int (m_next w))}"

lemma sample_env_simps [simp]:
  "libc sample_env = sample_libc" "lib sample_env = sample_lib" "ut sample_env = sample_uthash"
  "getenv (cfg sample_env) = sample_getenv" "sizeof_long (cfg sample_env) = 8"
  by (simp_all add: sample_env_def)

lemma sample_uthash_ok: "uthash_ok sample_uthash"
proof -
  have "map_of (filter (\<lambda>(k', p'). k' \<noteq> k) h) = (map_of h)(k := None)" for k and h :: "(int \<times> ptr) list"
    by (induction h) (auto simp: fun_eq_iff)
  then show ?thesis by (simp add: uthash_ok_def sample_uthash_def)
qed

lemmas machine_ops = m_alloc_fd_def m_alloc_dir_def m_close_def m_write_def m_readdir_def
  m_data_read_def m_dir_read_def m_find_def m_open_dir_def

lemma m_write_ok: "writes_ok sample_libc m_interrupts"
  by (auto simp: writes_ok_def sample_libc_def m_write_def)

lemma sample_keeps:
  "opens m_open new_fd m_alloc_fd" "opens m_open (map_option Stream) m_alloc_dir"
  "keeps m_open (m_write p)" "keeps m_open m_readdir" "closes m_open h (m_close h)"
  "keeps m_open (m_data_read off n)" "keeps m_open m_dir_read"
  "keeps m_open (m_find path)" "keeps m_open m_open_dir"
  by (auto simp: opens_def keeps_def closes_def new_fd_def m_open_def machine_ops Let_def
      split: handle.splits list.splits if_splits)

lemma opens_if [simp]:
  "g a = None \<Longrightarrow> opens H g (\<lambda>w. if b then f w else (a, e, w)) \<longleftrightarrow> b \<longrightarrow> opens H g f"
  "keeps H (\<lambda>w. if b then f w else (a, e, w)) \<longleftrightarrow> b \<longrightarrow> keeps H f"
  "keeps H (\<lambda>w. (a, e, w))"
  by (auto simp: opens_def keeps_def)

lemma sample_kernel_ok: "kernel_ok sample_libc m_open m_interrupts"
proof -
  have "keeps m_open m_alloc_fd" using sample_keeps(1) by blast
  then show ?thesis
    unfolding kernel_ok_def using m_write_ok sample_keeps by (simp add: sample_libc_def)
qed

lemma sample_lib_keeps: "lib_keeps sample_lib m_open"
  unfolding lib_keeps_def using sample_keeps by (simp add: sample_lib_def)

lemma sample_listing_ok: "listing_ok sample_libc sample_lib (\<lambda>r. m_listing)"
  by (auto simp: listing_ok_def sample_libc_def sample_lib_def m_dir_read_def)

lemma sample_platform_ok: "platform_ok sample_env m_open m_interrupts (\<lambda>r. m_listing)"
  by (simp add: platform_ok_def sample_uthash_ok sample_kernel_ok sample_lib_keeps sample_listing_ok)

end
