(* ===== verification/Logging.thy ===== *)
theory Logging
  imports Sample
begin

text \<open>
  \<open>src/logging.c\<close>: the choice of the output, the write loop, the filter
  \<open>HOOKSQFS_LOG_INCLUDE\<close> and the two formatting entry points. A call passes the text that
  its format string and arguments produce; \<open>vsnprintf\<close> cuts it at the buffer. The numbers are
  rendered by \<open>show_nat\<close> and its relatives, the conversions \<open>%u\<close>, \<open>%d\<close>, \<open>%x\<close> and \<open>%o\<close>.
\<close>

section \<open>Numbers and text\<close>

definition digit_char :: "nat \<Rightarrow> char" where
  "digit_char n = (if n < 10 then char_of (48 + n) else char_of (87 + n))"

function show_base :: "nat \<Rightarrow> nat \<Rightarrow> string" where
  "show_base b n =
     (if b < 2 then [] else if n < b then [digit_char n]
      else show_base b (n div b) @ [digit_char (n mod b)])"
  by pat_completeness auto
termination
  by (relation "measure (\<lambda>(b, n). n)") auto

declare show_base.simps [simp del]

abbreviation show_nat :: "nat \<Rightarrow> string" where
  "show_nat \<equiv> show_base 10"

definition show_int :: "int \<Rightarrow> string" where
  "show_int i = (if i < 0 then CHR ''-'' # show_nat (nat (- i)) else show_nat (nat i))"

definition show_hex :: "u32 \<Rightarrow> string" where
  "show_hex w = show_base 16 (unat w)"

definition show_oct :: "u32 \<Rightarrow> string" where
  "show_oct w = show_base 8 (unat w)"

definition nl :: string where
  "nl = [CHR 0x0A]"

definition dquote :: string where
  "dquote = [CHR 0x22]"

section \<open>The output\<close>

definition log_output_init_once :: "('w, 'h) env \<Rightarrow> ('w, 'h) proc \<Rightarrow> ('w, 'h) proc" where
  "log_output_init_once P s =
     (case getenv (cfg P) ''HOOKSQFS_LOG_FILE'' of
        Some (c # cs) \<Rightarrow>
          (case sys_call (sys_openat (libc P) (c # cs)
                  (O_WRONLY OR O_CREAT OR O_TRUNC OR O_CLOEXEC) 0x1A4) s of
             (fd, s') \<Rightarrow> s'\<lparr>log_fd := fd\<rparr>)
      | _ \<Rightarrow> s\<lparr>log_fd := 1\<rparr>)"

text \<open>\<open>pthread_once\<close> runs its function at the first call only.\<close>

definition log_pthread_once :: "('w, 'h) env \<Rightarrow> ('w, 'h) proc \<Rightarrow> ('w, 'h) proc" where
  "log_pthread_once P s =
     (if log_once s then s else (log_output_init_once P s)\<lparr>log_once := True\<rparr>)"

text \<open>
  The loop of \<open>log_write\<close>: \<^term>\<open>None\<close> if it never ends (the write is interrupted for ever). A
  kernel that reports more bytes than it was given moves the pointer out of the buffer.
\<close>

partial_function (option) log_write_loop ::
    "('w, 'h) env \<Rightarrow> string \<Rightarrow> ('w, 'h) proc \<Rightarrow> ('w, 'h) proc option" where
  "log_write_loop E p s =
     (if p = [] then Some s
      else case sys_call (sys_write (libc E) (log_fd s) p) s of
        (written, s') \<Rightarrow>
          if written < 0 then
            (if errno s' = EINTR then log_write_loop E p s' else Some s')
          else if written = 0 then Some s'
          else if nat written > length p then Some (set_trap Faulted s')
          else log_write_loop E (drop (nat written) p) s')"

definition log_write :: "('w, 'h) env \<Rightarrow> string \<Rightarrow> ('w, 'h) proc \<Rightarrow> ('w, 'h) proc" where
  "log_write P buf s =
     (let s1 = log_pthread_once P s
      in if log_fd s1 < 0 then s1
         else (case log_write_loop P buf s1 of None \<Rightarrow> set_trap Hung s1 | Some s2 \<Rightarrow> s2))"

section \<open>The filter\<close>

definition is_blank :: "char \<Rightarrow> bool" where
  "is_blank c = (c = CHR '' '' \<or> c = CHR 0x09)"

text \<open>The loop that takes blanks off the end of the token.\<close>

definition rstrip :: "string \<Rightarrow> string" where
  "rstrip s = rev (dropWhile is_blank (rev s))"

text \<open>
  The tests of one token: \<open>ALL\<close>, the name of the function, and its name without \<open>sqfs_\<close>.
\<close>

definition token_matches :: "string option \<Rightarrow> string \<Rightarrow> bool" where
  "token_matches func_name token =
     (token = ''ALL'' \<or>
      (case func_name of
         None \<Rightarrow> False
       | Some f \<Rightarrow> f \<noteq> [] \<and> token = f \<or> take 5 f = ''sqfs_'' \<and> token = drop 5 f))"

function log_enabled_loop :: "string option \<Rightarrow> string \<Rightarrow> bool" where
  "log_enabled_loop func_name p =
     (if p = [] then False
      else
        let start = dropWhile is_blank p;
            token = rstrip (takeWhile (\<lambda>c. c \<noteq> CHR '','') start);
            p' = dropWhile (\<lambda>c. c \<noteq> CHR '','') start
        in if token_matches func_name token then True
           else log_enabled_loop func_name (tl p'))"
  by pat_completeness auto
termination
proof (relation "measure (\<lambda>(func_name, p). length p)", goal_cases)
  case (2 func_name p start token p')
  have "length p' \<le> length p"
    using 2 length_dropWhile_le order_trans by metis
  with 2 show ?case by (cases p'; cases p) auto
qed simp

declare log_enabled_loop.simps [simp del]

definition log_enabled :: "('w, 'h) env \<Rightarrow> string option \<Rightarrow> bool" where
  "log_enabled P func_name =
     (case getenv (cfg P) ''HOOKSQFS_LOG_INCLUDE'' of
        None \<Rightarrow> False
      | Some include \<Rightarrow> include \<noteq> [] \<and> log_enabled_loop func_name include)"

section \<open>Formatting\<close>

text \<open>\<open>vsnprintf\<close> into \<open>sz\<close> bytes: what it stores, the terminator included.\<close>

definition vsnprintf_bytes :: "nat \<Rightarrow> string \<Rightarrow> string" where
  "vsnprintf_bytes sz text = (if sz = 0 then [] else take (sz - 1) text @ [CHR 0x00])"

definition log_buf_size :: nat where
  "log_buf_size = 1024"

definition hook_prefix :: "string option \<Rightarrow> string" where
  "hook_prefix func_name =
     (case func_name of
        Some (c # cs) \<Rightarrow> ''[hooklog] '' @ (c # cs) @ '': ''
      | _ \<Rightarrow> [])"

text \<open>
  The bytes that \<open>log_hook\<close> passes to \<open>log_write\<close>, the first \<open>total\<close> bytes of \<open>buf\<close>;
  \<^term>\<open>None\<close> where it returns before that.
\<close>

definition log_hook_bytes :: "string option \<Rightarrow> string \<Rightarrow> string option" where
  "log_hook_bytes func_name text =
     (let prefix_len = length (hook_prefix func_name);
          buf = hook_prefix func_name @ vsnprintf_bytes (log_buf_size - prefix_len) text;
          n = length text
      in if prefix_len \<ge> log_buf_size then None
         else if n = 0 then None
         else let total = min (prefix_len + n) log_buf_size in Some (take total buf))"

definition log_hook ::
    "('w, 'h) env \<Rightarrow> string option \<Rightarrow> string \<Rightarrow> ('w, 'h) proc \<Rightarrow> ('w, 'h) proc" where
  "log_hook P func_name text s =
     (if \<not> log_enabled P func_name then s
      else (case log_hook_bytes func_name text of
              None \<Rightarrow> s
            | Some bytes \<Rightarrow> log_write P bytes s))"

definition log_msg_bytes :: "string \<Rightarrow> string option" where
  "log_msg_bytes text =
     (if length text = 0 then None
      else let n = min (length text) log_buf_size
           in Some (take n (vsnprintf_bytes log_buf_size text)))"

definition log_msg :: "('w, 'h) env \<Rightarrow> string \<Rightarrow> ('w, 'h) proc \<Rightarrow> ('w, 'h) proc" where
  "log_msg P text s =
     (case log_msg_bytes text of None \<Rightarrow> s | Some bytes \<Rightarrow> log_write P bytes s)"

section \<open>Logging leaves the manager alone\<close>

lemma log_output_init_once_core: "core_eq s (log_output_init_once P s)"
  by (auto simp: log_output_init_once_def core_eq_def sys_call_def
      split: option.split list.split prod.split)

lemma log_pthread_once_core: "core_eq s (log_pthread_once P s)"
  using log_output_init_once_core [of s P] by (simp add: log_pthread_once_def core_eq_def)

lemma log_write_loop_core:
  fixes P :: "('w, 'h) env"
  assumes "log_write_loop P p s = Some t"
  shows "core_eq s t"
proof (rule log_write_loop.raw_induct [where P = "\<lambda>E p s t. core_eq s t", OF _ assms])
  fix loop :: "('w, 'h) env \<Rightarrow> string \<Rightarrow> ('w, 'h) proc \<Rightarrow> ('w, 'h) proc option" and E p s t
  assume IH: "\<And>E p s t. loop E p s = Some t \<Longrightarrow> core_eq s t"
    and eq: "(if p = [] then Some s
      else case sys_call (sys_write (libc E) (log_fd s) p) s of
        (written, s') \<Rightarrow>
          if written < 0 then (if errno s' = EINTR then loop E p s' else Some s')
          else if written = 0 then Some s'
          else if nat written > length p then Some (set_trap Faulted s')
          else loop E (drop (nat written) p) s') = Some t"
  obtain n s' where call: "sys_call (sys_write (libc E) (log_fd s) p) s = (n, s')"
    by (cases "sys_call (sys_write (libc E) (log_fd s) p) s")
  have "core_eq s s'" using call by (rule sys_call_core)
  moreover have "core_eq s' t" if "p \<noteq> []"
    using eq call that IH set_trap.core [of s'] by (auto split: if_split_asm)
  ultimately show "core_eq s t"
    using eq by (cases "p = []") (auto intro: core_eq_trans)
qed

lemma log_write_core: "core_eq s (log_write P buf s)"
proof -
  have "core_eq (log_pthread_once P s) (log_write P buf s)"
    using log_write_loop_core set_trap.core by (auto simp: log_write_def Let_def split: option.split)
  with log_pthread_once_core show ?thesis by (rule core_eq_trans)
qed

interpretation log_hook: quiet "log_hook P func_name msg" for P func_name msg
  by unfold_locales (simp add: log_hook_def log_write_core split: option.split)

interpretation log_msg: quiet "log_msg P msg" for P msg
  by unfold_locales (simp add: log_msg_def log_write_core split: option.split)

section \<open>The filter, as a list of names\<close>

text \<open>
  What the Readme promises: the variable is a comma-separated list of names, blanks around a
  name do not count.
\<close>

definition trim :: "string \<Rightarrow> string" where
  "trim s = rstrip (dropWhile is_blank s)"

definition include_names :: "string \<Rightarrow> string list" where
  "include_names include = map trim (split_on (CHR '','') include)"

lemma comma_not_blank [simp]: "\<not> is_blank (CHR '','')"
  by (simp add: is_blank_def)

lemma skip_blanks:
  "takeWhile (\<lambda>c. c \<noteq> CHR '','') (dropWhile is_blank p) = dropWhile is_blank (takeWhile (\<lambda>c. c \<noteq> CHR '','') p)"
  "dropWhile (\<lambda>c. c \<noteq> CHR '','') (dropWhile is_blank p) = dropWhile (\<lambda>c. c \<noteq> CHR '','') p"
  by (induction p) auto

lemma trim_Nil [simp]: "trim [] = []"
  by (simp add: trim_def rstrip_def)

lemma log_enabled_loop_names:
  assumes "\<not> token_matches f []"
  shows "log_enabled_loop f p \<longleftrightarrow> (\<exists>t \<in> set (include_names p). token_matches f t)"
proof (induction "length p" arbitrary: p rule: less_induct)
  case less
  show ?case
  proof (cases "p = []")
    case True
    with assms show ?thesis by (simp add: log_enabled_loop.simps include_names_def)
  next
    case False
    let ?tok = "trim (takeWhile (\<lambda>c. c \<noteq> CHR '','') p)"
    let ?rest = "dropWhile (\<lambda>c. c \<noteq> CHR '','') p"
    have step: "log_enabled_loop f p \<longleftrightarrow> token_matches f ?tok \<or> log_enabled_loop f (tl ?rest)"
      using False by (subst log_enabled_loop.simps) (simp add: Let_def skip_blanks trim_def)
    show ?thesis
    proof (cases ?rest)
      case Nil
      then show ?thesis
        unfolding step by (simp add: log_enabled_loop.simps [of f "[]"] include_names_def
            split_on_takeWhile [of _ p] del: dropWhile_eq_Nil_conv)
    next
      case (Cons x r)
      then have "length r < length p"
        using length_dropWhile_le [of "\<lambda>c. c \<noteq> CHR '',''" p] by simp
      with less Cons show ?thesis
        unfolding step by (simp add: include_names_def split_on_takeWhile [of _ p])
    qed
  qed
qed

section \<open>The write loop\<close>

text \<open>
  A kernel that accepts the output on \<open>fd\<close>: each write stores a non-empty prefix of the bytes
  at the end of what \<open>out\<close> shows, or is interrupted, and it is interrupted only finitely often
  (\<open>budget\<close> goes down).
\<close>

definition write_ok :: "'w libc \<Rightarrow> int \<Rightarrow> ('w \<Rightarrow> string) \<Rightarrow> ('w \<Rightarrow> nat) \<Rightarrow> bool" where
  "write_ok L fd out budget \<longleftrightarrow>
     (\<forall>p w. p \<noteq> [] \<longrightarrow>
        (case sys_write L fd p w of
           (n, e, w') \<Rightarrow>
             0 < n \<and> n \<le> int (length p) \<and> out w' = out w @ take (nat n) p \<and> budget w' \<le> budget w
           \<or> n < 0 \<and> e = Some EINTR \<and> out w' = out w \<and> budget w' < budget w))"

lemma log_write_loop_delivers:
  assumes "write_ok (libc P) (log_fd s) out budget"
  shows "\<exists>t. log_write_loop P p s = Some t \<and> out (os t) = out (os s) @ p \<and> trapped t = trapped s"
  using assms
proof (induction "length p + budget (os s)" arbitrary: p s rule: less_induct)
  case less
  show ?case
  proof (cases "p = []")
    case True
    then show ?thesis by (simp add: log_write_loop.simps)
  next
    case False
    obtain n e w where w: "sys_write (libc P) (log_fd s) p (os s) = (n, e, w)"
      by (cases "sys_write (libc P) (log_fd s) p (os s)")
    define s' where "s' = s\<lparr>os := w, errno := (case e of None \<Rightarrow> errno s | Some n \<Rightarrow> n)\<rparr>"
    have call: "sys_call (sys_write (libc P) (log_fd s) p) s = (n, s')"
      by (simp add: sys_call_def w s'_def)
    have s': "log_fd s' = log_fd s" "trapped s' = trapped s" "os s' = w"
      by (simp_all add: s'_def)
    have "0 < n \<and> n \<le> int (length p) \<and> out w = out (os s) @ take (nat n) p \<and> budget w \<le> budget (os s)
        \<or> n < 0 \<and> e = Some EINTR \<and> out w = out (os s) \<and> budget w < budget (os s)"
      using less.prems [unfolded write_ok_def, rule_format, OF False, of "os s"] w by simp
    then consider
        (part) "0 < n" "n \<le> int (length p)" "out w = out (os s) @ take (nat n) p" "budget w \<le> budget (os s)"
      | (intr) "n < 0" "e = Some EINTR" "out w = out (os s)" "budget w < budget (os s)"
      by blast
    then show ?thesis
    proof cases
      case part
      have "length (drop (nat n) p) + budget (os s') < length p + budget (os s)"
        using part False s' by (cases p) auto
      from less.hyps [OF this] less.prems s' obtain t where
        "log_write_loop P (drop (nat n) p) s' = Some t"
        "out (os t) = out w @ drop (nat n) p" "trapped t = trapped s" by auto
      with part False call show ?thesis
        by (auto simp: log_write_loop.simps [of P p s])
    next
      case intr
      then have "length p + budget (os s') < length p + budget (os s)" using s' by simp
      from less.hyps [OF this] less.prems s' obtain t where "log_write_loop P p s' = Some t"
        "out (os t) = out w @ p" "trapped t = trapped s" using intr by auto
      moreover have "errno s' = EINTR" using intr by (simp add: s'_def)
      ultimately show ?thesis
        using intr False call by (auto simp: log_write_loop.simps [of P p s])
    qed
  qed
qed

lemma log_write_delivers:
  assumes "write_ok (libc P) (log_fd s) out budget" and "log_once s" and "0 \<le> log_fd s"
  shows "out (os (log_write P bytes s)) = out (os s) @ bytes
    \<and> trapped (log_write P bytes s) = trapped s"
  using log_write_loop_delivers [OF assms(1), of bytes] assms(2,3)
  by (auto simp: log_write_def log_pthread_once_def)

section \<open>The buffer\<close>

lemma length_vsnprintf: "0 < n \<Longrightarrow> length (vsnprintf_bytes n text) = min n (Suc (length text))"
  by (auto simp: vsnprintf_bytes_def)

lemma log_msg_bytes_short:
  "text \<noteq> [] \<Longrightarrow> length text < log_buf_size \<Longrightarrow> log_msg_bytes text = Some text"
  by (auto simp: log_msg_bytes_def vsnprintf_bytes_def log_buf_size_def)

lemma log_msg_bytes_long:
  "log_buf_size \<le> length text \<Longrightarrow> log_msg_bytes text = Some (take 1023 text @ [CHR 0x00])"
  by (auto simp: log_msg_bytes_def vsnprintf_bytes_def log_buf_size_def)

lemma log_hook_bytes_short:
  "text \<noteq> [] \<Longrightarrow> length (hook_prefix f) + length text < log_buf_size \<Longrightarrow>
     log_hook_bytes f text = Some (hook_prefix f @ text)"
  by (auto simp: log_hook_bytes_def vsnprintf_bytes_def Let_def)

text \<open>The bytes of a message, cut at the buffer: the terminator of a cut one is among them.\<close>

definition cut_message :: "string \<Rightarrow> string" where
  "cut_message msg = (if length msg < log_buf_size then msg else take 1023 msg @ [CHR 0x00])"

lemma log_msg_bytes_cut: "log_msg_bytes msg = (if msg = [] then None else Some (cut_message msg))"
  using log_msg_bytes_short [of msg] log_msg_bytes_long [of msg]
  by (auto simp: cut_message_def log_msg_bytes_def)

lemma log_hook_bytes_cut:
  assumes "length (hook_prefix f) < log_buf_size"
  shows "log_hook_bytes f msg = (if msg = [] then None else Some (cut_message (hook_prefix f @ msg)))"
  using assms
  by (auto simp: log_hook_bytes_def cut_message_def vsnprintf_bytes_def Let_def log_buf_size_def min_def)

lemma log_write_output:
  assumes "0 \<le> log_fd (log_pthread_once P s)"
    and "write_ok (libc P) (log_fd (log_pthread_once P s)) out budget"
  shows "out (os (log_write P bytes s)) = out (os (log_pthread_once P s)) @ bytes"
    and "trapped (log_write P bytes s) = trapped s"
proof -
  have "trapped (log_pthread_once P s) = trapped s"
    by (auto simp: log_pthread_once_def log_output_init_once_def sys_call_def
        split: option.split list.split prod.split)
  then show "out (os (log_write P bytes s)) = out (os (log_pthread_once P s)) @ bytes"
    and "trapped (log_write P bytes s) = trapped s"
    using log_write_loop_delivers [OF assms(2), of bytes] assms(1)
    by (auto simp: log_write_def Let_def)
qed

section \<open>Logging ends no handle and always returns\<close>

lemma log_write_loop_returns:
  assumes "writes_ok (libc P) budget"
  shows "\<exists>t. log_write_loop P p s = Some t \<and> trapped t = trapped s"
proof (induction "length p + budget (os s)" arbitrary: p s rule: less_induct)
  case less
  show ?case
  proof (cases "p = []")
    case True
    then show ?thesis by (simp add: log_write_loop.simps)
  next
    case False
    obtain n e w where w: "sys_write (libc P) (log_fd s) p (os s) = (n, e, w)"
      by (cases "sys_write (libc P) (log_fd s) p (os s)")
    define s' where "s' = s\<lparr>os := w, errno := (case e of None \<Rightarrow> errno s | Some n \<Rightarrow> n)\<rparr>"
    have call: "sys_call (sys_write (libc P) (log_fd s) p) s = (n, s')"
      by (simp add: sys_call_def w s'_def)
    have law: "n \<le> int (length p)" "budget w \<le> budget (os s)"
      "n < 0 \<Longrightarrow> e \<noteq> None" "n < 0 \<Longrightarrow> e = Some EINTR \<Longrightarrow> budget w < budget (os s)"
      using assms [unfolded writes_ok_def, rule_format, where fd = "log_fd s" and p = p and w = "os s"] w by simp_all
    have s': "trapped s' = trapped s" "os s' = w" by (simp_all add: s'_def)
    consider (intr) "n < 0" "errno s' = EINTR" | (fail) "n < 0" "errno s' \<noteq> EINTR"
      | (none) "n = 0" | (part) "n > 0" by linarith
    then show ?thesis
    proof cases
      case intr
      then have "e = Some EINTR" using law(3) by (auto simp: s'_def)
      then have "length p + budget (os s') < length p + budget (os s)" using intr law(4) s' by simp
      from less.hyps [OF this] intr False call s' show ?thesis
        by (simp add: log_write_loop.simps [of P p s])
    next
      case part
      then have "length (drop (nat n) p) + budget (os s') < length p + budget (os s)"
        using law(2) False s' by (cases p) auto
      from less.hyps [OF this] part law(1) False call s' show ?thesis
        by (auto simp: log_write_loop.simps [of P p s])
    qed (use False call s' in \<open>simp_all add: log_write_loop.simps [of P p s]\<close>)
  qed
qed

lemma log_write_loop_keeps:
  fixes P :: "('w, 'h) env" and H :: "'w \<Rightarrow> handle set"
  assumes "log_write_loop P p s = Some t" and "\<And>fd p. keeps H (sys_write (libc P) fd p)"
  shows "H (os s) \<subseteq> H (os t)"
proof -
  have "(\<forall>fd p. keeps H (sys_write (libc P) fd p)) \<longrightarrow> H (os s) \<subseteq> H (os t)"
  proof (rule log_write_loop.raw_induct
      [where P = "\<lambda>E p s t. (\<forall>fd p. keeps H (sys_write (libc E) fd p)) \<longrightarrow> H (os s) \<subseteq> H (os t)",
       OF _ assms(1)])
    fix loop :: "('w, 'h) env \<Rightarrow> string \<Rightarrow> ('w, 'h) proc \<Rightarrow> ('w, 'h) proc option" and E p s t
    assume IH: "\<And>E p s t. loop E p s = Some t \<Longrightarrow>
        (\<forall>fd p. keeps H (sys_write (libc E) fd p)) \<longrightarrow> H (os s) \<subseteq> H (os t)"
      and eq: "(if p = [] then Some s
      else case sys_call (sys_write (libc E) (log_fd s) p) s of
        (written, s') \<Rightarrow>
          if written < 0 then (if errno s' = EINTR then loop E p s' else Some s')
          else if written = 0 then Some s'
          else if nat written > length p then Some (set_trap Faulted s')
          else loop E (drop (nat written) p) s') = Some t"
    show "(\<forall>fd p. keeps H (sys_write (libc E) fd p)) \<longrightarrow> H (os s) \<subseteq> H (os t)"
    proof
      assume k: "\<forall>fd p. keeps H (sys_write (libc E) fd p)"
      obtain n s' where call: "sys_call (sys_write (libc E) (log_fd s) p) s = (n, s')"
        by (cases "sys_call (sys_write (libc E) (log_fd s) p) s")
      have "H (os s) \<subseteq> H (os s')"
        using sys_call_calm [of H "sys_write (libc E) (log_fd s) p" s] k call by (simp add: calm_def)
      with eq call IH k show "H (os s) \<subseteq> H (os t)"
        by (cases "p = []") (fastforce split: if_split_asm)+
    qed
  qed
  with assms(2) show ?thesis by simp
qed

lemma log_write_quiet:
  assumes "writes_ok (libc P) budget" and "\<And>fd p. keeps H (sys_write (libc P) fd p)"
    and "\<And>path flags mode. keeps H (sys_openat (libc P) path flags mode)"
  shows "calm H s (log_write P bytes s)"
proof -
  have once: "calm H s (log_pthread_once P s)"
    by (simp add: log_pthread_once_def log_output_init_once_def calm_def split_beta
        keeps_subset [OF assms(3)] split: option.split list.split)
  obtain t where "log_write_loop P bytes (log_pthread_once P s) = Some t"
    "trapped t = trapped (log_pthread_once P s)"
    using log_write_loop_returns [OF assms(1)] by blast
  moreover from this(1) have "H (os (log_pthread_once P s)) \<subseteq> H (os t)"
    using assms(2) by (rule log_write_loop_keeps)
  ultimately show ?thesis
    using once by (auto simp: log_write_def Let_def calm_def)
qed

text \<open>Logging changes no observation \<open>F\<close> of the outside state that its two system calls leave alone.\<close>

lemma log_write_observes:
  assumes "\<And>fd p w. F (snd (snd (sys_write (libc P) fd p w))) = F w"
    and "\<And>path flags mode w. F (snd (snd (sys_openat (libc P) path flags mode w))) = F w"
  shows "F (os (log_write P bytes s)) = F (os s)"
proof -
  define H where "H w = (if F w = F (os s) then {Descriptor 0} else {})" for w
  have k: "keeps H (sys_write (libc P) fd p)" "keeps H (sys_openat (libc P) path flags mode)"
    for fd p path flags mode
    using assms by (simp_all add: keeps_def H_def)
  have once: "H (os s) \<subseteq> H (os (log_pthread_once P s))"
    by (simp add: log_pthread_once_def log_output_init_once_def split_beta
        keeps_subset [OF k(2)] split: option.split list.split)
  have "H (os (log_pthread_once P s)) \<subseteq> H (os t)" if "log_write_loop P bytes (log_pthread_once P s) = Some t" for t
    using that k(1) by (rule log_write_loop_keeps)
  with once have "H (os s) \<subseteq> H (os (log_write P bytes s))"
    by (auto simp: log_write_def Let_def split: option.split)
  then show ?thesis by (simp add: H_def split: if_splits)
qed

lemma log_msg_observes:
  assumes "\<And>fd p w. F (snd (snd (sys_write (libc P) fd p w))) = F w"
    and "\<And>path flags mode w. F (snd (snd (sys_openat (libc P) path flags mode w))) = F w"
  shows "F (os (log_msg P m s)) = F (os s)"
  using log_write_observes [of F P, OF assms] by (simp add: log_msg_def split: option.split)

lemma log_write_calm:
  assumes "kernel_ok (libc P) H budget"
  shows "calm H s (log_write P bytes s)"
  using kernel_okD(1) [OF assms] kernel_keeps(9,14) [OF assms] by (rule log_write_quiet)

lemma log_hook_calm: "kernel_ok (libc P) H budget \<Longrightarrow> calm H s (log_hook P f msg s)"
  by (simp add: log_hook_def log_write_calm split: option.split)

lemma log_msg_calm: "kernel_ok (libc P) H budget \<Longrightarrow> calm H s (log_msg P msg s)"
  by (simp add: log_msg_def log_write_calm split: option.split)

section \<open>Properties of the log\<close>

lemma length_sqfs: "length ''sqfs_'' = 5"
  by simp

text \<open>
  C33. The filter is what the Readme says: a hook is logged exactly when the variable
  \<open>HOOKSQFS_LOG_INCLUDE\<close>, read as a comma-separated list of names with blanks around them
  ignored, has \<open>ALL\<close>, the name of the hook function, or its name without \<open>sqfs_\<close>.
\<close>

theorem log_filter_correct:
  assumes "f \<noteq> []" and "f \<noteq> ''sqfs_''"
  shows "log_enabled P (Some f) \<longleftrightarrow>
    (\<exists>include. getenv (cfg P) ''HOOKSQFS_LOG_INCLUDE'' = Some include \<and>
       (''ALL'' \<in> set (include_names include) \<or> f \<in> set (include_names include) \<or>
        (\<exists>short \<in> set (include_names include). f = ''sqfs_'' @ short)))"
proof -
  have short: "take 5 f = ''sqfs_'' \<and> t = drop 5 f \<longleftrightarrow> f = ''sqfs_'' @ t" for t
    using append_take_drop_id [of 5 f] by (metis append_eq_conv_conj length_sqfs)
  have "\<not> token_matches (Some f) []"
    using assms short [of "[]"] by (auto simp: token_matches_def)
  then have "log_enabled_loop (Some f) p \<longleftrightarrow> (\<exists>t \<in> set (include_names p). token_matches (Some f) t)" for p
    by (rule log_enabled_loop_names)
  moreover have "log_enabled_loop (Some f) [] = False"
    by (simp add: log_enabled_loop.simps)
  ultimately show ?thesis
    using assms(1) short
    by (cases "getenv (cfg P) ''HOOKSQFS_LOG_INCLUDE''")
       (auto simp: log_enabled_def token_matches_def)
qed

theorem log_filter_correct_witness:
  "log_enabled sample_env (Some ''sqfs_open'') \<longleftrightarrow>
    (\<exists>include. getenv (cfg sample_env) ''HOOKSQFS_LOG_INCLUDE'' = Some include \<and>
       (''ALL'' \<in> set (include_names include) \<or> ''sqfs_open'' \<in> set (include_names include) \<or>
        (\<exists>short \<in> set (include_names include). ''sqfs_open'' = ''sqfs_'' @ short)))"
  by (rule log_filter_correct) simp_all

text \<open>
  C34. A message shorter than the buffer reaches the output completely, in order and once, across
  partial and interrupted writes. A longer one is cut, and because the length is clamped to the
  size of the buffer and not to one less, the terminating NUL is written to the log.
\<close>

theorem log_msg_delivers:
  assumes "0 \<le> log_fd (log_pthread_once P s)"
    and "write_ok (libc P) (log_fd (log_pthread_once P s)) out budget" and "msg \<noteq> []"
  shows "out (os (log_msg P msg s)) = out (os (log_pthread_once P s)) @
    (if length msg < 1024 then msg else take 1023 msg @ [CHR 0x00])"
  using log_write_output [OF assms(1,2)] assms(3)
  by (simp add: log_msg_def log_msg_bytes_cut cut_message_def log_buf_size_def)

lemma sample_write_ok: "write_ok sample_libc fd m_out m_interrupts"
  by (auto simp: write_ok_def sample_libc_def m_write_def min_def)

theorem log_msg_delivers_witness:
  "m_out (os (log_msg sample_env ''libsquashfs read OK'' sample_proc)) =
     m_out (os (log_pthread_once sample_env sample_proc)) @
       (if length ''libsquashfs read OK'' < 1024 then ''libsquashfs read OK''
        else take 1023 ''libsquashfs read OK'' @ [CHR 0x00])"
  by (rule log_msg_delivers [where budget = m_interrupts])
    (simp_all add: sample_write_ok log_pthread_once_def log_output_init_once_def sample_getenv_def
      sample_proc_def fresh_proc_def)

text \<open>
  A message of a hook is written exactly when the filter includes the hook, behind its
  \<open>[hooklog]\<close> prefix; a disabled one writes nothing and does not even open the log.
\<close>

lemma log_hook_delivers:
  assumes "0 \<le> log_fd (log_pthread_once P s)"
    and "write_ok (libc P) (log_fd (log_pthread_once P s)) out budget"
    and "f \<noteq> []" and "length f < 1000" and "msg \<noteq> []" and "length f + length msg + 12 < 1024"
  shows "if log_enabled P (Some f)
    then out (os (log_hook P (Some f) msg s)) =
      out (os (log_pthread_once P s)) @ ''[hooklog] '' @ f @ '': '' @ msg
    else log_hook P (Some f) msg s = s"
proof -
  have "hook_prefix (Some f) = ''[hooklog] '' @ f @ '': ''"
    using assms(3) by (cases f) (simp_all add: hook_prefix_def)
  then show ?thesis
    using log_write_output(1) [OF assms(1,2)] assms(4-6)
    by (simp add: log_hook_def log_hook_bytes_cut cut_message_def log_buf_size_def)
qed

end
