(* ===== verification/Backing.thy ===== *)
theory Backing
  imports Logging
begin

text \<open>
  The kernel objects behind what the overlay serves from the image (\<open>src/utils.c\<close>): an
  anonymous descriptor for a file and an already removed directory for a directory stream,
  so that the application holds a descriptor or a stream that the kernel knows.
\<close>

definition ulong_succ :: "config \<Rightarrow> nat \<Rightarrow> nat" where
  "ulong_succ c n = (n + 1) mod 2 ^ (8 * sizeof_long c)"

definition backing_dir_path :: "('w, 'h) env \<Rightarrow> nat \<Rightarrow> string" where
  "backing_dir_path P n =
     take 127 (''/tmp/hooksqfs-dir-'' @ show_int (libc_getpid (libc P)) @ ''-'' @ show_nat n)"

text \<open>The loop of \<open>create_backing_dir\<close>, with the number of attempts left.\<close>

fun backing_dir_loop :: "('w, 'h) env \<Rightarrow> nat \<Rightarrow> ('w, 'h) proc \<Rightarrow> int option \<times> ('w, 'h) proc" where
  "backing_dir_loop P 0 s = (None, s\<lparr>errno := EEXIST\<rparr>)"
| "backing_dir_loop P (Suc i) s =
     (let num = dir_counter s;
          path = backing_dir_path P num;
          s1 = s\<lparr>dir_counter := ulong_succ (cfg P) num\<rparr>
      in case sys_call (libc_mkdir (libc P) path 0x1C0) s1 of
           (r, s2) \<Rightarrow>
             if r \<noteq> 0 then
               (if errno s2 = EEXIST then backing_dir_loop P i s2 else (None, s2))
             else
               (case sys_call (libc_opendir (libc P) (Some path)) s2 of
                  (dir, s3) \<Rightarrow>
                    let saved_errno = errno s3;
                        s4 = snd (sys_call (libc_rmdir (libc P) path) s3)
                    in case dir of
                         None \<Rightarrow> (None, s4\<lparr>errno := saved_errno\<rparr>)
                       | Some d \<Rightarrow> (Some d, s4)))"

definition create_backing_dir :: "('w, 'h) env \<Rightarrow> ('w, 'h) proc \<Rightarrow> int option \<times> ('w, 'h) proc" where
  "create_backing_dir P s = backing_dir_loop P 128 s"

definition create_memfd :: "('w, 'h) env \<Rightarrow> u32 \<Rightarrow> ('w, 'h) proc \<Rightarrow> int \<times> ('w, 'h) proc" where
  "create_memfd P flags s =
     (let memfd_flags = (if flags AND O_CLOEXEC \<noteq> 0 then MFD_CLOEXEC else 0)
      in sys_call (sys_memfd_create (libc P) ''hooksqfs'' memfd_flags) s)"

definition tmp_path :: "('w, 'h) env \<Rightarrow> nat \<Rightarrow> string" where
  "tmp_path P n =
     take 127 (''/tmp/hooksqfs-'' @ show_int (libc_getpid (libc P)) @ ''-'' @ show_nat n)"

fun tmp_fd_loop :: "('w, 'h) env \<Rightarrow> u32 \<Rightarrow> nat \<Rightarrow> ('w, 'h) proc \<Rightarrow> int \<times> ('w, 'h) proc" where
  "tmp_fd_loop P open_flags 0 s = (-1, s\<lparr>errno := EEXIST\<rparr>)"
| "tmp_fd_loop P open_flags (Suc i) s =
     (let num = tmp_counter s;
          path = tmp_path P num;
          s1 = s\<lparr>tmp_counter := ulong_succ (cfg P) num\<rparr>
      in case sys_call (sys_openat (libc P) path open_flags 0x180) s1 of
           (fd, s2) \<Rightarrow>
             if fd \<ge> 0 then (fd, snd (sys_call (sys_unlinkat (libc P) path) s2))
             else if errno s2 \<noteq> EEXIST then (-1, s2)
             else tmp_fd_loop P open_flags i s2)"

definition create_unlinked_tmp_fd :: "('w, 'h) env \<Rightarrow> u32 \<Rightarrow> ('w, 'h) proc \<Rightarrow> int \<times> ('w, 'h) proc" where
  "create_unlinked_tmp_fd P flags s =
     (let open_flags = O_RDWR OR O_CREAT OR O_EXCL;
          open_flags' = (if flags AND O_CLOEXEC \<noteq> 0 then open_flags OR O_CLOEXEC else open_flags)
      in tmp_fd_loop P open_flags' 128 s)"

definition create_backing_fd :: "('w, 'h) env \<Rightarrow> u32 \<Rightarrow> ('w, 'h) proc \<Rightarrow> int \<times> ('w, 'h) proc" where
  "create_backing_fd P flags s =
     (case create_memfd P flags s of
        (fd, s1) \<Rightarrow>
          if fd \<ge> 0 then (fd, s1)
          else if errno s1 \<noteq> ENOSYS \<and> errno s1 \<noteq> EINVAL then (-1, s1)
          else create_unlinked_tmp_fd P flags s1)"

section \<open>Frames\<close>

lemma core_eq_counters [simp]:
  "core_eq (s\<lparr>dir_counter := n\<rparr>) t = core_eq s t" "core_eq (s\<lparr>tmp_counter := n\<rparr>) t = core_eq s t"
  "core_eq s (t\<lparr>errno := e\<rparr>) = core_eq s t" "core_eq (s\<lparr>errno := e\<rparr>) t = core_eq s t"
  by (simp_all add: core_eq_def)

lemma backing_dir_loop_core: "core_eq s (snd (backing_dir_loop P i s))"
proof (induction i arbitrary: s)
  case (Suc i)
  note Suc [unfolded core_eq_def, simp]
  show ?case
    by (simp add: core_eq_def Let_def split_beta split: option.split)
qed simp

lemma tmp_fd_loop_core: "core_eq s (snd (tmp_fd_loop P open_flags i s))"
proof (induction i arbitrary: s)
  case (Suc i)
  note Suc [unfolded core_eq_def, simp]
  show ?case
    by (simp add: core_eq_def Let_def split_beta)
qed simp

interpretation create_backing_dir: quiet "\<lambda>s. snd (create_backing_dir P s)" for P
  by unfold_locales (simp add: create_backing_dir_def backing_dir_loop_core)

lemma create_backing_fd_core: "core_eq s (snd (create_backing_fd P flags s))"
proof -
  obtain fd t where m: "create_memfd P flags s = (fd, t)" by (cases "create_memfd P flags s")
  then have "core_eq s t"
    by (auto simp: create_memfd_def Let_def dest: sys_call_core)
  with m show ?thesis
    using core_eq_trans [OF _ tmp_fd_loop_core, of s t]
    by (simp add: create_backing_fd_def create_unlinked_tmp_fd_def Let_def)
qed

interpretation create_backing_fd: quiet "\<lambda>s. snd (create_backing_fd P flags s)" for P flags
  by unfold_locales (rule create_backing_fd_core)

lemma backing_dir_loop_trapped: "trapped (snd (backing_dir_loop P i s)) = trapped s"
  by (induction i arbitrary: s)
    (auto simp: Let_def sys_call_def split: prod.split option.split)

lemma tmp_fd_loop_trapped: "trapped (snd (tmp_fd_loop P open_flags i s)) = trapped s"
  by (induction i arbitrary: s) (auto simp: Let_def sys_call_def split: prod.split)

lemma create_backing_trapped [simp]:
  "trapped (snd (create_backing_dir P s)) = trapped s"
  "trapped (snd (create_backing_fd P flags s)) = trapped s"
  by (auto simp: create_backing_dir_def backing_dir_loop_trapped create_backing_fd_def
      create_unlinked_tmp_fd_def Let_def tmp_fd_loop_trapped create_memfd_def
      split: prod.split dest: sys_call_trapped)

lemma backing_fd_result: "create_backing_fd P flags s = (fd, t) \<Longrightarrow> fd < 0 \<Longrightarrow> fd = -1"
proof -
  have "fst (tmp_fd_loop P o_flags i u) < 0 \<Longrightarrow> fst (tmp_fd_loop P o_flags i u) = -1" for o_flags i u
    by (induction i arbitrary: u) (auto simp: Let_def split: prod.splits if_splits)
  then show "create_backing_fd P flags s = (fd, t) \<Longrightarrow> fd < 0 \<Longrightarrow> fd = -1"
    by (auto simp: create_backing_fd_def create_unlinked_tmp_fd_def Let_def split: prod.splits if_splits)
       (metis fst_conv)+
qed

section \<open>Fresh handles\<close>

lemma tmp_fd_loop_fresh:
  assumes K: "kernel_ok (libc P) H budget"
  shows "calm H s (snd (tmp_fd_loop P o_flags i s)) \<and>
    (\<forall>h. new_fd (fst (tmp_fd_loop P o_flags i s)) = Some h \<longrightarrow>
       h \<notin> H (os s) \<and> h \<in> H (os (snd (tmp_fd_loop P o_flags i s))))"
proof (induction i arbitrary: s)
  case (Suc i)
  define s1 where "s1 = s\<lparr>tmp_counter := ulong_succ (cfg P) (tmp_counter s)\<rparr>"
  define path where "path = tmp_path P (tmp_counter s)"
  obtain fd s2 where call: "sys_call (sys_openat (libc P) path o_flags 0x180) s1 = (fd, s2)"
    by (cases "sys_call (sys_openat (libc P) path o_flags 0x180) s1")
  have s1: "os s1 = os s" "trapped s1 = trapped s" by (simp_all add: s1_def)
  have c2: "calm H s s2"
    using sys_call_calm [OF kernel_keeps(14) [OF K], of s1 path o_flags "0x180"] call s1 by (simp add: calm_def)
  have fresh: "h \<notin> H (os s)" "h \<in> H (os s2)" if "new_fd fd = Some h" for h
    using opens_fresh [OF kernel_okD(4) [OF K], of path o_flags "0x180" s1] that call s1 by simp_all
  have c3: "calm H s2 (snd (sys_call (sys_unlinkat (libc P) path) s2))"
    using kernel_keeps(8) [OF K] by blast
  have "tmp_fd_loop P o_flags (Suc i) s =
      (if fd \<ge> 0 then (fd, snd (sys_call (sys_unlinkat (libc P) path) s2))
       else if errno s2 \<noteq> EEXIST then (-1, s2) else tmp_fd_loop P o_flags i s2)"
    by (simp add: Let_def call s1_def [symmetric] path_def [symmetric])
  then show ?case
    using c2 c3 Suc [of s2] fresh by (auto simp: calm_def new_fd_def)
qed (simp add: calm_def new_fd_def)

lemma create_backing_fd_fresh:
  assumes K: "kernel_ok (libc P) H budget" and eq: "create_backing_fd P flags s = (fd, t)"
  shows "calm H s t" and "0 \<le> fd \<Longrightarrow> Descriptor fd \<notin> H (os s) \<and> Descriptor fd \<in> H (os t)"
proof -
  obtain m s1 where call: "create_memfd P flags s = (m, s1)" by (cases "create_memfd P flags s")
  then have c1: "calm H s s1"
    using sys_call_calm [OF kernel_keeps(13) [OF K]] by (metis create_memfd_def snd_conv)
  have fresh: "h \<notin> H (os s)" "h \<in> H (os s1)" if "new_fd m = Some h" for h
    using opens_fresh [OF kernel_okD(3) [OF K]] that call by (metis create_memfd_def fst_conv snd_conv)+
  have "calm H s t \<and> (\<forall>h. new_fd fd = Some h \<longrightarrow> h \<notin> H (os s) \<and> h \<in> H (os t))"
    using eq call c1 fresh tmp_fd_loop_fresh [OF K, of s1]
    by (auto simp: create_backing_fd_def create_unlinked_tmp_fd_def Let_def calm_def new_fd_def
        split: if_split_asm) (metis fst_conv snd_conv subsetD)+
  then show "calm H s t" and "0 \<le> fd \<Longrightarrow> Descriptor fd \<notin> H (os s) \<and> Descriptor fd \<in> H (os t)"
    by (simp_all add: new_fd_def)
qed

lemma backing_dir_loop_fresh:
  assumes K: "kernel_ok (libc P) H budget"
  shows "calm H s (snd (backing_dir_loop P i s)) \<and>
    (\<forall>d. fst (backing_dir_loop P i s) = Some d \<longrightarrow>
       Stream d \<notin> H (os s) \<and> Stream d \<in> H (os (snd (backing_dir_loop P i s))))"
proof (induction i arbitrary: s)
  case (Suc i)
  define s1 where "s1 = s\<lparr>dir_counter := ulong_succ (cfg P) (dir_counter s)\<rparr>"
  define path where "path = backing_dir_path P (dir_counter s)"
  obtain r s2 where mk: "sys_call (libc_mkdir (libc P) path 0x1C0) s1 = (r, s2)"
    by (cases "sys_call (libc_mkdir (libc P) path 0x1C0) s1")
  obtain dir s3 where op: "sys_call (libc_opendir (libc P) (Some path)) s2 = (dir, s3)"
    by (cases "sys_call (libc_opendir (libc P) (Some path)) s2")
  define s4 where "s4 = snd (sys_call (libc_rmdir (libc P) path) s3)"
  have s1: "os s1 = os s" "trapped s1 = trapped s" by (simp_all add: s1_def)
  have c2: "calm H s s2"
    using sys_call_calm [OF kernel_keeps(10) [OF K], of s1 path "0x1C0"] mk s1 by (simp add: calm_def)
  have c3: "calm H s2 s3"
    using sys_call_calm [OF kernel_keeps(15) [OF K], of s2 "Some path"] op by simp
  have c4: "calm H s3 s4"
    unfolding s4_def using kernel_keeps(11) [OF K] by blast
  have fresh: "Stream d \<notin> H (os s2)" "Stream d \<in> H (os s3)" if "dir = Some d" for d
    using opens_fresh [OF kernel_okD(5) [OF K], of "Some path" s2] that op by simp_all
  have "backing_dir_loop P (Suc i) s =
      (if r \<noteq> 0 then (if errno s2 = EEXIST then backing_dir_loop P i s2 else (None, s2))
       else (case dir of None \<Rightarrow> (None, s4\<lparr>errno := errno s3\<rparr>) | Some d \<Rightarrow> (Some d, s4)))"
    by (simp add: Let_def mk op s4_def s1_def [symmetric] path_def [symmetric] split: option.split)
  then show ?case
    using c2 c3 c4 Suc [of s2] fresh by (auto simp: calm_def split: option.splits)
qed (simp add: calm_def)

lemma create_backing_dir_fresh:
  assumes "kernel_ok (libc P) H budget" and "create_backing_dir P s = (dir, t)"
  shows "calm H s t" and "dir = Some d \<Longrightarrow> Stream d \<notin> H (os s) \<and> Stream d \<in> H (os t)"
  using backing_dir_loop_fresh [OF assms(1), of s 128] assms(2) by (simp_all add: create_backing_dir_def)

section \<open>Properties of the backing objects\<close>

text \<open>
  A backing descriptor is always a new one: when \<open>create_backing_fd\<close> succeeds, by
  \<open>memfd_create\<close> or by the fallback, its result was not open before and is open now; when it
  fails the result is -1; no other descriptor or stream is closed on the way.
\<close>

lemma backing_fd_is_fresh:
  assumes "kernel_ok (libc P) H budget" and "create_backing_fd P flags s = (fd, t)"
  shows "H (os s) \<subseteq> H (os t) \<and>
    (if fd < 0 then fd = -1 else Descriptor fd \<notin> H (os s) \<and> Descriptor fd \<in> H (os t))"
  using create_backing_fd_fresh [OF assms] backing_fd_result [OF assms(2)]
  by (simp add: calm_def)









end
