(* ===== verification/Inode.thy ===== *)
theory Inode
  imports Sample
begin

text \<open>
  The pure part of \<open>src/sqfs_mgr.c\<close>: the translation of libsquashfs errors, what an inode of
  the image says about mode, links and size, the \<open>struct stat\<close> made from it, the access test
  on its permission bits, and the arithmetic of seeking, on machine words.
\<close>

section \<open>Errors\<close>

definition errno_from_sqfs :: "'w libsquashfs \<Rightarrow> int \<Rightarrow> int" where
  "errno_from_sqfs Q ret =
     (case sqfs_error_of Q ret of
        Some SQFS_ERROR_ALLOC \<Rightarrow> ENOMEM
      | Some SQFS_ERROR_NO_ENTRY \<Rightarrow> ENOENT
      | Some SQFS_ERROR_NOT_DIR \<Rightarrow> ENOTDIR
      | Some SQFS_ERROR_NOT_FILE \<Rightarrow> EISDIR
      | Some SQFS_ERROR_UNSUPPORTED \<Rightarrow> ENOTSUP
      | Some SQFS_ERROR_ARG_INVALID \<Rightarrow> EINVAL
      | _ \<Rightarrow> EIO)"

definition sqfs_error_string :: "'w libsquashfs \<Rightarrow> int \<Rightarrow> string" where
  "sqfs_error_string Q err =
     (if err = 0 then ''success''
      else case sqfs_error_of Q err of
        Some SQFS_ERROR_ALLOC \<Rightarrow> ''allocation failed''
      | Some SQFS_ERROR_IO \<Rightarrow> ''I/O error''
      | Some SQFS_ERROR_COMPRESSOR \<Rightarrow> ''compressor error''
      | Some SQFS_ERROR_INTERNAL \<Rightarrow> ''internal error''
      | Some SQFS_ERROR_CORRUPTED \<Rightarrow> ''corrupted filesystem''
      | Some SQFS_ERROR_UNSUPPORTED \<Rightarrow> ''unsupported feature''
      | Some SQFS_ERROR_OVERFLOW \<Rightarrow> ''numeric overflow''
      | Some SQFS_ERROR_OUT_OF_BOUNDS \<Rightarrow> ''out-of-bounds read''
      | Some SFQS_ERROR_SUPER_MAGIC \<Rightarrow> ''bad superblock magic''
      | Some SFQS_ERROR_SUPER_VERSION \<Rightarrow> ''unsupported superblock version''
      | Some SQFS_ERROR_SUPER_BLOCK_SIZE \<Rightarrow> ''invalid superblock block size''
      | Some SQFS_ERROR_NOT_DIR \<Rightarrow> ''not a directory''
      | Some SQFS_ERROR_NO_ENTRY \<Rightarrow> ''no such entry''
      | Some SQFS_ERROR_LINK_LOOP \<Rightarrow> ''hard link loop''
      | Some SQFS_ERROR_NOT_FILE \<Rightarrow> ''not a regular file''
      | Some SQFS_ERROR_ARG_INVALID \<Rightarrow> ''invalid argument''
      | Some SQFS_ERROR_SEQUENCE \<Rightarrow> ''invalid operation sequence''
      | None \<Rightarrow> ''unknown libsquashfs error'')"

definition sqfs_compressor_name_readable :: "'w libsquashfs \<Rightarrow> u16 \<Rightarrow> string" where
  "sqfs_compressor_name_readable Q i =
     (case sqfs_compressor_name_from_id Q i of None \<Rightarrow> ''unknown'' | Some name \<Rightarrow> name)"

section \<open>Inodes\<close>

definition sqfs_inode_mode :: "sqfs_inode \<Rightarrow> u32" where
  "sqfs_inode_mode inode =
     (let mode = ucast (base_mode inode) AND 0xFFF :: u32
      in case base_type inode of
           SQFS_INODE_DIR \<Rightarrow> mode OR S_IFDIR
         | SQFS_INODE_EXT_DIR \<Rightarrow> mode OR S_IFDIR
         | SQFS_INODE_FILE \<Rightarrow> mode OR S_IFREG
         | SQFS_INODE_EXT_FILE \<Rightarrow> mode OR S_IFREG
         | SQFS_INODE_SLINK \<Rightarrow> mode OR S_IFLNK
         | SQFS_INODE_EXT_SLINK \<Rightarrow> mode OR S_IFLNK
         | SQFS_INODE_BDEV \<Rightarrow> mode OR S_IFBLK
         | SQFS_INODE_EXT_BDEV \<Rightarrow> mode OR S_IFBLK
         | SQFS_INODE_CDEV \<Rightarrow> mode OR S_IFCHR
         | SQFS_INODE_EXT_CDEV \<Rightarrow> mode OR S_IFCHR
         | SQFS_INODE_FIFO \<Rightarrow> mode OR S_IFIFO
         | SQFS_INODE_EXT_FIFO \<Rightarrow> mode OR S_IFIFO
         | SQFS_INODE_SOCKET \<Rightarrow> mode OR S_IFSOCK
         | SQFS_INODE_EXT_SOCKET \<Rightarrow> mode OR S_IFSOCK
         | SQFS_INODE_OTHER \<Rightarrow> mode)"

definition sqfs_inode_nlink :: "sqfs_inode \<Rightarrow> nat" where
  "sqfs_inode_nlink inode =
     (case base_type inode of
        SQFS_INODE_DIR \<Rightarrow> unat (dir_nlink inode)
      | SQFS_INODE_EXT_DIR \<Rightarrow> unat (dir_ext_nlink inode)
      | SQFS_INODE_EXT_FILE \<Rightarrow> unat (file_ext_nlink inode)
      | SQFS_INODE_SLINK \<Rightarrow> unat (slink_nlink inode)
      | SQFS_INODE_EXT_SLINK \<Rightarrow> unat (slink_ext_nlink inode)
      | SQFS_INODE_BDEV \<Rightarrow> unat (dev_nlink inode)
      | SQFS_INODE_CDEV \<Rightarrow> unat (dev_nlink inode)
      | SQFS_INODE_EXT_BDEV \<Rightarrow> unat (dev_ext_nlink inode)
      | SQFS_INODE_EXT_CDEV \<Rightarrow> unat (dev_ext_nlink inode)
      | SQFS_INODE_FIFO \<Rightarrow> unat (ipc_nlink inode)
      | SQFS_INODE_SOCKET \<Rightarrow> unat (ipc_nlink inode)
      | SQFS_INODE_EXT_FIFO \<Rightarrow> unat (ipc_ext_nlink inode)
      | SQFS_INODE_EXT_SOCKET \<Rightarrow> unat (ipc_ext_nlink inode)
      | _ \<Rightarrow> 1)"

definition sqfs_inode_size :: "'w libsquashfs \<Rightarrow> sqfs_inode \<Rightarrow> u64" where
  "sqfs_inode_size Q inode =
     (let file_size = (case sqfs_inode_get_file_size Q inode of
                         (ret, sz) \<Rightarrow> if ret \<noteq> 0 then 0 else sz)
      in case base_type inode of
           SQFS_INODE_FILE \<Rightarrow> file_size
         | SQFS_INODE_EXT_FILE \<Rightarrow> file_size
         | SQFS_INODE_DIR \<Rightarrow> dir_size inode
         | SQFS_INODE_EXT_DIR \<Rightarrow> dir_ext_size inode
         | SQFS_INODE_SLINK \<Rightarrow> slink_target_size inode
         | SQFS_INODE_EXT_SLINK \<Rightarrow> slink_ext_target_size inode
         | _ \<Rightarrow> 0)"

definition sqfs_fill_stat :: "('w, 'h) env \<Rightarrow> sqfs_super \<Rightarrow> sqfs_inode \<Rightarrow> stat" where
  "sqfs_fill_stat P super inode =
     (let sz = sqfs_inode_size (lib P) inode;
          mtime = long_cast (cfg P) (uint (base_mod_time inode))
      in \<lparr>st_ino = unat (base_inode_number inode),
          st_mode = sqfs_inode_mode inode,
          st_nlink = sqfs_inode_nlink inode,
          st_uid = 0,
          st_gid = 0,
          st_size = long_cast (cfg P) (uint sz),
          st_blksize = unat (block_size super),
          st_blocks = long_cast (cfg P) (uint ((sz + 511) div 512)),
          st_atim = mtime,
          st_mtim = mtime,
          st_ctim = mtime\<rparr>)"

definition is_dir_inode :: "sqfs_inode \<Rightarrow> bool" where
  "is_dir_inode inode = (base_type inode = SQFS_INODE_DIR \<or> base_type inode = SQFS_INODE_EXT_DIR)"

definition is_file_inode :: "sqfs_inode \<Rightarrow> bool" where
  "is_file_inode inode = (base_type inode = SQFS_INODE_FILE \<or> base_type inode = SQFS_INODE_EXT_FILE)"

text \<open>
  The decision of \<open>sqfs_access\<close> on the mode of an inode of the image: 0, or the error number.
\<close>

definition access_decision :: "u32 \<Rightarrow> u32 \<Rightarrow> int" where
  "access_decision mode m =
     (let can_read = (m AND 0x124 \<noteq> 0);
          can_exec = (m AND 0x49 \<noteq> 0)
      in if mode AND W_OK \<noteq> 0 then EROFS
         else if mode AND R_OK \<noteq> 0 \<and> \<not> can_read then EACCES
         else if mode AND X_OK \<noteq> 0 \<and> \<not> can_exec then EACCES
         else 0)"

section \<open>Open flags and seeking\<close>

definition open_flags_need_mode :: "u32 \<Rightarrow> bool" where
  "open_flags_need_mode flags =
     (if flags AND O_TMPFILE = O_TMPFILE then True else flags AND O_CREAT \<noteq> 0)"

definition max_signed_value_for_size :: "nat \<Rightarrow> u64" where
  "max_signed_value_for_size n =
     (if n \<ge> 8 then 0x7FFFFFFFFFFFFFFF else push_bit (n * 8 - 1) 1 - 1)"

text \<open>
  \<open>offset\<close> is an \<open>off64_t\<close>: a 64-bit word read as a signed number. The result is the error
  number, or the value stored through \<open>out\<close>.
\<close>

definition sqfs_seek_add :: "u64 \<Rightarrow> u64 \<Rightarrow> int + u64" where
  "sqfs_seek_add base offset =
     (if sint offset < 0 then
        (let distance = - (offset + 1) + 1
         in if distance > base then Inl EINVAL else Inr (base - distance))
      else if 0xFFFFFFFFFFFFFFFF - base < offset then Inl EOVERFLOW
      else Inr (base + offset))"

definition sqfs_seek_calculate :: "'w libsquashfs \<Rightarrow> FDMapEntry \<Rightarrow> u64 \<Rightarrow> int \<Rightarrow> int + u64" where
  "sqfs_seek_calculate Q fd_record offset whence =
     (let sz = sqfs_inode_size Q (fd_inode fd_record)
      in if whence = SEEK_SET then sqfs_seek_add 0 offset
         else if whence = SEEK_CUR then sqfs_seek_add (fd_offset fd_record) offset
         else if whence = SEEK_END then sqfs_seek_add sz offset
         else if whence = SEEK_DATA then
           (if sint offset < 0 then Inl EINVAL
            else if offset \<ge> sz then Inl ENXIO
            else Inr offset)
         else if whence = SEEK_HOLE then
           (if sint offset < 0 then Inl EINVAL
            else if offset > sz then Inl ENXIO
            else Inr sz)
         else Inl EINVAL)"

section \<open>Abstract specification of seeking\<close>

text \<open>
  What \<open>lseek(2)\<close> promises, on unbounded integers: the target position, or an error when it
  is negative or too large for the type.
\<close>

definition seek_spec :: "int \<Rightarrow> int \<Rightarrow> int \<Rightarrow> int \<Rightarrow> int \<Rightarrow> int + int" where
  "seek_spec limit pos sz offset whence =
     (let target = (if whence = SEEK_SET then Some offset
                    else if whence = SEEK_CUR then Some (pos + offset)
                    else if whence = SEEK_END then Some (sz + offset) else None)
      in case target of
           Some n \<Rightarrow> if n < 0 then Inl EINVAL else if n > limit then Inl EOVERFLOW else Inr n
         | None \<Rightarrow>
             if whence = SEEK_DATA then
               (if offset < 0 then Inl EINVAL else if offset \<ge> sz then Inl ENXIO
                else if offset > limit then Inl EOVERFLOW else Inr offset)
             else if whence = SEEK_HOLE then
               (if offset < 0 then Inl EINVAL else if offset > sz then Inl ENXIO
                else if sz > limit then Inl EOVERFLOW else Inr sz)
             else Inl EINVAL)"

lemma uint64_bounds: "0 \<le> uint (x :: u64)" "uint x < 2 ^ 64"
  using uint_lt2p [of x] by simp_all

lemma sint64: "sint (x :: u64) = (if uint x < 2 ^ 63 then uint x else uint x - 2 ^ 64)"
proof -
  have "sint x = (uint x + 2 ^ 63) mod 2 ^ 64 - 2 ^ 63"
    by (simp add: sint_uint signed_take_bit_eq_take_bit_shift take_bit_eq_mod)
  moreover have "(uint x + 2 ^ 63) mod 2 ^ 64 =
      (if uint x < 2 ^ 63 then uint x + 2 ^ 63 else uint x + 2 ^ 63 - 2 ^ 64)"
    using uint64_bounds [of x] by (auto simp: mod_pos_pos_trivial intro: mod_pos_geq [THEN trans])
  ultimately show ?thesis by simp
qed

lemma uint_minus64: "x \<noteq> 0 \<Longrightarrow> uint (- x :: u64) = 2 ^ 64 - uint x"
proof -
  assume "x \<noteq> 0"
  then have "0 < uint x" using uint64_bounds(1) [of x] by (metis le_less uint_0_iff)
  then show ?thesis
    using uint64_bounds(2) [of x] by (simp add: uint_word_ariths zmod_zminus1_eq_if)
qed

text \<open>
  The case distinction of the source, with its negation that avoids \<open>-INT64_MIN\<close>, computes
  \<open>base + offset\<close> exactly.
\<close>

lemma seek_add_exact:
  "sqfs_seek_add base offset =
     (let n = uint base + sint offset
      in if n < 0 then Inl EINVAL else if n \<ge> 2 ^ 64 then Inl EOVERFLOW else Inr (word_of_int n))"
proof (cases "sint offset < 0")
  case True
  then have big: "2 ^ 63 \<le> uint offset" and s: "sint offset = uint offset - 2 ^ 64"
    by (auto simp: sint64 split: if_split_asm)
  then have "offset \<noteq> 0" by auto
  then have "- offset > base \<longleftrightarrow> uint base + sint offset < 0"
    by (auto simp: word_less_def uint_minus64 s)
  moreover have "uint base + sint offset < 2 ^ 64"
    using uint64_bounds [of base] uint64_bounds [of offset] s by simp
  moreover have "base + offset = word_of_int (uint base + sint offset)"
    by simp
  ultimately show ?thesis
    using True by (simp add: sqfs_seek_add_def Let_def)
next
  case False
  then have s: "sint offset = uint offset"
    using uint64_bounds [of offset] by (auto simp: sint64 split: if_split_asm)
  have "uint (0xFFFFFFFFFFFFFFFF - base :: u64) = 2 ^ 64 - 1 - uint base"
    using uint64_bounds [of base] by (subst uint_sub_lem [THEN iffD1]) (simp_all add: word_le_def)
  then have "0xFFFFFFFFFFFFFFFF - base < offset \<longleftrightarrow> uint base + sint offset \<ge> 2 ^ 64"
    by (auto simp: word_less_def s)
  moreover have "base + offset = word_of_int (uint base + sint offset)"
    by simp
  moreover have "\<not> uint base + sint offset < 0"
    using uint64_bounds(1) [of base] False by linarith
  ultimately show ?thesis
    using False by (simp add: sqfs_seek_add_def Let_def)
qed

text \<open>The computation of \<open>sqfs_lseek_mapped\<close>: the target, then the bound of the return type.\<close>

definition seek_target :: "'w libsquashfs \<Rightarrow> FDMapEntry \<Rightarrow> u64 \<Rightarrow> int \<Rightarrow> u64 \<Rightarrow> int + u64" where
  "seek_target Q fd_record offset whence max_return =
     (case sqfs_seek_calculate Q fd_record offset whence of
        Inl err \<Rightarrow> Inl err
      | Inr new_offset \<Rightarrow> if new_offset > max_return then Inl EOVERFLOW else Inr new_offset)"

lemma uint_add_sint:
  fixes base offset :: u64
  assumes "0 \<le> uint base + sint offset" and "uint base + sint offset < 2 ^ 64"
  shows "uint (base + offset) = uint base + sint offset"
proof -
  have "uint (base + offset) = uint (word_of_int (uint base + sint offset) :: u64)" by simp
  also have "\<dots> = uint base + sint offset"
    using assms by (simp only: uint_word_of_int) simp
  finally show ?thesis .
qed

lemma seek_add_bounded:
  "map_sum id uint (case sqfs_seek_add base offset of
       Inl err \<Rightarrow> Inl err | Inr n \<Rightarrow> if n > max_return then Inl EOVERFLOW else Inr n) =
     (let n = uint base + sint offset
      in if n < 0 then Inl EINVAL else if n > uint max_return then Inl EOVERFLOW else Inr n)"
  using uint64_bounds [of max_return] uint_add_sint [of base offset]
  by (auto simp: seek_add_exact Let_def word_less_def)

lemma word_order_sint:
  assumes "\<not> sint offset < 0"
  shows "(offset :: u64) \<ge> x \<longleftrightarrow> sint offset \<ge> uint x" "offset > x \<longleftrightarrow> sint offset > uint x"
    "uint offset = sint offset"
  using assms uint64_bounds [of offset] by (auto simp: word_le_def word_less_def sint64 split: if_split_asm)

lemma sint_of_int64: "- (2 ^ 63) \<le> x \<Longrightarrow> x < 2 ^ 63 \<Longrightarrow> sint (word_of_int x :: u64) = x"
  by (simp add: sint_sbintrunc' signed_take_bit_int_eq_self)

lemma seek_target_spec:
  "map_sum id uint (seek_target Q e offset whence max_return) =
     seek_spec (uint max_return) (uint (fd_offset e)) (uint (sqfs_inode_size Q (fd_inode e)))
       (sint offset) whence"
proof -
  let ?sz = "sqfs_inode_size Q (fd_inode e)"
  note seek = seek_target_def sqfs_seek_calculate_def seek_spec_def Let_def
  consider (set) "whence = SEEK_SET" | (cur) "whence = SEEK_CUR" | (fin) "whence = SEEK_END"
    | (data) "whence = SEEK_DATA" | (hole) "whence = SEEK_HOLE"
    | (bad) "whence \<notin> {SEEK_SET, SEEK_CUR, SEEK_END, SEEK_DATA, SEEK_HOLE}" by auto
  then show ?thesis
  proof cases
    case set
    then show ?thesis using seek_add_bounded [where base = 0] by (simp add: seek)
  next
    case cur
    then show ?thesis using seek_add_bounded [where base = "fd_offset e"] by (simp add: seek)
  next
    case fin
    then show ?thesis using seek_add_bounded [where base = ?sz] by (simp add: seek)
  next
    case data
    then show ?thesis
      using word_order_sint [of offset]
      by (auto simp: seek)
  next
    case hole
    then show ?thesis
      using word_order_sint [of offset]
      by (auto simp: seek word_less_def)
  next
    case bad
    then show ?thesis
      by (auto simp: seek)
  qed
qed

section \<open>The type bits of a mode\<close>

text \<open>
  The permission bits of the inode survive in the low twelve bits, and the type bits are those
  of the inode's type, so \<open>S_ISDIR\<close> and its relatives give the right answer.
\<close>

definition type_bits :: "sqfs_inode_type \<Rightarrow> u32" where
  "type_bits t =
     (case t of
        SQFS_INODE_DIR \<Rightarrow> S_IFDIR | SQFS_INODE_EXT_DIR \<Rightarrow> S_IFDIR
      | SQFS_INODE_FILE \<Rightarrow> S_IFREG | SQFS_INODE_EXT_FILE \<Rightarrow> S_IFREG
      | SQFS_INODE_SLINK \<Rightarrow> S_IFLNK | SQFS_INODE_EXT_SLINK \<Rightarrow> S_IFLNK
      | SQFS_INODE_BDEV \<Rightarrow> S_IFBLK | SQFS_INODE_EXT_BDEV \<Rightarrow> S_IFBLK
      | SQFS_INODE_CDEV \<Rightarrow> S_IFCHR | SQFS_INODE_EXT_CDEV \<Rightarrow> S_IFCHR
      | SQFS_INODE_FIFO \<Rightarrow> S_IFIFO | SQFS_INODE_EXT_FIFO \<Rightarrow> S_IFIFO
      | SQFS_INODE_SOCKET \<Rightarrow> S_IFSOCK | SQFS_INODE_EXT_SOCKET \<Rightarrow> S_IFSOCK
      | SQFS_INODE_OTHER \<Rightarrow> 0)"

lemma mode_parts:
  fixes m t :: u32
  assumes "m AND 0xF000 = 0" and "t AND 0xFFF = 0" and "t AND 0xF000 = t"
  shows "(m OR t) AND 0xF000 = t" "(m OR t) AND 0xFFF = m AND 0xFFF"
  using assms by (simp_all add: bit.conj_disj_distrib2)

lemma inode_mode_bits:
  "sqfs_inode_mode inode AND S_IFMT = type_bits (base_type inode)"
  "sqfs_inode_mode inode AND 0xFFF = ucast (base_mode inode) AND 0xFFF"
proof -
  let ?m = "ucast (base_mode inode) AND 0xFFF :: u32"
  have m: "?m AND 0xF000 = 0" "?m AND 0xFFF = ?m"
    by (simp_all add: and.assoc)
  have "sqfs_inode_mode inode = ?m OR type_bits (base_type inode)"
    by (simp add: sqfs_inode_mode_def type_bits_def Let_def split: sqfs_inode_type.split)
  moreover have "type_bits t AND 0xFFF = 0" "type_bits t AND 0xF000 = type_bits t" for t
    by (simp_all add: type_bits_def split: sqfs_inode_type.split)
  ultimately show "sqfs_inode_mode inode AND S_IFMT = type_bits (base_type inode)"
    "sqfs_inode_mode inode AND 0xFFF = ucast (base_mode inode) AND 0xFFF"
    using mode_parts [OF m(1)] m(2) by simp_all
qed

lemma inode_mode_permission:
  "sqfs_inode_mode inode AND 0x124 = 0 \<longleftrightarrow> base_mode inode AND 0x124 = 0"
  "sqfs_inode_mode inode AND 0x49 = 0 \<longleftrightarrow> base_mode inode AND 0x49 = 0"
proof -
  let ?m = "sqfs_inode_mode inode"
  have low: "?m AND b = ucast (base_mode inode AND ucast b)" if "b AND 0xFFF = b" "ucast (ucast b :: u16) = b" for b :: u32
  proof -
    have "?m AND b = (?m AND 0xFFF) AND b" using that(1) by (metis and.assoc and.commute)
    also have "\<dots> = (ucast (base_mode inode) AND 0xFFF) AND b" by (simp add: inode_mode_bits(2))
    also have "\<dots> = ucast (base_mode inode) AND b" using that(1) by (metis and.assoc and.commute)
    also have "\<dots> = ucast (base_mode inode AND ucast b)" using that(2) by (metis unsigned_and_eq)
    finally show ?thesis .
  qed
  have zero: "ucast (w :: u16) = (0 :: u32) \<longleftrightarrow> w = 0" for w
    by transfer simp
  show "?m AND 0x124 = 0 \<longleftrightarrow> base_mode inode AND 0x124 = 0" "?m AND 0x49 = 0 \<longleftrightarrow> base_mode inode AND 0x49 = 0"
    using low [of "0x124"] low [of "0x49"] zero by simp_all
qed

section \<open>Properties of the pure part\<close>

text \<open>
  C27. \<open>sqfs_seek_add\<close> adds a signed offset to an unsigned base exactly: the result is their sum
  when that is a 64-bit unsigned number, \<open>EINVAL\<close> when it is negative and \<open>EOVERFLOW\<close> when it is
  too large, for every base and every offset, \<open>INT64_MIN\<close> included.
\<close>

theorem seek_add_correct:
  "sqfs_seek_add base offset =
     (let n = uint base + sint offset
      in if n < 0 then Inl EINVAL else if n \<ge> 2 ^ 64 then Inl EOVERFLOW else Inr (word_of_int n))"
  by (rule seek_add_exact)

lemma max_signed_uint:
  assumes "0 < n"
  shows "uint (max_signed_value_for_size n) = 2 ^ (8 * min n 8 - 1) - 1"
proof (cases "n \<ge> 8")
  case True
  then show ?thesis by (simp add: max_signed_value_for_size_def min_def)
next
  case False
  with assms have "n \<in> {1, 2, 3, 4, 5, 6, 7}" by auto
  then show ?thesis by (auto simp: max_signed_value_for_size_def)
qed

text \<open>
  \<open>max_signed_value_for_size\<close> is the largest value of a signed integer of that many bytes.
\<close>

lemma max_signed_value_correct:
  assumes "0 < n"
  shows "uint (max_signed_value_for_size n) = 2 ^ (8 * min n 8 - 1) - 1"
  using assms by (rule max_signed_uint)

text \<open>
  The mode of a \<open>struct stat\<close> made from an inode has the file type of the inode's type and
  exactly the inode's twelve permission bits.
\<close>

lemma stat_mode_correct:
  "st_mode (sqfs_fill_stat P super inode) AND S_IFMT = type_bits (base_type inode) \<and>
   st_mode (sqfs_fill_stat P super inode) AND 0xFFF = ucast (base_mode inode) AND 0xFFF"
  using inode_mode_bits [of inode] by (simp add: sqfs_fill_stat_def Let_def)

lemma long_cast_eq_iff:
  assumes "sizeof_long c = 4 \<or> sizeof_long c = 8" and "0 \<le> x"
  shows "long_cast c x = x \<longleftrightarrow> x < 2 ^ (8 * sizeof_long c - 1)"
proof
  assume "long_cast c x = x"
  moreover have "long_cast c x < 2 ^ (8 * sizeof_long c - 1)"
    by (simp add: long_cast_def signed_take_bit_int_less_exp)
  ultimately show "x < 2 ^ (8 * sizeof_long c - 1)" by simp
next
  assume "x < 2 ^ (8 * sizeof_long c - 1)"
  then show "long_cast c x = x" using assms by (intro long_cast_id) auto
qed

text \<open>
  C28. The size in a \<open>struct stat\<close> is the size of the inode exactly when that fits the \<open>off_t\<close> of
  the build: always for sizes below 2^63 on a 64-bit build, but a 32-bit build reports a wrong
  size, and no \<open>EOVERFLOW\<close>, for every file of 2 GiB or more.
\<close>

theorem stat_size_exact_iff:
  assumes "sizeof_long (cfg P) = 4 \<or> sizeof_long (cfg P) = 8"
  shows "st_size (sqfs_fill_stat P super inode) = uint (sqfs_inode_size (lib P) inode) \<longleftrightarrow>
    uint (sqfs_inode_size (lib P) inode) < 2 ^ (8 * sizeof_long (cfg P) - 1)"
  using long_cast_eq_iff [OF assms uint64_bounds(1)] by (simp add: sqfs_fill_stat_def Let_def)

theorem stat_size_exact_iff_witness:
  "st_size (sqfs_fill_stat sample_env sample_super sample_file) = uint (sqfs_inode_size (lib sample_env) sample_file) \<longleftrightarrow>
    uint (sqfs_inode_size (lib sample_env) sample_file) < 2 ^ (8 * sizeof_long (cfg sample_env) - 1)"
  by (rule stat_size_exact_iff) simp

end
