(* ===== verification/Path_Utils.thy ===== *)
theory Path_Utils
  imports Prelude
begin

text \<open>
  The path functions of \<open>src/utils.c\<close>: lexical normalisation into a bounded buffer,
  comparison of normalised paths, and the containment test that decides which paths the
  overlay serves. A buffer of the source is the string it holds; an out-of-bounds write to
  the array \<open>parts\<close> is \<^term>\<open>None\<close> of \<open>norm_loop\<close>, and a \<open>false\<close> return is
  \<^term>\<open>None\<close> of the functions that fill a buffer.
\<close>

section \<open>Definitions\<close>

text \<open>
  \<open>size_t\<close> subtraction wraps around, here at the 32 bits of the smaller ABI. No caller reaches
  the wrap: the string in the buffer is always shorter than the buffer (\<open>rebuild_bounded\<close>).
\<close>

definition size_sub :: "nat \<Rightarrow> nat \<Rightarrow> nat" where
  "size_sub a b = (if b \<le> a then a - b else 2 ^ 32 + a - b)"

definition append_str :: "string option \<Rightarrow> nat \<Rightarrow> string option \<Rightarrow> string option" where
  "append_str out out_size s =
     (case (out, s) of
        (Some out', Some s') \<Rightarrow>
          if out_size = 0 then None
          else let out_len = length out'; s_len = length s'
               in if s_len \<ge> size_sub out_size out_len then None
                  else Some (out' @ s')
      | _ \<Rightarrow> None)"

text \<open>
  \<open>strsep(&p, "/")\<close> of the C library: the token up to the next separator, and the rest
  behind it; \<open>p\<close> becomes \<open>NULL\<close> after the last token.
\<close>

definition strsep :: "string option \<Rightarrow> (string \<times> string option) option" where
  "strsep p =
     (case p of None \<Rightarrow> None
      | Some s \<Rightarrow> Some (takeWhile (\<lambda>c. c \<noteq> CHR ''/'') s,
          case dropWhile (\<lambda>c. c \<noteq> CHR ''/'') s of [] \<Rightarrow> None | _ # r \<Rightarrow> Some r))"

text \<open>What is left to scan, which every token shortens.\<close>

definition strsep_size :: "string option \<Rightarrow> nat" where
  "strsep_size p = (case p of None \<Rightarrow> 0 | Some s \<Rightarrow> Suc (length s))"

lemma strsep_shrinks: "strsep p = Some (token, p') \<Longrightarrow> strsep_size p' < strsep_size p"
proof -
  assume *: "strsep p = Some (token, p')"
  then obtain s where s: "p = Some s"
    by (auto simp: strsep_def split: option.splits)
  show ?thesis
  proof (cases "dropWhile (\<lambda>c. c \<noteq> CHR ''/'') s")
    case Nil
    with * s show ?thesis by (simp add: strsep_def strsep_size_def)
  next
    case (Cons x r)
    then have "Suc (length r) \<le> length s"
      using length_dropWhile_le [of "\<lambda>c. c \<noteq> CHR ''/''" s] by simp
    with * s Cons show ?thesis by (auto simp: strsep_def strsep_size_def)
  qed
qed

text \<open>\<open>parts[count++] = token\<close>, with the bound of the array \<open>parts[PATH_MAX / 2]\<close>.\<close>

definition push_part :: "string list \<Rightarrow> string \<Rightarrow> string list option" where
  "push_part parts token =
     (if length parts < PATH_MAX div 2 then Some (parts @ [token]) else None)"

definition norm_token :: "bool \<Rightarrow> string list \<Rightarrow> string \<Rightarrow> string list option" where
  "norm_token absolute parts token =
     (if token = [] \<or> token = ''.'' then Some parts
      else if token = ''..'' then
        (if length parts > 0 \<and> last parts \<noteq> ''..'' then Some (butlast parts)
         else if \<not> absolute then push_part parts token
         else Some parts)
      else push_part parts token)"

function norm_loop :: "bool \<Rightarrow> string option \<Rightarrow> string list \<Rightarrow> string list option" where
  "norm_loop absolute p parts =
     (case strsep p of
        None \<Rightarrow> Some parts
      | Some (token, p') \<Rightarrow>
          (case norm_token absolute parts token of
             None \<Rightarrow> None
           | Some parts' \<Rightarrow> norm_loop absolute p' parts'))"
  by pat_completeness auto
termination
proof (relation "measure (\<lambda>(absolute, p, parts). strsep_size p)", goal_cases)
  case (2 absolute p parts a token p' parts')
  then have "strsep p = Some (token, p')" by simp
  then show ?case by (simp add: strsep_shrinks)
qed simp

declare norm_loop.simps [simp del]

text \<open>The loop that rebuilds the path, from the component \<open>parts[i]\<close> on.\<close>

fun rebuild :: "bool \<Rightarrow> nat \<Rightarrow> nat \<Rightarrow> string list \<Rightarrow> string \<Rightarrow> string option" where
  "rebuild absolute out_size i [] out = Some out"
| "rebuild absolute out_size i (part # parts) out =
     (case (if (i > 0 \<or> absolute) \<and> length out > 1
            then append_str (Some out) out_size (Some ''/'') else Some out) of
        None \<Rightarrow> None
      | Some out' \<Rightarrow>
          (case append_str (Some out') out_size (Some part) of
             None \<Rightarrow> None
           | Some out'' \<Rightarrow> rebuild absolute out_size (Suc i) parts out''))"

text \<open>From \<open>out[0] = '\0'\<close> on: the leading slash, the components, and the empty path.\<close>

definition rebuild_path :: "bool \<Rightarrow> nat \<Rightarrow> string list \<Rightarrow> string option" where
  "rebuild_path absolute out_size parts =
     (case (if absolute then append_str (Some []) out_size (Some ''/'') else Some []) of
        None \<Rightarrow> None
      | Some out \<Rightarrow>
          (case rebuild absolute out_size 0 parts out of
             None \<Rightarrow> None
           | Some out' \<Rightarrow>
               if out' = []
               then append_str (Some out') out_size (Some (if absolute then ''/'' else ''.''))
               else Some out'))"

text \<open>
  \<open>out\<close> of the source is a buffer of \<open>out_size\<close> bytes; \<open>has_out\<close> says that it is not
  \<open>NULL\<close>. The result is what the buffer holds when the function returns true.
\<close>

definition path_normalize_lexical :: "string option \<Rightarrow> bool \<Rightarrow> nat \<Rightarrow> string option" where
  "path_normalize_lexical inp has_out out_size =
     (case inp of
        None \<Rightarrow> None
      | Some s \<Rightarrow>
          if \<not> has_out \<or> out_size = 0 then None
          else if length s \<ge> PATH_MAX then None
          else
            let absolute = (s \<noteq> [] \<and> hd s = CHR ''/'') in
            (case norm_loop absolute (Some s) [] of
               None \<Rightarrow> None
             | Some parts \<Rightarrow> rebuild_path absolute out_size parts))"

definition path_equals_normalized :: "string option \<Rightarrow> string option \<Rightarrow> bool" where
  "path_equals_normalized a b =
     (if a = None \<or> b = None then False
      else (case (path_normalize_lexical a True PATH_MAX, path_normalize_lexical b True PATH_MAX) of
              (Some norm_a, Some norm_b) \<Rightarrow> norm_a = norm_b
            | _ \<Rightarrow> False))"

text \<open>The loop that strips trailing slashes from the root, on the length kept of it.\<close>

fun strip_len :: "string \<Rightarrow> nat \<Rightarrow> nat" where
  "strip_len norm_root 0 = 0"
| "strip_len norm_root (Suc n) =
     (if Suc n > 1 \<and> norm_root ! n = CHR ''/'' then strip_len norm_root n else Suc n)"

text \<open>
  The result is \<^term>\<open>None\<close> for \<open>false\<close> and \<^term>\<open>Some relative\<close> for \<open>true\<close>, where \<open>relative\<close>
  is what \<open>relative_out\<close> holds. With \<open>write_relative\<close> false (a \<open>NULL\<close> buffer or a size of
  0) nothing is written and the string carries no information.
\<close>

definition path_relative_to_root ::
    "string option \<Rightarrow> string option \<Rightarrow> bool \<Rightarrow> nat \<Rightarrow> string option" where
  "path_relative_to_root root path has_out relative_out_size =
     (if root = None \<or> path = None then None
      else
        let write_relative = (has_out \<and> relative_out_size \<noteq> 0) in
        (case (path_normalize_lexical root True PATH_MAX, path_normalize_lexical path True PATH_MAX) of
           (Some norm_root, Some norm_path) \<Rightarrow>
             let root_len = strip_len norm_root (length norm_root);
                 path_len = length norm_path
             in
             if root_len = 1 \<and> norm_root ! 0 = CHR ''/'' then
               (if norm_path ! 0 \<noteq> CHR ''/'' then None
                else
                  let relative = drop 1 norm_path in
                  if \<not> write_relative then Some []
                  else if length relative \<ge> relative_out_size then None
                  else Some relative)
             else if path_len < root_len \<or> take root_len norm_path \<noteq> take root_len norm_root then None
             else if path_len = root_len then Some []
             else if norm_path ! root_len \<noteq> CHR ''/'' then None
             else
               let relative = drop (root_len + 1) norm_path in
               if write_relative then
                 (if length relative \<ge> relative_out_size then None else Some relative)
               else Some []
         | _ \<Rightarrow> None))"

section \<open>Abstract specification: a path as a list of components\<close>

text \<open>
  \<open>canon_step\<close> is the meaning of one component of an absolute path: empty components and
  \<open>.\<close> are skipped, \<open>..\<close> leaves the current directory (the root is its own parent), any
  other name is entered. \<open>components\<close> folds it over the path.
\<close>

definition canon_step :: "string list \<Rightarrow> string \<Rightarrow> string list" where
  "canon_step dir t =
     (if t = [] \<or> t = ''.'' then dir else if t = ''..'' then butlast dir else dir @ [t])"

definition components :: "string \<Rightarrow> string list" where
  "components path = foldl canon_step [] (split_on (CHR ''/'') path)"

definition is_absolute :: "string \<Rightarrow> bool" where
  "is_absolute path = (path \<noteq> [] \<and> hd path = CHR ''/'')"

definition canonical :: "string list \<Rightarrow> bool" where
  "canonical ps = list_all (\<lambda>p. p \<noteq> [] \<and> p \<noteq> ''.'' \<and> p \<noteq> ''..'' \<and> CHR ''/'' \<notin> set p) ps"

definition abs_string :: "string list \<Rightarrow> string" where
  "abs_string ps = CHR ''/'' # join_with (CHR ''/'') ps"

subsection \<open>The tokens of the scanning loop\<close>

fun norm_tokens :: "bool \<Rightarrow> string list \<Rightarrow> string list \<Rightarrow> string list option" where
  "norm_tokens absolute [] parts = Some parts"
| "norm_tokens absolute (t # ts) parts =
     (case norm_token absolute parts t of None \<Rightarrow> None
      | Some parts' \<Rightarrow> norm_tokens absolute ts parts')"

lemma norm_loop_None [simp]: "norm_loop absolute None parts = Some parts"
  by (simp add: norm_loop.simps strsep_def)

lemma norm_loop_tokens:
  "norm_loop absolute (Some s) parts = norm_tokens absolute (split_on (CHR ''/'') s) parts"
proof (induction "length s" arbitrary: s parts rule: less_induct)
  case less
  show ?case
  proof (cases "dropWhile (\<lambda>c. c \<noteq> CHR ''/'') s")
    case Nil
    then show ?thesis
      by (simp add: norm_loop.simps [of _ "Some s"] strsep_def split_on_takeWhile [of _ s]
          del: dropWhile_eq_Nil_conv split: option.split)
  next
    case (Cons x r)
    then have "length r < length s"
      using length_dropWhile_le [of "\<lambda>c. c \<noteq> CHR ''/''" s] by simp
    with less Cons show ?thesis
      by (simp add: norm_loop.simps [of _ "Some s"] strsep_def split_on_takeWhile [of _ s]
          split: option.split)
  qed
qed

text \<open>
  Every token and its separator were read from the input, and a kept component is not
  empty, so at most \<open>PATH_MAX / 2\<close> components are ever kept: no write to \<open>parts\<close> is out of
  bounds.
\<close>

lemma push_part_room:
  assumes "\<And>p. p \<in> set parts \<Longrightarrow> p \<noteq> []" and "t \<noteq> []"
    and "weight parts + weight [t] \<le> PATH_MAX"
  shows "push_part parts t = Some (parts @ [t])"
proof -
  have "2 * length parts \<le> weight parts"
    using assms(1) by (rule weight_ge_two)
  moreover have "2 \<le> weight [t]"
    using assms(2) by (cases t) auto
  ultimately show ?thesis
    using assms(3) by (simp add: push_part_def)
qed

lemma norm_token_room:
  assumes "\<And>p. p \<in> set parts \<Longrightarrow> p \<noteq> []"
    and "weight parts + weight [t] \<le> PATH_MAX"
  shows "\<exists>parts'. norm_token absolute parts t = Some parts' \<and> (\<forall>p \<in> set parts'. p \<noteq> [])
    \<and> weight parts' \<le> weight parts + weight [t]"
proof -
  have "push_part parts t = Some (parts @ [t])" if "t \<noteq> []"
    using assms that by (intro push_part_room)
  moreover have "weight (butlast parts) \<le> weight parts + weight [t]"
    using weight_butlast [of parts] by simp
  moreover have "\<forall>p \<in> set (butlast parts). p \<noteq> []"
    using assms(1) in_set_butlastD by fastforce
  ultimately show ?thesis
    using assms(1) by (auto simp: norm_token_def)
qed

lemma norm_tokens_room:
  assumes "\<And>p. p \<in> set parts \<Longrightarrow> p \<noteq> []" and "weight parts + weight ts \<le> PATH_MAX"
  shows "\<exists>parts'. norm_tokens absolute ts parts = Some parts' \<and> (\<forall>p \<in> set parts'. p \<noteq> [])
    \<and> weight parts' \<le> weight parts + weight ts"
  using assms
proof (induction ts arbitrary: parts)
  case (Cons t ts)
  then obtain parts' where *: "norm_token absolute parts t = Some parts'"
      "\<forall>p \<in> set parts'. p \<noteq> []" "weight parts' \<le> weight parts + weight [t]"
    using norm_token_room [of parts t absolute] by auto
  with Cons.prems Cons.IH [of parts'] show ?case by force
qed auto

lemma norm_loop_in_bounds:
  assumes "length s < PATH_MAX"
  shows "\<exists>parts. norm_loop absolute (Some s) [] = Some parts \<and> (\<forall>p \<in> set parts. p \<noteq> [])
    \<and> weight parts \<le> Suc (length s)"
  using norm_tokens_room [of "[]" "split_on (CHR ''/'') s" absolute] assms
  by (auto simp: norm_loop_tokens weight_split_on)


subsection \<open>Absolute paths\<close>

lemma canon_step_no_dotdot: "''..'' \<notin> set dir \<Longrightarrow> ''..'' \<notin> set (canon_step dir t)"
  by (auto simp: canon_step_def dest: in_set_butlastD)

lemma canonical_step: "canonical dir \<Longrightarrow> CHR ''/'' \<notin> set t \<Longrightarrow> canonical (canon_step dir t)"
  by (auto simp: canonical_def canon_step_def list_all_iff dest: in_set_butlastD)

lemma canonical_foldl:
  "canonical dir \<Longrightarrow> (\<And>t. t \<in> set ts \<Longrightarrow> CHR ''/'' \<notin> set t) \<Longrightarrow> canonical (foldl canon_step dir ts)"
  by (induction ts arbitrary: dir) (auto intro: canonical_step)

lemma canonical_components [simp, intro]: "canonical (components s)"
  unfolding components_def
  by (rule canonical_foldl) (auto simp: canonical_def dest: split_on_no_sep)

lemma canonicalD:
  assumes "canonical ps" "p \<in> set ps"
  shows "p \<noteq> []" "p \<noteq> ''.''" "p \<noteq> ''..''" "CHR ''/'' \<notin> set p"
  using assms by (auto simp: canonical_def list_all_iff)

lemma canonical_append [simp]: "canonical (ps @ qs) = (canonical ps \<and> canonical qs)"
  by (auto simp: canonical_def)

lemma norm_token_canon:
  assumes "norm_token True parts t \<noteq> None" and "''..'' \<notin> set parts"
  shows "norm_token True parts t = Some (canon_step parts t)"
proof -
  have "parts = [] \<or> last parts \<noteq> ''..''"
    using assms(2) last_in_set [of parts] by metis
  with assms(1) show ?thesis
    by (auto simp: norm_token_def canon_step_def push_part_def split: if_splits)
qed

lemma norm_tokens_canon:
  assumes "norm_tokens True ts parts \<noteq> None" and "''..'' \<notin> set parts"
  shows "norm_tokens True ts parts = Some (foldl canon_step parts ts)"
  using assms
proof (induction ts arbitrary: parts)
  case (Cons t ts)
  then have t: "norm_token True parts t = Some (canon_step parts t)"
    by (intro norm_token_canon) (auto split: option.splits)
  with Cons.prems have "norm_tokens True ts (canon_step parts t) \<noteq> None"
    by auto
  with Cons t show ?case
    by (simp add: canon_step_no_dotdot)
qed simp

lemma norm_loop_absolute:
  assumes "length s < PATH_MAX"
  shows "norm_loop True (Some s) [] = Some (components s)"
  using norm_loop_in_bounds [OF assms, of True]
    norm_tokens_canon [of "split_on (CHR ''/'') s" "[]"]
  by (auto simp: components_def norm_loop_tokens)

lemma split_on_absolute:
  "is_absolute s \<Longrightarrow> split_on (CHR ''/'') s = [] # split_on (CHR ''/'') (tl s)"
  by (cases s) (auto simp: is_absolute_def)

lemma weight_canon_step: "weight (canon_step dir t) \<le> weight dir + weight [t]"
  using weight_butlast [of dir] by (simp add: canon_step_def)

lemma weight_foldl_canon: "weight (foldl canon_step dir ts) \<le> weight dir + weight ts"
proof (induction ts arbitrary: dir)
  case (Cons t ts)
  have "weight (foldl canon_step (canon_step dir t) ts) \<le> weight (canon_step dir t) + weight ts"
    by (rule Cons.IH)
  also have "\<dots> \<le> weight dir + weight (t # ts)"
    using weight_canon_step [of dir t] by simp
  finally show ?case by simp
qed simp

lemma weight_components: "is_absolute s \<Longrightarrow> weight (components s) \<le> length s"
proof -
  assume "is_absolute s"
  moreover from this have "s \<noteq> []" by (auto simp: is_absolute_def)
  ultimately show ?thesis
    using weight_foldl_canon [of "canon_step [] []" "split_on (CHR ''/'') (tl s)"]
    by (simp add: components_def split_on_absolute weight_split_on canon_step_def)
qed

lemma length_abs_string: "length (abs_string ps) = max 1 (weight ps)"
  by (cases ps) (auto simp: abs_string_def length_join_with)

subsection \<open>The rebuilt string\<close>

lemma append_str_fits:
  "length out + length s < out_size \<Longrightarrow> append_str (Some out) out_size (Some s) = Some (out @ s)"
  by (auto simp: append_str_def size_sub_def)

lemma append_str_SomeD:
  "append_str (Some out) out_size (Some s) = Some r \<Longrightarrow> length out < out_size \<Longrightarrow>
     r = out @ s \<and> length r < out_size"
  by (auto simp: append_str_def size_sub_def Let_def split: if_splits)

lemma rebuild_bounded:
  "rebuild absolute out_size i parts out = Some r \<Longrightarrow> length out < out_size \<Longrightarrow> length r < out_size"
proof (induction parts arbitrary: i out)
  case (Cons p parts)
  from Cons.prems obtain out' out'' where
    "(if (i > 0 \<or> absolute) \<and> length out > 1
      then append_str (Some out) out_size (Some ''/'') else Some out) = Some out'"
    "append_str (Some out') out_size (Some p) = Some out''"
    and rest: "rebuild absolute out_size (Suc i) parts out'' = Some r"
    by (auto split: option.splits)
  moreover from this Cons.prems(2) have "length out' < out_size"
    by (auto split: if_splits dest: append_str_SomeD)
  ultimately have "length out'' < out_size"
    by (auto dest: append_str_SomeD)
  with rest show ?case by (rule Cons.IH)
qed simp

text \<open>For an absolute path the loop appends the components, one slash between two of them.\<close>

definition glue :: "string \<Rightarrow> string list \<Rightarrow> string" where
  "glue out parts =
     (if parts = [] then out
      else out @ (if length out > 1 then ''/'' else []) @ join_with (CHR ''/'') parts)"

lemma glue_Cons:
  assumes "out \<noteq> []" and "p \<noteq> []"
  shows "glue out (p # parts) = glue (out @ (if length out > 1 then ''/'' else []) @ p) parts"
  using assms by (cases out; cases p) (auto simp: glue_def join_with_Cons_if)

lemma length_glue: "length out \<le> length (glue out parts)"
  by (simp add: glue_def)

lemma rebuild_absolute:
  assumes "out \<noteq> []" and "\<And>p. p \<in> set parts \<Longrightarrow> p \<noteq> []" and "length (glue out parts) < out_size"
  shows "rebuild True out_size i parts out = Some (glue out parts)"
  using assms
proof (induction parts arbitrary: i out)
  case Nil
  then show ?case by (simp add: glue_def)
next
  case (Cons p parts)
  define out' where "out' = out @ (if length out > 1 then ''/'' else []) @ p"
  have g: "glue out (p # parts) = glue out' parts"
    using Cons.prems by (simp add: glue_Cons out'_def)
  then have "length out' < out_size"
    using Cons.prems(3) length_glue [of out' parts] by simp
  then have "rebuild True out_size i (p # parts) out = rebuild True out_size (Suc i) parts out'"
    by (simp add: append_str_fits out'_def split: if_splits)
  also have "\<dots> = Some (glue out' parts)"
    using Cons.IH [of out'] Cons.prems g by (simp add: out'_def)
  finally show ?case by (simp add: g)
qed

lemma glue_root: "glue ''/'' parts = abs_string parts"
  by (simp add: glue_def abs_string_def)

lemma normalize_absolute:
  assumes "is_absolute s" and "length s < PATH_MAX" and "length (abs_string (components s)) < out_size"
  shows "path_normalize_lexical (Some s) True out_size = Some (abs_string (components s))"
proof -
  have "rebuild True out_size 0 (components s) ''/'' = Some (abs_string (components s))"
    using rebuild_absolute [of "''/''" "components s" out_size 0] assms(3)
      canonicalD(1) [OF canonical_components] by (simp add: glue_root)
  moreover have "out_size > 1"
    using assms(3) by (simp add: abs_string_def)
  ultimately show ?thesis
    using assms by (simp add: path_normalize_lexical_def rebuild_path_def is_absolute_def
        norm_loop_absolute append_str_fits abs_string_def)
qed

lemma length_normalized: "is_absolute s \<Longrightarrow> length (abs_string (components s)) \<le> length s"
  using weight_components [of s] by (cases s) (auto simp: length_abs_string is_absolute_def)

lemma normalize_absolute_PATH_MAX:
  assumes "is_absolute s" and "length s < PATH_MAX"
  shows "path_normalize_lexical (Some s) True PATH_MAX = Some (abs_string (components s))"
  using assms length_normalized [of s] by (intro normalize_absolute) auto

text \<open>A path is recovered from its components.\<close>

lemma foldl_canonical: "canonical ps \<Longrightarrow> foldl canon_step dir ps = dir @ ps"
  by (induction ps arbitrary: dir) (auto simp: canonical_def canon_step_def)

lemma components_abs_string: "canonical ps \<Longrightarrow> components (abs_string ps) = ps"
proof -
  assume c: "canonical ps"
  show ?thesis
  proof (cases "ps = []")
    case False
    with c have "split_on (CHR ''/'') (join_with (CHR ''/'') ps) = ps"
      by (intro split_on_join) (auto dest: canonicalD)
    with c show ?thesis
      by (simp add: components_def abs_string_def foldl_canonical canon_step_def)
  qed (simp add: components_def abs_string_def canon_step_def)
qed

lemma is_absolute_abs_string [simp]: "is_absolute (abs_string ps)"
  by (simp add: is_absolute_def abs_string_def)

lemma abs_string_inj: "canonical ps \<Longrightarrow> canonical qs \<Longrightarrow> abs_string ps = abs_string qs \<longleftrightarrow> ps = qs"
  using components_abs_string by metis

subsection \<open>Containment\<close>

text \<open>
  A string prefix that ends at a separator or at the end of the path is a prefix of the
  list of components.
\<close>

lemma split_on_join_append:
  assumes "ps \<noteq> []" and "\<And>p. p \<in> set ps \<Longrightarrow> c \<notin> set p"
  shows "split_on c (join_with c ps @ c # s) = ps @ split_on c s"
  using assms
proof (induction ps)
  case (Cons p ps)
  then show ?case
    by (cases "ps = []") (auto simp: join_with_Cons_if split_on_append_sep)
qed simp

lemma join_prefix_iff:
  assumes "canonical rs" and "canonical ps" and "rs \<noteq> []"
  shows "(\<exists>rest. join_with (CHR ''/'') ps = join_with (CHR ''/'') rs @ rest \<and>
      (rest = [] \<or> hd rest = CHR ''/'')) \<longleftrightarrow> prefix rs ps"
    (is "(\<exists>rest. ?j ps = ?j rs @ rest \<and> ?sep rest) \<longleftrightarrow> _")
proof
  assume "prefix rs ps"
  then obtain qs where "ps = rs @ qs" by (rule prefixE)
  then show "\<exists>rest. ?j ps = ?j rs @ rest \<and> ?sep rest"
    using assms(3) by (auto simp: join_with_append)
next
  assume "\<exists>rest. ?j ps = ?j rs @ rest \<and> ?sep rest"
  then obtain rest where rest: "?j ps = ?j rs @ rest" "?sep rest" by blast
  have "?j rs \<noteq> []"
    using assms(1,3) by (cases rs) (auto simp: join_with_Cons_if dest: canonicalD)
  with rest have "ps \<noteq> []" by auto
  then have ps: "split_on (CHR ''/'') (?j ps) = ps"
    using assms(2) by (intro split_on_join) (auto dest: canonicalD)
  have no_sep: "\<And>p. p \<in> set rs \<Longrightarrow> CHR ''/'' \<notin> set p"
    using assms(1) by (auto dest: canonicalD)
  show "prefix rs ps"
  proof (cases rest)
    case Nil
    then have "ps = rs"
      using ps rest(1) split_on_join [OF assms(3) no_sep] by simp
    then show ?thesis by simp
  next
    case (Cons c r)
    then have "split_on (CHR ''/'') (?j ps) = rs @ split_on (CHR ''/'') r"
      using rest split_on_join_append [OF assms(3) no_sep] by simp
    then show ?thesis using ps by simp
  qed
qed

lemma strip_len_last: "xs \<noteq> [] \<Longrightarrow> last xs \<noteq> CHR ''/'' \<Longrightarrow> strip_len xs (length xs) = length xs"
  by (cases xs rule: rev_cases) auto

lemma last_abs_string: "canonical ps \<Longrightarrow> ps \<noteq> [] \<Longrightarrow> last (abs_string ps) \<noteq> CHR ''/''"
proof -
  assume ps: "canonical ps" "ps \<noteq> []"
  then obtain qs q where q: "ps = qs @ [q]" by (cases ps rule: rev_cases) auto
  with ps have "q \<noteq> []" "CHR ''/'' \<notin> set q" by (auto dest: canonicalD)
  moreover from this have "last q \<noteq> CHR ''/''" using last_in_set by metis
  ultimately show ?thesis
    by (auto simp: q abs_string_def join_with_snoc)
qed

lemma strip_len_abs_string: "canonical ps \<Longrightarrow> strip_len (abs_string ps) (length (abs_string ps)) = length (abs_string ps)"
proof (cases "ps = []")
  case False
  moreover assume "canonical ps"
  ultimately show ?thesis
    by (intro strip_len_last last_abs_string) (auto simp: abs_string_def)
qed (simp add: abs_string_def)

text \<open>
  The test of the source on two normalised strings: equal, or a prefix followed by a slash.
\<close>

lemma string_prefix_cases:
  "(take (length r) p = r \<and> length r \<le> length p \<and> (length p = length r \<or> p ! length r = c))
     \<longleftrightarrow> (\<exists>rest. p = r @ rest \<and> (rest = [] \<or> hd rest = c))"
proof
  assume *: "take (length r) p = r \<and> length r \<le> length p \<and> (length p = length r \<or> p ! length r = c)"
  then have "p = r @ drop (length r) p" by (metis append_take_drop_id)
  moreover have "drop (length r) p = [] \<or> hd (drop (length r) p) = c"
    using * by (cases "length p = length r") (auto simp: hd_drop_conv_nth)
  ultimately show "\<exists>rest. p = r @ rest \<and> (rest = [] \<or> hd rest = c)" by blast
next
  assume "\<exists>rest. p = r @ rest \<and> (rest = [] \<or> hd rest = c)"
  then obtain rest where "p = r @ rest" "rest = [] \<or> hd rest = c" by blast
  then show "take (length r) p = r \<and> length r \<le> length p \<and> (length p = length r \<or> p ! length r = c)"
    by (cases rest) auto
qed

lemma abs_prefix_iff:
  assumes "canonical rs" and "canonical ps" and "rs \<noteq> []"
  shows "(take (length (abs_string rs)) (abs_string ps) = abs_string rs
      \<and> length (abs_string rs) \<le> length (abs_string ps)
      \<and> (length (abs_string ps) = length (abs_string rs)
         \<or> abs_string ps ! length (abs_string rs) = CHR ''/'')) \<longleftrightarrow> prefix rs ps"
  unfolding string_prefix_cases join_prefix_iff [OF assms, symmetric] by (simp add: abs_string_def)

lemma relative_part:
  assumes "rs \<noteq> []" and "canonical rs"
  shows "drop (Suc (length (abs_string rs))) (abs_string (rs @ qs)) = join_with (CHR ''/'') qs"
  using assms by (simp add: abs_string_def join_with_append)

lemma join_Nil_iff: "canonical ps \<Longrightarrow> join_with (CHR ''/'') ps = [] \<longleftrightarrow> ps = []"
  by (cases ps) (auto simp: join_with_Cons_if dest: canonicalD)

definition lies_under :: "string \<Rightarrow> string \<Rightarrow> bool" where
  "lies_under root path = prefix (components root) (components path)"

definition relative_components :: "string \<Rightarrow> string \<Rightarrow> string list" where
  "relative_components root path = drop (length (components root)) (components path)"

lemma lies_underE:
  assumes "lies_under root path"
  shows "components path = components root @ relative_components root path"
  using assms by (auto simp: lies_under_def relative_components_def prefix_def)

lemma canonical_relative [intro]: "canonical (relative_components root path)"
  using canonical_components [of path] unfolding relative_components_def canonical_def
  by (auto simp: list_all_iff dest: in_set_dropD)

lemma relative_to_root_absolute:
  assumes "is_absolute root" "length root < PATH_MAX" "is_absolute path" "length path < PATH_MAX"
    and "0 < n"
  shows "path_relative_to_root (Some root) (Some path) True n =
    (if lies_under root path \<and> length (join_with (CHR ''/'') (relative_components root path)) < n
     then Some (join_with (CHR ''/'') (relative_components root path)) else None)"
proof -
  let ?rs = "components root" and ?ps = "components path" and ?qs = "relative_components root path"
  note norm = normalize_absolute_PATH_MAX [OF assms(1,2)] normalize_absolute_PATH_MAX [OF assms(3,4)]
  note strip = strip_len_abs_string [OF canonical_components [of root]]
  show ?thesis
  proof (cases "?rs = []")
    case True
    then show ?thesis
      using assms(5) norm by (simp add: path_relative_to_root_def Let_def lies_under_def
          relative_components_def abs_string_def)
  next
    case False
    then have "length (abs_string ?rs) \<noteq> 1"
      by (simp add: abs_string_def join_Nil_iff)
    moreover note iff = abs_prefix_iff [OF canonical_components [of root] canonical_components [of path] False]
    show ?thesis
    proof (cases "lies_under root path")
      case True
      from lies_underE [OF True] have ps: "?ps = ?rs @ ?qs" .
      have rel: "drop (Suc (length (abs_string ?rs))) (abs_string ?ps) = join_with (CHR ''/'') ?qs"
        unfolding ps by (rule relative_part [OF False canonical_components])
      have "length (abs_string ?ps) = length (abs_string ?rs) \<longleftrightarrow> ?qs = []"
        using False by (simp add: ps abs_string_def join_with_append)
      then show ?thesis
        using True iff norm strip rel assms(5) \<open>length (abs_string ?rs) \<noteq> 1\<close>
        by (auto simp: path_relative_to_root_def Let_def lies_under_def)
    next
      case False
      then show ?thesis
        using iff norm strip \<open>length (abs_string ?rs) \<noteq> 1\<close>
        by (auto simp: path_relative_to_root_def Let_def lies_under_def)
    qed
  qed
qed

subsection \<open>Relative paths\<close>

lemma norm_token_subset: "norm_token absolute parts t = Some r \<Longrightarrow> set r \<subseteq> insert t (set parts)"
  by (auto simp: norm_token_def push_part_def split: if_splits dest: in_set_butlastD)

lemma norm_tokens_subset: "norm_tokens absolute ts parts = Some r \<Longrightarrow> set r \<subseteq> set parts \<union> set ts"
proof (induction ts arbitrary: parts)
  case (Cons t ts)
  then obtain parts' where "norm_token absolute parts t = Some parts'"
    "norm_tokens absolute ts parts' = Some r" by (auto split: option.splits)
  with Cons.IH [of parts'] norm_token_subset [of absolute parts t parts'] show ?case by auto
qed simp

lemma rebuild_extends:
  "rebuild absolute out_size i parts out = Some r \<Longrightarrow> length out < out_size \<Longrightarrow> prefix out r"
proof (induction parts arbitrary: i out)
  case (Cons p parts)
  from Cons.prems obtain out' out'' where
    "(if (i > 0 \<or> absolute) \<and> length out > 1
      then append_str (Some out) out_size (Some ''/'') else Some out) = Some out'"
    and out'': "append_str (Some out') out_size (Some p) = Some out''"
    and rest: "rebuild absolute out_size (Suc i) parts out'' = Some r"
    by (auto split: option.splits)
  then have "prefix out out'" "length out' < out_size"
    using Cons.prems(2) by (auto split: if_splits dest: append_str_SomeD)
  moreover from this out'' have "prefix out' out''" "length out'' < out_size"
    by (auto dest: append_str_SomeD)
  ultimately show ?case
    using Cons.IH [OF rest] by (meson prefix_order.trans)
qed simp

lemma normalize_relative_head:
  assumes "\<not> is_absolute s" and "path_normalize_lexical (Some s) True n = Some r"
  shows "r \<noteq> [] \<and> hd r \<noteq> CHR ''/''"
proof -
  from assms have n: "n \<noteq> 0" and len: "length s < PATH_MAX" and abs: "\<not> (s \<noteq> [] \<and> hd s = CHR ''/'')"
    by (auto simp: path_normalize_lexical_def is_absolute_def split: if_splits)
  from norm_loop_in_bounds [OF len, of False] obtain parts where
    parts: "norm_loop False (Some s) [] = Some parts" "\<forall>p \<in> set parts. p \<noteq> []" by blast
  have no_sep: "CHR ''/'' \<notin> set p" if "p \<in> set parts" for p
    using that norm_tokens_subset [of False "split_on (CHR ''/'') s" "[]" parts] parts(1)
    by (auto simp: norm_loop_tokens dest: split_on_no_sep)
  from assms(2) n len abs parts(1) obtain out where out: "rebuild False n 0 parts [] = Some out"
    and r: "(if out = [] then append_str (Some out) n (Some ''.'') else Some out) = Some r"
    by (auto simp: path_normalize_lexical_def rebuild_path_def Let_def split: option.splits cong: if_cong)
  show ?thesis
  proof (cases parts)
    case Nil
    with out r n show ?thesis by (auto dest!: append_str_SomeD)
  next
    case (Cons p ps)
    with out n have "append_str (Some []) n (Some p) = Some p" "rebuild False n (Suc 0) ps p = Some out"
      by (auto simp: split: option.splits dest: append_str_SomeD)
    then have "prefix p out"
      using n by (auto intro: rebuild_extends dest: append_str_SomeD)
    moreover have "p \<noteq> []" "CHR ''/'' \<notin> set p"
      using Cons parts(2) no_sep by auto
    ultimately show ?thesis
      using r by (cases p) (auto simp: prefix_def)
  qed
qed

lemma relative_to_root_relative:
  assumes "is_absolute root" "length root < PATH_MAX" "\<not> is_absolute path"
  shows "path_relative_to_root (Some root) (Some path) h n = None"
proof (cases "path_normalize_lexical (Some path) True PATH_MAX")
  case (Some p)
  have p: "p \<noteq> []" "p ! 0 \<noteq> CHR ''/''"
    using normalize_relative_head [OF assms(3) Some] by (auto simp: hd_conv_nth)
  have "take (length (abs_string ps)) p \<noteq> abs_string ps" for ps
    using p by (cases p) (auto simp: abs_string_def)
  then show ?thesis
    using p normalize_absolute_PATH_MAX [OF assms(1,2)] Some
      strip_len_abs_string [OF canonical_components [of root]]
    by (auto simp: path_relative_to_root_def Let_def)
qed (simp add: path_relative_to_root_def Let_def split: option.split)

lemma rebuild_path_bounded:
  assumes "rebuild_path absolute out_size parts = Some r" and "0 < out_size"
  shows "length r < out_size"
proof -
  from assms(1) obtain out out' where
      out: "(if absolute then append_str (Some []) out_size (Some ''/'') else Some []) = Some out"
    and re: "rebuild absolute out_size 0 parts out = Some out'"
    and r: "(if out' = [] then append_str (Some out') out_size
        (Some (if absolute then ''/'' else ''.'')) else Some out') = Some r"
    by (auto simp: rebuild_path_def simp del: rebuild.simps split: option.splits)
  from out assms(2) have "length out < out_size"
    by (auto split: if_split_asm dest: append_str_SomeD)
  with re have "length out' < out_size" by (rule rebuild_bounded)
  with r show ?thesis by (auto split: if_split_asm dest: append_str_SomeD)
qed

lemma normalize_bounded:
  "path_normalize_lexical inp has_out out_size = Some r \<Longrightarrow> length r < out_size"
  by (auto simp: path_normalize_lexical_def Let_def rebuild_path_bounded
      split: option.splits if_split_asm)

text \<open>The equations that evaluate the path functions on a given string.\<close>

lemmas path_eval = path_normalize_lexical_def rebuild_path_def norm_loop_tokens norm_token_def push_part_def
  append_str_def size_sub_def path_relative_to_root_def path_equals_normalized_def

section \<open>Properties\<close>

text \<open>C31. Memory safety of the scanning loop: for every input that passes the length check of
  \<open>path_normalize_lexical\<close>, absolute or not, no component is ever written behind the end of
  the array \<open>parts[PATH_MAX / 2]\<close>.\<close>

theorem parts_never_overflow:
  assumes "length s < PATH_MAX"
  shows "norm_loop absolute (Some s) [] \<noteq> None"
  using norm_loop_in_bounds [OF assms, of absolute] by auto

theorem parts_never_overflow_witness:
  "norm_loop False (Some ''a/../b'') [] \<noteq> None"
  using parts_never_overflow [of "''a/../b''" False] by simp

text \<open>C32. Memory safety of the output buffer: whatever the input, the string that
  \<open>path_normalize_lexical\<close> leaves in \<open>out\<close> fits, with its terminator, in \<open>out_size\<close> bytes.\<close>

theorem normalize_fits_buffer:
  assumes "path_normalize_lexical inp has_out out_size = Some r"
  shows "length r < out_size"
  using assms by (rule normalize_bounded)

theorem normalize_fits_buffer_witness:
  "length ''/b'' < 3"
proof -
  have "path_normalize_lexical (Some ''/a/../b'') True 3 = Some ''/b''" by (simp add: path_eval)
  then show ?thesis by (rule normalize_fits_buffer)
qed

text \<open>C14. Functional correctness of normalisation: an absolute path of at most
  \<open>PATH_MAX - 1\<close> bytes always normalises (it never runs out of the \<open>PATH_MAX\<close> buffer its
  callers pass), and the result is the path of its components, where empty components and
  \<open>.\<close> vanish and \<open>..\<close> drops the component before it and stops at the root.\<close>

theorem normalize_absolute_correct:
  assumes "is_absolute s" and "length s < PATH_MAX"
  shows "path_normalize_lexical (Some s) True PATH_MAX = Some (abs_string (components s))"
  using assms by (rule normalize_absolute_PATH_MAX)

theorem normalize_absolute_correct_witness:
  "path_normalize_lexical (Some ''//a/./b/../c/'') True PATH_MAX =
     Some (abs_string (components ''//a/./b/../c/''))"
  by (rule normalize_absolute_correct) (simp_all add: is_absolute_def)

text \<open>Normalisation is idempotent on absolute paths: its result is a normal form.\<close>

lemma normalize_idempotent:
  assumes "is_absolute s" and "path_normalize_lexical (Some s) True PATH_MAX = Some r"
  shows "path_normalize_lexical (Some r) True PATH_MAX = Some r"
proof -
  from assms(2) have "length s < PATH_MAX"
    by (auto simp: path_normalize_lexical_def split: if_splits)
  with assms have r: "r = abs_string (components s)"
    by (simp add: normalize_absolute_PATH_MAX)
  from assms(2) have "length r < PATH_MAX" by (rule normalize_bounded)
  then show ?thesis
    by (simp add: r normalize_absolute_PATH_MAX components_abs_string)
qed

text \<open>C13. Containment: for absolute \<open>root\<close> and \<open>path\<close>, \<open>path_relative_to_root\<close> succeeds
  exactly when the components of the root are a prefix of the components of the path and the
  rest fits the caller's buffer; the buffer then holds the remaining components. So
  \<open>/hook/somefolder2/file\<close> is not under \<open>/hook/somefolder\<close>, and \<open>..\<close> cannot climb back in.\<close>

theorem relative_to_root_correct:
  assumes "is_absolute root" and "length root < PATH_MAX"
    and "is_absolute path" and "length path < PATH_MAX" and "0 < n"
  shows "path_relative_to_root (Some root) (Some path) True n =
    (if prefix (components root) (components path) \<and>
        length (join_with (CHR ''/'') (relative_components root path)) < n
     then Some (join_with (CHR ''/'') (relative_components root path)) else None)"
  using relative_to_root_absolute [OF assms] by (simp add: lies_under_def)

theorem relative_to_root_correct_witness:
  "path_relative_to_root (Some ''/hook/somefolder'') (Some ''/hook/somefolder2/file'') True 4096 =
    (if prefix (components ''/hook/somefolder'') (components ''/hook/somefolder2/file'') \<and>
        length (join_with (CHR ''/'')
          (relative_components ''/hook/somefolder'' ''/hook/somefolder2/file'')) < 4096
     then Some (join_with (CHR ''/'')
          (relative_components ''/hook/somefolder'' ''/hook/somefolder2/file'')) else None)"
  by (rule relative_to_root_correct) (simp_all add: is_absolute_def)

text \<open>C29. Round trip: the root followed by the relative path that \<open>path_relative_to_root\<close>
  wrote is the normalised path, and the relative path has no \<open>.\<close>, \<open>..\<close> or empty component,
  so a lookup of it in the image cannot leave the image's root.\<close>

theorem relative_to_root_roundtrip:
  assumes "is_absolute root" and "length root < PATH_MAX" and "is_absolute path"
    and "path_relative_to_root (Some root) (Some path) True n = Some rel" and "0 < n"
  shows "abs_string (components root @ components rel) = abs_string (components path)
    \<and> rel = join_with (CHR ''/'') (components rel) \<and> ''..'' \<notin> set (components rel)"
proof -
  have len: "length path < PATH_MAX"
    using assms(4) by (auto simp: path_relative_to_root_def path_normalize_lexical_def Let_def
        split: option.splits if_split_asm)
  let ?qs = "relative_components root path"
  have u: "lies_under root path" and rel: "rel = join_with (CHR ''/'') ?qs"
    using assms(4) relative_to_root_absolute [OF assms(1-3) len assms(5)]
    by (auto split: if_split_asm)
  have "components rel = ?qs"
    using components_abs_string [OF canonical_relative [of root path]]
    by (simp add: rel components_def abs_string_def canon_step_def)
  with u rel show ?thesis
    using canonicalD(3) [OF canonical_relative] lies_underE [OF u] by auto
qed

theorem relative_to_root_roundtrip_witness:
  "abs_string (components ''/a'' @ components ''b/c'') = abs_string (components ''/a/x/../b//c'')
    \<and> ''b/c'' = join_with (CHR ''/'') (components ''b/c'') \<and> ''..'' \<notin> set (components ''b/c'')"
proof -
  have "path_relative_to_root (Some ''/a'') (Some ''/a/x/../b//c'') True 10 = Some ''b/c''"
    by (simp add: path_eval Let_def)
  from relative_to_root_roundtrip [OF _ _ _ this] show ?thesis
    by (simp add: is_absolute_def)
qed

text \<open>Equality of normalised absolute paths is equality of their components. The source
  uses it to keep the image file itself out of the overlay, however its path is spelled.\<close>

lemma path_equals_normalized_correct:
  assumes "is_absolute a" and "length a < PATH_MAX" and "is_absolute b" and "length b < PATH_MAX"
  shows "path_equals_normalized (Some a) (Some b) \<longleftrightarrow> components a = components b"
  using assms by (simp add: path_equals_normalized_def normalize_absolute_PATH_MAX abs_string_inj)

text \<open>A path that is not absolute is never under an absolute root, whatever the current
  directory of the process is: the overlay does not serve relative paths.\<close>

lemma relative_path_not_under_root:
  assumes "is_absolute root" and "length root < PATH_MAX" and "\<not> is_absolute path"
  shows "path_relative_to_root (Some root) (Some path) has_out n = None"
  using assms by (rule relative_to_root_relative)

text \<open>C38. A flaw of the rebuilding loop on relative paths: the separator is only written when
  \<open>strlen(out) > 1\<close>, a test meant for the leading slash of an absolute path, so after a first
  component of one character it is lost and \<open>a/b\<close> normalises to \<open>ab\<close>, a different file.\<close>

theorem relative_separator_lost:
  assumes "c \<noteq> CHR ''/''" and "c \<noteq> CHR ''.''" and "canonical [name]" and "length name < 100"
  shows "path_normalize_lexical (Some (c # CHR ''/'' # name)) True PATH_MAX = Some (c # name)
    \<and> path_equals_normalized (Some (c # CHR ''/'' # name)) (Some (c # name))"
proof -
  have n: "name \<noteq> []" "name \<noteq> ''.''" "name \<noteq> ''..''" "CHR ''/'' \<notin> set name"
    using assms(3) by (auto simp: canonical_def)
  have 1: "path_normalize_lexical (Some (c # CHR ''/'' # name)) True PATH_MAX = Some (c # name)"
    using n assms(1,2,4) by (simp add: path_eval split_on_simple)
  have "path_normalize_lexical (Some (c # name)) True PATH_MAX = Some (c # name)"
    using n assms(1,2,4) by (simp add: path_eval split_on_simple)
  with 1 show ?thesis by (simp add: path_equals_normalized_def)
qed

theorem relative_separator_lost_witness:
  "path_normalize_lexical (Some ''a/b'') True PATH_MAX = Some ''ab''
    \<and> path_equals_normalized (Some ''a/b'') (Some ''ab'')"
  by (rule relative_separator_lost) (simp_all add: canonical_def)

end
