(* ===== verification/Sqfs_Mgr.thy ===== *)
theory Sqfs_Mgr
  imports Backing Inode Path_Utils
begin

text \<open>
  The manager of \<open>src/sqfs_mgr.c\<close>: setting up its lock, loading and unloading the image,
  deciding whether the overlay serves a path, and looking a path up in the image.
\<close>

definition sqfs_mutex_init_once :: "('w, 'h) env \<Rightarrow> ('w, 'h) proc \<Rightarrow> ('w, 'h) proc" where
  "sqfs_mutex_init_once P s =
     (if pthread_mutexattr_init (libc P) \<noteq> 0 then s\<lparr>mutex_recursive := False, mutex_depth := 0\<rparr>
      else if pthread_mutexattr_settype (libc P) = 0
      then s\<lparr>mutex_recursive := True, mutex_depth := 0\<rparr>
      else s\<lparr>mutex_recursive := False, mutex_depth := 0\<rparr>)"

definition sqfs_mgr_loaded_locked :: "('w, 'h) proc \<Rightarrow> bool" where
  "sqfs_mgr_loaded_locked s =
     (mgr_file s \<noteq> None \<and> mgr_compressor s \<noteq> None \<and> mgr_data_reader s \<noteq> None)"

definition sqfs_mgr_get_prefix :: "('w, 'h) env \<Rightarrow> string" where
  "sqfs_mgr_get_prefix P =
     (case getenv (cfg P) ''HOOKSQFS_PREFIX'' of Some pre \<Rightarrow> pre | None \<Rightarrow> ''/hook'')"

section \<open>Loading the image\<close>

definition sqfs_util_log_failure :: "('w, 'h) env \<Rightarrow> string \<Rightarrow> int \<Rightarrow> ('w, 'h) proc \<Rightarrow> ('w, 'h) proc" where
  "sqfs_util_log_failure P func err s =
     log_msg P (''libsquashfs '' @ func @ '' returned '' @ show_int err @ '' ('' @
       sqfs_error_string (lib P) err @ '')'' @ nl) s"

definition sqfs_util_super_info :: "('w, 'h) env \<Rightarrow> sqfs_super \<Rightarrow> ('w, 'h) proc \<Rightarrow> ('w, 'h) proc" where
  "sqfs_util_super_info P super s =
     (let s1 = log_msg P (''libsquashfs info:'' @ nl) s;
          s2 = log_msg P (''inodes: '' @ show_nat (unat (inode_count super)) @ nl) s1;
          s3 = log_msg P (''block size: '' @ show_nat (unat (block_size super)) @ nl) s2;
          s4 = log_msg P (''bytes used: '' @ show_nat (unat (bytes_used super)) @ nl) s3
      in log_msg P (''compression: '' @
           sqfs_compressor_name_readable (lib P) (compression_id super) @ nl) s4)"

text \<open>A part of the image received from the library, and one handed back, for the ghost counters.\<close>

definition got_part :: "image_part \<Rightarrow> ptr option \<Rightarrow> ('w, 'h) proc \<Rightarrow> ('w, 'h) proc" where
  "got_part k p s = (if p = None then s else s\<lparr>live_parts := (live_parts s)(k := live_parts s k + 1)\<rparr>)"

definition gave_part :: "image_part \<Rightarrow> ('w, 'h) proc \<Rightarrow> ('w, 'h) proc" where
  "gave_part k s = s\<lparr>live_parts := (live_parts s)(k := live_parts s k - 1)\<rparr>"

text \<open>
  The reader and the compressor are destroyed, the file object is freed: \<open>sqfs_free\<close> does nothing
  for \<open>NULL\<close>, and does not close the descriptor of the object.
\<close>

definition sqfs_mgr_unload_image :: "('w, 'h) env \<Rightarrow> ('w, 'h) proc \<Rightarrow> ('w, 'h) proc" where
  "sqfs_mgr_unload_image P s =
     (let s1 = (case mgr_data_reader s of
                  Some r \<Rightarrow> (gave_part Image_data_reader (snd (sys_call (sqfs_destroy (lib P) r) s)))
                              \<lparr>mgr_data_reader := None\<rparr>
                | None \<Rightarrow> s);
          s2 = (case mgr_compressor s1 of
                  Some c \<Rightarrow> (gave_part Image_compressor (snd (sys_call (sqfs_destroy (lib P) c) s1)))
                              \<lparr>mgr_compressor := None\<rparr>
                | None \<Rightarrow> s1);
          s3 = (case mgr_file s2 of
                  Some f \<Rightarrow> gave_part Image_file s2
                | None \<Rightarrow> s2)
      in s3\<lparr>mgr_file := None\<rparr>)"

text \<open>A step of \<open>sqfs_mgr_load_image\<close> that failed: report, unload and leave.\<close>

definition load_failed ::
    "('w, 'h) env \<Rightarrow> (('w, 'h) proc \<Rightarrow> ('w, 'h) proc) \<Rightarrow> ('w, 'h) proc \<Rightarrow> bool \<times> ('w, 'h) proc" where
  "load_failed P report s = (False, sqfs_unlock (sqfs_mgr_unload_image P (report s)))"

text \<open>The last two steps: the data reader and its fragment table.\<close>

definition load_data_reader ::
    "('w, 'h) env \<Rightarrow> ptr \<Rightarrow> ptr \<Rightarrow> ('w, 'h) proc \<Rightarrow> bool \<times> ('w, 'h) proc" where
  "load_data_reader P file compressor s =
     (case sys_call (sqfs_data_reader_create (lib P) file (block_size (mgr_super s)) compressor) s of
        (reader, s1) \<Rightarrow>
          let s2 = (got_part Image_data_reader reader s1)\<lparr>mgr_data_reader := reader\<rparr>
          in case reader of
               None \<Rightarrow> load_failed P (log_msg P (''sqfs_data_reader_create failed'' @ nl)) s2
             | Some r \<Rightarrow>
                 (case sys_call (sqfs_data_reader_load_fragment_table (lib P) r (mgr_super s2)) s2 of
                    (ret, s3) \<Rightarrow>
                      if ret \<noteq> 0 then
                        load_failed P (log_msg P (''sqfs_data_reader_load_fragment_table failed: '' @
                          show_int ret @ nl)) s3
                      else (True, sqfs_unlock s3)))"

text \<open>From the superblock on: configuration, compressor and its options.\<close>

definition load_compressor ::
    "('w, 'h) env \<Rightarrow> ptr \<Rightarrow> ('w, 'h) proc \<Rightarrow> bool \<times> ('w, 'h) proc" where
  "load_compressor P file s =
     (case sqfs_compressor_config_init (lib P) (compression_id (mgr_super s)) (block_size (mgr_super s)) of
        (ret, conf) \<Rightarrow>
          let s1 = s\<lparr>mgr_cfg := conf\<rparr>
          in if ret \<noteq> 0 then load_failed P (sqfs_util_log_failure P ''sqfs_compressor_config_init'' ret) s1
             else
               (case sys_call (sqfs_compressor_create (lib P) (mgr_cfg s1)) s1 of
                  ((ret2, c), s2) \<Rightarrow>
                    let s3 = (got_part Image_compressor c s2)\<lparr>mgr_compressor := c\<rparr>
                    in if ret2 \<noteq> 0 then
                      load_failed P (sqfs_util_log_failure P ''sqfs_compressor_create'' ret2) s3
                    else
                      (case c of
                         None \<Rightarrow> (False, set_trap Faulted s3)
                       | Some compressor \<Rightarrow>
                           if super_flags (mgr_super s3) AND SQFS_FLAG_COMPRESSOR_OPTIONS (lib P) \<noteq> 0 then
                                (case sys_call (sqfs_compressor_read_options (lib P) compressor file) s3 of
                                   (ret3, s4) \<Rightarrow>
                                     if ret3 \<noteq> 0 then
                                       load_failed P
                                         (sqfs_util_log_failure P ''sqfs_compressor_read_options'' ret3) s4
                                     else load_data_reader P file compressor s4)
                              else load_data_reader P file compressor s3)))"

definition sqfs_mgr_load_image :: "('w, 'h) env \<Rightarrow> ('w, 'h) proc \<Rightarrow> bool \<times> ('w, 'h) proc" where
  "sqfs_mgr_load_image P s =
     (let s1 = sqfs_lock s
      in if sqfs_mgr_loaded_locked s1 then (True, sqfs_unlock s1)
         else
           (case getenv (cfg P) ''HOOKSQFS_FILE'' of
              None \<Rightarrow> (False, sqfs_unlock (log_msg P (''HOOKSQFS_FILE not set'' @ nl) s1))
            | Some sqfs_path \<Rightarrow>
                (case sys_call (sqfs_open_file (lib P) sqfs_path) s1 of
                   (f, s2) \<Rightarrow>
                     let s3 = (got_part Image_descriptor f (got_part Image_file f s2))\<lparr>mgr_file := f\<rparr>
                     in case f of
                          None \<Rightarrow> (False, sqfs_unlock (log_msg P (''sqfs_open_file failed'' @ nl) s3))
                        | Some file \<Rightarrow>
                            (case sys_call (sqfs_super_read (lib P) file) s3 of
                               ((ret, super), s4) \<Rightarrow>
                                 let s5 = s4\<lparr>mgr_super := super\<rparr>
                                 in if ret \<noteq> 0 then
                                      load_failed P (sqfs_util_log_failure P ''sqfs_super_read'' ret) s5
                                    else
                                      let s6 = log_msg P (''libsquashfs read OK'' @ nl) s5;
                                          s7 = sqfs_util_super_info P (mgr_super s6) s6
                                      in load_compressor P file s7))))"

section \<open>Paths and inodes\<close>

text \<open>\<open>Inl\<close> is the error number, \<open>Inr\<close> what \<open>relative_out\<close> holds.\<close>

definition sqfs_check_path_then_convert ::
    "('w, 'h) env \<Rightarrow> string option \<Rightarrow> bool \<Rightarrow> nat \<Rightarrow> int + string" where
  "sqfs_check_path_then_convert P pathname has_out len =
     (let pre = sqfs_mgr_get_prefix P;
          sqfs_path = getenv (cfg P) ''HOOKSQFS_FILE''
      in if pathname = None then Inl EFAULT
         else if path_equals_normalized pathname sqfs_path then Inl ENOENT
         else (case path_relative_to_root (Some pre) pathname has_out len of
                 None \<Rightarrow> Inl ENOENT
               | Some relative \<Rightarrow> Inr relative))"

text \<open>Objects received from the library and handed back, for the ghost counters.\<close>

definition got_inode :: "sqfs_inode option \<Rightarrow> ('w, 'h) proc \<Rightarrow> ('w, 'h) proc" where
  "got_inode i s = (if i = None then s else s\<lparr>live_inodes := live_inodes s + 1\<rparr>)"

definition free_inode :: "sqfs_inode option \<Rightarrow> ('w, 'h) proc \<Rightarrow> ('w, 'h) proc" where
  "free_inode i s = (if i = None then s else s\<lparr>live_inodes := live_inodes s - 1\<rparr>)"

definition destroy_reader :: "('w, 'h) env \<Rightarrow> ptr \<Rightarrow> ('w, 'h) proc \<Rightarrow> ('w, 'h) proc" where
  "destroy_reader P r s =
     (let s1 = snd (sys_call (sqfs_destroy (lib P) r) s) in s1\<lparr>live_readers := live_readers s1 - 1\<rparr>)"

definition create_dir_reader :: "('w, 'h) env \<Rightarrow> ('w, 'h) proc \<Rightarrow> ptr option \<times> ('w, 'h) proc" where
  "create_dir_reader P s =
     (case sys_call (sqfs_dir_reader_create (lib P) (mgr_super s)
              (the (mgr_compressor s)) (the (mgr_file s))) s of
        (r, s1) \<Rightarrow> (r, if r = None then s1 else s1\<lparr>live_readers := live_readers s1 + 1\<rparr>))"

definition sqfs_find_inode ::
    "('w, 'h) env \<Rightarrow> string option \<Rightarrow> ('w, 'h) proc \<Rightarrow> sqfs_inode option \<times> ('w, 'h) proc" where
  "sqfs_find_inode P relative s =
     (case relative of
        None \<Rightarrow> (None, s\<lparr>errno := EFAULT\<rparr>)
      | Some rel \<Rightarrow>
          if \<not> sqfs_mgr_loaded_locked s then (None, s\<lparr>errno := ENOENT\<rparr>)
          else
            (case create_dir_reader P s of
               (None, s1) \<Rightarrow> (None, s1\<lparr>errno := ENOMEM\<rparr>)
             | (Some r, s1) \<Rightarrow>
                 (case sys_call (if rel = [] then sqfs_dir_reader_get_root_inode (lib P) r
                                 else sqfs_dir_reader_find_by_path (lib P) r rel) s1 of
                    ((ret, inode), s2) \<Rightarrow>
                      let s3 = destroy_reader P r s2
                      in if ret \<noteq> 0 then (None, s3\<lparr>errno := errno_from_sqfs (lib P) ret\<rparr>)
                         else (inode, got_inode inode s3))))"

definition sqfs_stat_impl ::
    "('w, 'h) env \<Rightarrow> string option \<Rightarrow> ('w, 'h) proc \<Rightarrow> stat option \<times> ('w, 'h) proc" where
  "sqfs_stat_impl P relative s =
     (case sqfs_find_inode P relative s of
        (None, s1) \<Rightarrow> (None, s1)
      | (Some inode, s1) \<Rightarrow>
          (Some (sqfs_fill_stat P (mgr_super s1) inode), free_inode (Some inode) s1))"

section \<open>Frames\<close>

text \<open>
  A lookup in the image changes nothing of the manager but the count of inodes held: the one
  it returns is one more, and the directory reader it made is gone again.
\<close>

definition lookup_frame :: "('w, 'h) proc \<Rightarrow> int \<Rightarrow> ('w, 'h) proc \<Rightarrow> bool" where
  "lookup_frame s n t \<longleftrightarrow> core_eq (s\<lparr>live_inodes := live_inodes s + n\<rparr>) t \<and> trapped t = trapped s"

lemma lookup_frameD [dest]:
  assumes "lookup_frame s n t"
  shows "mutex_recursive t = mutex_recursive s" "mutex_depth t = mutex_depth s"
    "mgr_file t = mgr_file s" "mgr_compressor t = mgr_compressor s"
    "mgr_data_reader t = mgr_data_reader s" "mgr_super t = mgr_super s"
    "dir_map t = dir_map s" "fd_map t = fd_map s" "next_ptr t = next_ptr s"
    "fd_heap t = fd_heap s" "dir_heap t = dir_heap s"
    "live_inodes t = live_inodes s + n" "live_nodes t = live_nodes s"
    "live_dir_entries t = live_dir_entries s" "live_readers t = live_readers s"
    "trapped t = trapped s" "live_parts t = live_parts s"
  using assms by (simp_all add: lookup_frame_def core_eq_def)

lemma find_inode_frame:
  assumes "sqfs_find_inode P relative s = (i, t)"
  shows "lookup_frame s (if i = None then 0 else 1) t"
  using assms
  by (auto simp: sqfs_find_inode_def lookup_frame_def core_eq_def create_dir_reader_def
      destroy_reader_def got_inode_def Let_def split_beta
      split: option.splits if_split_asm)

lemma stat_impl_frame: "sqfs_stat_impl P relative s = (st, t) \<Longrightarrow> lookup_frame s 0 t"
  by (auto simp: sqfs_stat_impl_def free_inode_def lookup_frame_def core_eq_def
      split: prod.splits option.splits dest!: find_inode_frame)

text \<open>A stat of the image succeeds exactly when the lookup does, with the inode's data.\<close>

lemma stat_impl_find:
  "fst (sqfs_stat_impl P relative s) =
     map_option (sqfs_fill_stat P (mgr_super s)) (fst (sqfs_find_inode P relative s))"
  by (auto simp: sqfs_stat_impl_def split: prod.splits option.splits dest!: find_inode_frame)

section \<open>Which paths the overlay serves\<close>

text \<open>The abstract question: an absolute path under the prefix that is not the image itself.\<close>

definition served :: "('w, 'h) env \<Rightarrow> string \<Rightarrow> bool" where
  "served P path \<longleftrightarrow>
     is_absolute path \<and> length path < PATH_MAX \<and> lies_under (sqfs_mgr_get_prefix P) path \<and>
     (case getenv (cfg P) ''HOOKSQFS_FILE'' of
        None \<Rightarrow> True
      | Some file \<Rightarrow> components path \<noteq> components file)"

definition good_config :: "('w, 'h) env \<Rightarrow> bool" where
  "good_config P \<longleftrightarrow>
     is_absolute (sqfs_mgr_get_prefix P) \<and> length (sqfs_mgr_get_prefix P) < PATH_MAX \<and>
     (case getenv (cfg P) ''HOOKSQFS_FILE'' of
        None \<Rightarrow> True | Some file \<Rightarrow> is_absolute file \<and> length file < PATH_MAX)"

lemma long_path_rejected: "PATH_MAX \<le> length path \<Longrightarrow> path_relative_to_root root (Some path) h n = None"
proof -
  assume "PATH_MAX \<le> length path"
  then have "path_normalize_lexical (Some path) True PATH_MAX = None"
    by (simp add: path_normalize_lexical_def)
  then show ?thesis
    by (simp add: path_relative_to_root_def Let_def split: option.split)
qed

lemma relative_short:
  assumes "is_absolute path" and "length path < PATH_MAX"
  shows "length (join_with (CHR ''/'') (relative_components root path)) < PATH_MAX"
proof -
  have "weight (relative_components root path) \<le> weight (components path)"
    using append_take_drop_id [of "length (components root)" "components path"]
    by (metis le_add2 relative_components_def weight_simps(3))
  then show ?thesis
    using weight_components [OF assms(1)] assms(2) by (simp add: length_join_with)
qed

lemma check_path_served:
  assumes "good_config P"
  shows "sqfs_check_path_then_convert P (Some path) True PATH_MAX =
    (if served P path
     then Inr (join_with (CHR ''/'') (relative_components (sqfs_mgr_get_prefix P) path))
     else Inl ENOENT)"
proof (cases "is_absolute path \<and> length path < PATH_MAX")
  case True
  then have rel: "path_relative_to_root (Some (sqfs_mgr_get_prefix P)) (Some path) True PATH_MAX =
      (if lies_under (sqfs_mgr_get_prefix P) path
       then Some (join_with (CHR ''/'') (relative_components (sqfs_mgr_get_prefix P) path)) else None)"
    using assms relative_short [of path] by (subst relative_to_root_absolute) (auto simp: good_config_def)
  have eq: "path_equals_normalized (Some path) (getenv (cfg P) ''HOOKSQFS_FILE'') \<longleftrightarrow>
      (case getenv (cfg P) ''HOOKSQFS_FILE'' of None \<Rightarrow> False | Some file \<Rightarrow> components path = components file)"
    using True assms by (auto simp: path_equals_normalized_def good_config_def
        normalize_absolute_PATH_MAX abs_string_inj split: option.split)
  show ?thesis
    using True rel eq
    by (auto simp: sqfs_check_path_then_convert_def served_def Let_def split: option.splits)
next
  case False
  then have "path_relative_to_root (Some (sqfs_mgr_get_prefix P)) (Some path) True PATH_MAX = None"
    using assms by (cases "is_absolute path")
      (auto simp: good_config_def long_path_rejected relative_to_root_relative)
  with False show ?thesis
    by (auto simp: sqfs_check_path_then_convert_def served_def Let_def)
qed

lemma check_path_NULL [simp]: "sqfs_check_path_then_convert P None h n = Inl EFAULT"
  by (simp add: sqfs_check_path_then_convert_def)

section \<open>Loading is all or nothing\<close>

definition can_lock :: "('w, 'h) proc \<Rightarrow> bool" where
  "can_lock s \<longleftrightarrow> mutex_recursive s \<or> mutex_depth s = 0"

definition image_unloaded :: "('w, 'h) proc \<Rightarrow> bool" where
  "image_unloaded s \<longleftrightarrow> mgr_file s = None \<and> mgr_compressor s = None \<and> mgr_data_reader s = None"

lemma sqfs_lock_simps [simp]:
  "can_lock s \<Longrightarrow> sqfs_lock s = s\<lparr>mutex_depth := Suc (mutex_depth s)\<rparr>"
  by (auto simp: can_lock_def sqfs_lock_def)

lemma sqfs_unlock_simps [simp]:
  "0 < mutex_depth s \<Longrightarrow> sqfs_unlock s = s\<lparr>mutex_depth := mutex_depth s - 1\<rparr>"
  by (simp add: sqfs_unlock_def)

text \<open>
  The parts of the image that are held without a pointer of the manager to them. The descriptor
  behind the file object has no pointer of its own, so it is left out.
\<close>

definition part_pointer :: "('w, 'h) proc \<Rightarrow> image_part \<Rightarrow> ptr option" where
  "part_pointer s k = (case k of Image_file \<Rightarrow> mgr_file s | Image_descriptor \<Rightarrow> None
     | Image_compressor \<Rightarrow> mgr_compressor s | Image_data_reader \<Rightarrow> mgr_data_reader s)"

definition astray :: "('w, 'h) proc \<Rightarrow> image_part \<Rightarrow> int" where
  "astray s k = (if k = Image_descriptor then 0 else live_parts s k - of_bool (part_pointer s k \<noteq> None))"

lemma astray_updates [simp]:
  "astray (s\<lparr>mgr_super := super\<rparr>) = astray s"
  "astray (s\<lparr>mgr_cfg := c\<rparr>) = astray s"
  "astray (s\<lparr>mutex_depth := n\<rparr>) = astray s"
  by (simp_all add: fun_eq_iff astray_def part_pointer_def split: image_part.split)

lemma astray_received:
  "mgr_file s = None \<Longrightarrow>
     astray ((got_part Image_descriptor p (got_part Image_file p s))\<lparr>mgr_file := p\<rparr>) = astray s"
  "mgr_compressor s = None \<Longrightarrow> astray ((got_part Image_compressor p s)\<lparr>mgr_compressor := p\<rparr>) = astray s"
  "mgr_data_reader s = None \<Longrightarrow> astray ((got_part Image_data_reader p s)\<lparr>mgr_data_reader := p\<rparr>) = astray s"
  by (auto simp: fun_eq_iff astray_def part_pointer_def got_part_def split: image_part.split)

lemma astray_gave:
  "mgr_file s \<noteq> None \<Longrightarrow> astray ((gave_part Image_file s)\<lparr>mgr_file := None\<rparr>) = astray s"
  "mgr_compressor s \<noteq> None \<Longrightarrow> astray ((gave_part Image_compressor s)\<lparr>mgr_compressor := None\<rparr>) = astray s"
  "mgr_data_reader s \<noteq> None \<Longrightarrow> astray ((gave_part Image_data_reader s)\<lparr>mgr_data_reader := None\<rparr>) = astray s"
  by (auto simp: fun_eq_iff astray_def part_pointer_def gave_part_def split: image_part.split)

lemma astray_core: "core_eq s t \<Longrightarrow> astray t = astray s"
  by (simp add: fun_eq_iff core_eq_def astray_def part_pointer_def split: image_part.split)

lemma astray_held:
  assumes "astray t = astray s" and "k \<noteq> Image_descriptor"
  shows "live_parts t k = live_parts s k - of_bool (part_pointer s k \<noteq> None) + of_bool (part_pointer t k \<noteq> None)"
  using fun_cong [OF assms(1), of k] assms(2) by (simp add: astray_def)

lemmas part_pointers [simp] = part_pointer_def [of _ Image_file, simplified]
  part_pointer_def [of _ Image_compressor, simplified] part_pointer_def [of _ Image_data_reader, simplified]

text \<open>
  What the loader keeps: the lock, both tables, their heaps, the objects held and the open
  handles. The image itself may change, with every part of it counted.
\<close>

definition load_frame :: "('w \<Rightarrow> handle set) \<Rightarrow> ('w, 'h) proc \<Rightarrow> ('w, 'h) proc \<Rightarrow> bool" where
  "load_frame H s t \<longleftrightarrow>
     mutex_recursive t = mutex_recursive s \<and> mutex_depth t = mutex_depth s \<and>
     dir_map t = dir_map s \<and> fd_map t = fd_map s \<and> next_ptr t = next_ptr s \<and>
     fd_heap t = fd_heap s \<and> dir_heap t = dir_heap s \<and>
     live_inodes t = live_inodes s \<and> live_nodes t = live_nodes s \<and>
     live_dir_entries t = live_dir_entries s \<and> live_readers t = live_readers s \<and>
     astray t = astray s \<and> calm H s t"

lemma load_frame_refl [simp]: "load_frame H s s"
  by (simp add: load_frame_def)

lemma load_frame_trans [trans]: "load_frame H s t \<Longrightarrow> load_frame H t u \<Longrightarrow> load_frame H s u"
  by (auto simp: load_frame_def intro: calm_trans)

lemma load_frame_updates [simp]:
  "load_frame H s (t\<lparr>mgr_super := super\<rparr>) = load_frame H s t"
  "load_frame H s (t\<lparr>mgr_cfg := c\<rparr>) = load_frame H s t"
  by (simp_all add: load_frame_def calm_def)

lemma load_frame_received:
  "mgr_file t = None \<Longrightarrow>
     load_frame H s ((got_part Image_descriptor p (got_part Image_file p t))\<lparr>mgr_file := p\<rparr>) = load_frame H s t"
  "mgr_compressor t = None \<Longrightarrow>
     load_frame H s ((got_part Image_compressor p t)\<lparr>mgr_compressor := p\<rparr>) = load_frame H s t"
  "mgr_data_reader t = None \<Longrightarrow>
     load_frame H s ((got_part Image_data_reader p t)\<lparr>mgr_data_reader := p\<rparr>) = load_frame H s t"
  by (simp_all add: load_frame_def astray_received) (simp_all add: calm_def got_part_def)

lemma load_frame_gave:
  "mgr_file t \<noteq> None \<Longrightarrow>
     load_frame H s ((gave_part Image_file t)\<lparr>mgr_file := None\<rparr>) = load_frame H s t"
  "mgr_compressor t \<noteq> None \<Longrightarrow>
     load_frame H s ((gave_part Image_compressor t)\<lparr>mgr_compressor := None\<rparr>) = load_frame H s t"
  "mgr_data_reader t \<noteq> None \<Longrightarrow>
     load_frame H s ((gave_part Image_data_reader t)\<lparr>mgr_data_reader := None\<rparr>) = load_frame H s t"
  by (simp_all add: load_frame_def astray_gave del: not_None_eq) (simp_all add: calm_def gave_part_def)

lemma load_frame_call: "load_frame H s t \<Longrightarrow> keeps H f \<Longrightarrow> load_frame H s (snd (sys_call f t))"
  using sys_call_calm [of H f t] calm_trans [of H s t] astray_core [OF sys_call.core [of t f]]
  by (simp add: load_frame_def)

lemma load_frame_log: "load_frame H s t \<Longrightarrow> kernel_ok (libc P) H budget \<Longrightarrow> load_frame H s (log_msg P msg t)"
  using log_msg_calm [of P H budget t msg] calm_trans [of H s t] astray_core [OF log_msg.core [of t P msg]]
  by (simp add: load_frame_def)

lemma unload_image_frame:
  assumes "lib_keeps (lib P) H" and fr: "load_frame H s t"
  shows "load_frame H s (sqfs_mgr_unload_image P t)"
proof -
  note destroy = lib_keepsD(14) [OF assms(1)]
  define t1 where "t1 = (case mgr_data_reader t of
      Some r \<Rightarrow> (gave_part Image_data_reader (snd (sys_call (sqfs_destroy (lib P) r) t)))\<lparr>mgr_data_reader := None\<rparr>
    | None \<Rightarrow> t)"
  define t2 where "t2 = (case mgr_compressor t1 of
      Some c \<Rightarrow> (gave_part Image_compressor (snd (sys_call (sqfs_destroy (lib P) c) t1)))\<lparr>mgr_compressor := None\<rparr>
    | None \<Rightarrow> t1)"
  have t1: "load_frame H s t1"
    using fr load_frame_call [OF fr destroy] by (simp add: t1_def load_frame_gave split: option.split)
  have t2: "load_frame H s t2"
    using t1 load_frame_call [OF t1 destroy] by (simp add: t2_def load_frame_gave split: option.split)
  have "sqfs_mgr_unload_image P t =
      (case mgr_file t2 of Some f \<Rightarrow> gave_part Image_file t2 | None \<Rightarrow> t2)\<lparr>mgr_file := None\<rparr>"
    unfolding sqfs_mgr_unload_image_def Let_def t2_def t1_def ..
  with t2 show ?thesis
    using load_frame_received(1) [of t2 H s None] by (simp add: load_frame_gave got_part_def split: option.split)
qed

lemma gave_part_pointers [simp]:
  "mgr_file (gave_part k s) = mgr_file s" "mgr_compressor (gave_part k s) = mgr_compressor s"
  "mgr_data_reader (gave_part k s) = mgr_data_reader s" "mutex_depth (gave_part k s) = mutex_depth s"
  by (simp_all add: gave_part_def)

lemma got_part_simps [simp]:
  "mgr_file (got_part k p s) = mgr_file s" "mgr_compressor (got_part k p s) = mgr_compressor s"
  "mgr_data_reader (got_part k p s) = mgr_data_reader s" "mgr_super (got_part k p s) = mgr_super s"
  "os (got_part k p s) = os s" "trapped (got_part k p s) = trapped s" "got_part k None s = s"
  by (simp_all add: got_part_def)

lemma unload_image_empty: "image_unloaded (sqfs_mgr_unload_image P s)"
  by (simp add: sqfs_mgr_unload_image_def image_unloaded_def Let_def split: option.split)

text \<open>
  Only the memory of the file object is given back: the descriptor behind it stays open after
  the image is unloaded.
\<close>

lemma unload_image_descriptor:
  "live_parts (sqfs_mgr_unload_image P s) Image_descriptor = live_parts s Image_descriptor"
  by (simp add: sqfs_mgr_unload_image_def gave_part_def Let_def split: option.split)

text \<open>
  What a step of the loader, entered with the lock held, has done when it returns: the lock is
  released once, and the image is there completely or not at all.
\<close>

definition load_post :: "('w \<Rightarrow> handle set) \<Rightarrow> ('w, 'h) proc \<Rightarrow> bool \<times> ('w, 'h) proc \<Rightarrow> bool" where
  "load_post H s r \<longleftrightarrow>
     load_frame H (s\<lparr>mutex_depth := mutex_depth s - 1\<rparr>) (snd r) \<and>
     (if fst r then sqfs_mgr_loaded_locked (snd r) else image_unloaded (snd r))"

lemma unlock_frame:
  "load_frame H s t \<Longrightarrow> 0 < mutex_depth s \<Longrightarrow>
     load_frame H (s\<lparr>mutex_depth := mutex_depth s - Suc 0\<rparr>) (sqfs_unlock t)"
  by (simp add: load_frame_def calm_def)

lemma unlock_image [simp]:
  "0 < mutex_depth s \<Longrightarrow> image_unloaded (sqfs_unlock s) = image_unloaded s"
  "0 < mutex_depth s \<Longrightarrow> sqfs_mgr_loaded_locked (sqfs_unlock s) = sqfs_mgr_loaded_locked s"
  by (simp_all add: image_unloaded_def sqfs_mgr_loaded_locked_def)

lemma load_failed_post:
  assumes "lib_keeps (lib P) H" and "load_frame H s (report t)" and "0 < mutex_depth s"
  shows "load_post H s (load_failed P report t)"
proof -
  have u: "load_frame H s (sqfs_mgr_unload_image P (report t))"
    using assms(1,2) by (rule unload_image_frame)
  then have "0 < mutex_depth (sqfs_mgr_unload_image P (report t))"
    using assms(3) by (simp add: load_frame_def)
  with u show ?thesis
    using unlock_frame [OF u assms(3)] unload_image_empty [of P "report t"]
    by (simp add: load_failed_def load_post_def del: sqfs_unlock_simps)
qed

lemma load_done_post:
  assumes "load_frame H s t" and "0 < mutex_depth s" and "sqfs_mgr_loaded_locked t"
  shows "load_post H s (True, sqfs_unlock t)"
proof -
  have "0 < mutex_depth t" using assms(1,2) by (simp add: load_frame_def)
  then show ?thesis
    using unlock_frame [OF assms(1,2)] assms(3) by (simp add: load_post_def del: sqfs_unlock_simps)
qed

lemma load_absent_post:
  assumes "load_frame H s t" and "0 < mutex_depth s" and "image_unloaded t"
  shows "load_post H s (False, sqfs_unlock t)"
proof -
  have "0 < mutex_depth t" using assms(1,2) by (simp add: load_frame_def)
  then show ?thesis
    using unlock_frame [OF assms(1,2)] assms(3) by (simp add: load_post_def del: sqfs_unlock_simps)
qed

lemma log_failure_frame:
  "load_frame H s t \<Longrightarrow> kernel_ok (libc P) H budget \<Longrightarrow> load_frame H s (sqfs_util_log_failure P f e t)"
  by (simp add: sqfs_util_log_failure_def load_frame_log)

lemma super_info_frame:
  "load_frame H s t \<Longrightarrow> kernel_ok (libc P) H budget \<Longrightarrow> load_frame H s (sqfs_util_super_info P super t)"
  by (simp add: sqfs_util_super_info_def Let_def load_frame_log)

lemma load_data_reader_post:
  assumes ok: "platform_ok P H budget left" and fr: "load_frame H s0 s" and d: "0 < mutex_depth s0"
    and parts: "mgr_file s \<noteq> None" "mgr_compressor s \<noteq> None" "mgr_data_reader s = None"
  shows "load_post H s0 (load_data_reader P file cm s)"
proof -
  note K = platform_okD(2) [OF ok] and Q = platform_okD(3) [OF ok]
  obtain reader s1 where c1: "sys_call (sqfs_data_reader_create (lib P) file (block_size (mgr_super s)) cm) s = (reader, s1)"
    by (cases "sys_call (sqfs_data_reader_create (lib P) file (block_size (mgr_super s)) cm) s")
  have f1: "load_frame H s0 s1"
    using load_frame_call [OF fr lib_keepsD(5) [OF Q]] c1 by (metis snd_conv)
  have p1: "mgr_file s1 \<noteq> None" "mgr_compressor s1 \<noteq> None" "mgr_data_reader s1 = None"
    using parts sys_call_core [OF c1] by (simp_all add: core_eq_def)
  show ?thesis
  proof (cases reader)
    case None
    then show ?thesis
      using load_failed_post [OF Q _ d] load_frame_log [OF _ K] f1 load_frame_received(3) [OF p1(3), of H s0 None]
      by (simp add: load_data_reader_def c1)
  next
    case (Some r)
    define s2 where "s2 = (got_part Image_data_reader (Some r) s1)\<lparr>mgr_data_reader := Some r\<rparr>"
    obtain ret s3 where c3: "sys_call (sqfs_data_reader_load_fragment_table (lib P) r (mgr_super s2)) s2 = (ret, s3)"
      by (cases "sys_call (sqfs_data_reader_load_fragment_table (lib P) r (mgr_super s2)) s2")
    have "load_frame H s0 s2" using f1 p1(3) by (simp add: s2_def load_frame_received)
    then have f3: "load_frame H s0 s3"
      using load_frame_call [OF _ lib_keepsD(6) [OF Q]] c3 by (metis snd_conv)
    have "sqfs_mgr_loaded_locked s3"
      using p1 sys_call_core [OF c3] by (simp add: core_eq_def s2_def sqfs_mgr_loaded_locked_def)
    then show ?thesis
      using load_failed_post [OF Q _ d] load_frame_log [OF f3 K] load_done_post [OF f3 d] Some c3
      by (simp add: load_data_reader_def c1 s2_def)
  qed
qed

lemma compressor_stored:
  assumes "listing_ok (libc P) (lib P) left" and "sys_call (sqfs_compressor_create (lib P) c) s = ((0, p), t)"
  shows "p \<noteq> None"
proof -
  obtain e w where "sqfs_compressor_create (lib P) c (os s) = ((0, p), e, w)"
    using assms(2) by (auto simp: sys_call_def split: prod.splits)
  moreover have "case sqfs_compressor_create (lib P) c (os s) of ((ret, p), e, w) \<Rightarrow> ret = 0 \<longrightarrow> p \<noteq> None"
    using assms(1) [unfolded listing_ok_def, THEN conjunct2, THEN conjunct2, THEN conjunct2,
        THEN spec, THEN spec] .
  ultimately show ?thesis by simp
qed

lemma load_compressor_post:
  assumes ok: "platform_ok P H budget left" and fr: "load_frame H s0 s" and d: "0 < mutex_depth s0"
    and part: "mgr_file s \<noteq> None" "mgr_compressor s = None" "mgr_data_reader s = None"
  shows "load_post H s0 (load_compressor P file s)"
proof -
  note K = platform_okD(2) [OF ok] and Q = platform_okD(3) [OF ok]
  have failed: "load_post H s0 (load_failed P (sqfs_util_log_failure P name e) t)"
    if "load_frame H s0 t" for name e t
    using Q log_failure_frame [OF that K] d by (rule load_failed_post)
  obtain ret conf where ci: "sqfs_compressor_config_init (lib P) (compression_id (mgr_super s))
      (block_size (mgr_super s)) = (ret, conf)"
    by (cases "sqfs_compressor_config_init (lib P) (compression_id (mgr_super s)) (block_size (mgr_super s))")
  define s1 where "s1 = s\<lparr>mgr_cfg := conf\<rparr>"
  obtain ret2 c s2 where c2: "sys_call (sqfs_compressor_create (lib P) conf) s1 = ((ret2, c), s2)"
    by (metis surj_pair)
  define s3 where "s3 = (got_part Image_compressor c s2)\<lparr>mgr_compressor := c\<rparr>"
  have f1: "load_frame H s0 s1" using fr by (simp add: s1_def)
  have p2: "mgr_file s2 \<noteq> None" "mgr_compressor s2 = None" "mgr_data_reader s2 = None"
    using part sys_call_core [OF c2] by (simp_all add: core_eq_def s1_def)
  have f3: "load_frame H s0 s3"
    using load_frame_call [OF f1 lib_keepsD(3) [OF Q], of conf] c2 p2(2)
    by (simp add: s3_def load_frame_received)
  have file3: "mgr_file s3 \<noteq> None" "mgr_data_reader s3 = None"
    using p2 by (simp_all add: s3_def)
  have eq: "load_compressor P file s =
    (if ret \<noteq> 0 then load_failed P (sqfs_util_log_failure P ''sqfs_compressor_config_init'' ret) s1
     else if ret2 \<noteq> 0 then load_failed P (sqfs_util_log_failure P ''sqfs_compressor_create'' ret2) s3
     else case c of None \<Rightarrow> (False, set_trap Faulted s3)
       | Some cm \<Rightarrow>
           if super_flags (mgr_super s3) AND SQFS_FLAG_COMPRESSOR_OPTIONS (lib P) \<noteq> 0 then
             (case sys_call (sqfs_compressor_read_options (lib P) cm file) s3 of
                (ret3, s4) \<Rightarrow>
                  if ret3 \<noteq> 0 then
                    load_failed P (sqfs_util_log_failure P ''sqfs_compressor_read_options'' ret3) s4
                  else load_data_reader P file cm s4)
           else load_data_reader P file cm s3)"
    by (simp add: load_compressor_def ci c2 [unfolded s1_def] s1_def s3_def Let_def split: option.split)
  show ?thesis
  proof (cases "ret \<noteq> 0 \<or> ret2 \<noteq> 0")
    case True
    then show ?thesis using failed [OF f1] failed [OF f3] by (auto simp: eq)
  next
    case False
    with c2 have "c \<noteq> None" by (intro compressor_stored [OF platform_okD(4) [OF ok]]) simp
    then obtain cm where cm: "c = Some cm" by blast
    obtain ret3 s4 where c4: "sys_call (sqfs_compressor_read_options (lib P) cm file) s3 = (ret3, s4)"
      by (cases "sys_call (sqfs_compressor_read_options (lib P) cm file) s3")
    have f4: "load_frame H s0 s4"
      using load_frame_call [OF f3 lib_keepsD(4) [OF Q]] c4 by (metis snd_conv)
    have parts: "mgr_compressor s3 \<noteq> None" "mgr_compressor s4 \<noteq> None" "mgr_file s4 \<noteq> None"
      "mgr_data_reader s4 = None"
      using file3 sys_call_core [OF c4] cm by (auto simp: core_eq_def s3_def)
    show ?thesis
      using False cm c4 failed [OF f4] load_data_reader_post [OF ok f3 d file3(1) parts(1) file3(2)]
        load_data_reader_post [OF ok f4 d parts(3,2,4)]
      by (simp add: eq)
  qed
qed

text \<open>The state of the image between operations: loaded completely, or not at all.\<close>

definition image_ok :: "('w, 'h) proc \<Rightarrow> bool" where
  "image_ok s \<longleftrightarrow> sqfs_mgr_loaded_locked s \<or> image_unloaded s"

lemma load_image_post:
  assumes ok: "platform_ok P H budget left" and lk: "can_lock s" and im: "image_ok s"
  shows "load_frame H s (snd (sqfs_mgr_load_image P s))"
    and "if fst (sqfs_mgr_load_image P s) then sqfs_mgr_loaded_locked (snd (sqfs_mgr_load_image P s))
      else image_unloaded (snd (sqfs_mgr_load_image P s))"
proof -
  note K = platform_okD(2) [OF ok] and Q = platform_okD(3) [OF ok]
  define s1 where "s1 = sqfs_lock s"
  have s1: "s1 = s\<lparr>mutex_depth := Suc (mutex_depth s)\<rparr>" using lk by (simp add: s1_def)
  then have d: "0 < mutex_depth s1" and undo: "s1\<lparr>mutex_depth := mutex_depth s1 - 1\<rparr> = s"
    and im1: "sqfs_mgr_loaded_locked s1 \<longleftrightarrow> sqfs_mgr_loaded_locked s" "image_unloaded s1 \<longleftrightarrow> image_unloaded s"
    by (simp_all add: sqfs_mgr_loaded_locked_def image_unloaded_def)
  have "load_post H s1 (sqfs_mgr_load_image P s)"
  proof (cases "sqfs_mgr_loaded_locked s1")
    case True
    then show ?thesis
      using load_done_post [OF load_frame_refl d] by (simp add: sqfs_mgr_load_image_def s1_def [symmetric])
  next
    case False
    then have un: "image_unloaded s1" using im im1 by (simp add: image_ok_def)
    show ?thesis
    proof (cases "getenv (cfg P) ''HOOKSQFS_FILE''")
      case None
      have "image_unloaded (log_msg P (''HOOKSQFS_FILE not set'' @ nl) s1)"
        using un by (simp add: image_unloaded_def)
      then show ?thesis
        using load_absent_post [OF load_frame_log [OF load_frame_refl K] d] False None
        by (simp add: sqfs_mgr_load_image_def s1_def [symmetric])
    next
      case (Some path)
      obtain f s2 where c2: "sys_call (sqfs_open_file (lib P) path) s1 = (f, s2)"
        by (cases "sys_call (sqfs_open_file (lib P) path) s1")
      define s3 where "s3 = (got_part Image_descriptor f (got_part Image_file f s2))\<lparr>mgr_file := f\<rparr>"
      have un2: "image_unloaded s2" using un sys_call_core [OF c2] by (simp add: image_unloaded_def core_eq_def)
      have f3: "load_frame H s1 s3"
        using load_frame_call [OF load_frame_refl lib_keepsD(1) [OF Q], of s1 path] c2 un2
        by (simp add: s3_def load_frame_received image_unloaded_def)
      show ?thesis
      proof (cases f)
        case None
        have "image_unloaded (log_msg P (''sqfs_open_file failed'' @ nl) s3)"
          using un None sys_call_core [OF c2] by (simp add: image_unloaded_def s3_def core_eq_def)
        then show ?thesis
          using load_absent_post [OF load_frame_log [OF f3 K] d] False Some None c2
          by (simp add: sqfs_mgr_load_image_def s1_def [symmetric] s3_def)
      next
        case (Some img)
        then have s3: "(got_part Image_descriptor (Some img) (got_part Image_file (Some img) s2))\<lparr>mgr_file := Some img\<rparr> = s3"
          by (simp add: s3_def)
        obtain ret super s4 where c4: "sys_call (sqfs_super_read (lib P) img) s3 = ((ret, super), s4)"
          by (metis surj_pair)
        define s5 where "s5 = s4\<lparr>mgr_super := super\<rparr>"
        define s7 where "s7 = sqfs_util_super_info P super (log_msg P (''libsquashfs read OK'' @ nl) s5)"
        have f5: "load_frame H s1 s5"
          using load_frame_call [OF f3 lib_keepsD(2) [OF Q]] c4
          unfolding s5_def by (metis load_frame_updates(1) snd_conv)
        have f7: "load_frame H s1 s7"
          unfolding s7_def using f5 K by (intro super_info_frame load_frame_log)
        have file7: "mgr_file s7 \<noteq> None" "mgr_compressor s7 = None" "mgr_data_reader s7 = None"
          using sys_call_core [OF c4] Some un2
          by (simp_all add: s7_def s5_def s3_def core_eq_def image_unloaded_def sqfs_util_super_info_def Let_def)
        have "mgr_super (log_msg P (''libsquashfs read OK'' @ nl) s5) = super"
          by (simp add: s5_def)
        then show ?thesis
          using load_failed_post [where report = "sqfs_util_log_failure P ''sqfs_super_read'' ret", OF Q log_failure_frame [OF f5 K] d]
            load_compressor_post [OF ok f7 d file7, unfolded s7_def] False \<open>getenv (cfg P) ''HOOKSQFS_FILE'' = Some path\<close> Some c2 c4
          by (simp add: sqfs_mgr_load_image_def s1_def [symmetric] s3 s5_def [symmetric])
      qed
    qed
  qed
  then show "load_frame H s (snd (sqfs_mgr_load_image P s))"
    and "if fst (sqfs_mgr_load_image P s) then sqfs_mgr_loaded_locked (snd (sqfs_mgr_load_image P s))
      else image_unloaded (snd (sqfs_mgr_load_image P s))"
    using undo by (simp_all add: load_post_def)
qed

lemma create_dir_reader_keeps:
  "lib_keeps (lib P) H \<Longrightarrow> H (os s) \<subseteq> H (os (snd (create_dir_reader P s)))"
  by (simp add: create_dir_reader_def split_beta keeps_subset lib_keepsD)

lemma destroy_reader_keeps:
  "lib_keeps (lib P) H \<Longrightarrow> H (os s) \<subseteq> H (os (destroy_reader P r s))"
  by (simp add: destroy_reader_def Let_def keeps_subset lib_keepsD)

lemma find_inode_keeps:
  assumes "lib_keeps (lib P) H"
  shows "H (os s) \<subseteq> H (os (snd (sqfs_find_inode P relative s)))"
proof (cases relative)
  case (Some rel)
  obtain reader s1 where c1: "create_dir_reader P s = (reader, s1)" by (cases "create_dir_reader P s")
  then have k1: "H (os s) \<subseteq> H (os s1)" using create_dir_reader_keeps [OF assms, of s] by simp
  show ?thesis
  proof (cases reader)
    case None
    then show ?thesis using Some c1 k1 by (simp add: sqfs_find_inode_def)
  next
    case (Some r)
    let ?look = "if rel = [] then sqfs_dir_reader_get_root_inode (lib P) r
      else sqfs_dir_reader_find_by_path (lib P) r rel"
    obtain ret i s2 where c2: "sys_call ?look s1 = ((ret, i), s2)" by (metis surj_pair)
    have "H (os s1) \<subseteq> H (os s2)"
      using keeps_subset [of H ?look s1] c2 lib_keepsD [OF assms] by simp
    then have "H (os s) \<subseteq> H (os (destroy_reader P r s2))"
      using k1 destroy_reader_keeps [OF assms, of s2 r] by blast
    then show ?thesis
      using Some \<open>relative = Some rel\<close> c1 c2
      by (simp add: sqfs_find_inode_def got_inode_def Let_def)
  qed
qed (simp add: sqfs_find_inode_def)

lemma find_inode_calm:
  assumes "lib_keeps (lib P) H" and "sqfs_find_inode P relative s = (i, t)"
  shows "calm H s t"
  using find_inode_keeps [OF assms(1), of s relative] find_inode_frame [OF assms(2)] assms(2)
  by (simp add: calm_def lookup_frame_def)

lemma stat_impl_calm:
  assumes "lib_keeps (lib P) H" and "sqfs_stat_impl P relative s = (st, t)"
  shows "calm H s t"
proof -
  obtain i s1 where f: "sqfs_find_inode P relative s = (i, s1)" by (cases "sqfs_find_inode P relative s")
  from find_inode_calm [OF assms(1) f] show ?thesis
    using assms(2) f by (auto simp: sqfs_stat_impl_def free_inode_def calm_def split: option.splits)
qed

section \<open>Properties of the manager\<close>

text \<open>
  Loading is idempotent: once an image is loaded, a further call reports success and changes
  nothing at all, not even the log.
\<close>

lemma load_image_idempotent:
  assumes "can_lock s" and "sqfs_mgr_loaded_locked s"
  shows "sqfs_mgr_load_image P s = (True, s)"
  using assms by (simp add: sqfs_mgr_load_image_def sqfs_mgr_loaded_locked_def)

text \<open>
  C20. Loading the image is all or nothing: \<open>sqfs_mgr_load_image\<close> reports success exactly when the
  file, the compressor and the data reader are all there, and on every failure, of any of its
  seven steps, all three are gone: a call that fails has given back every file object, compressor
  and data reader that it received from the library, and a call that succeeds holds one more of
  each, or no more when the image was there already. The lock is taken and released in balance,
  the tables of descriptors and directories and every open handle are untouched.
\<close>

theorem load_image_all_or_nothing:
  assumes "platform_ok P H budget left" and "can_lock s" and "image_ok s"
    and "sqfs_mgr_load_image P s = (success, t)"
  shows "(if success
      then mgr_file t \<noteq> None \<and> mgr_compressor t \<noteq> None \<and> mgr_data_reader t \<noteq> None \<and>
        (\<forall>k. k \<noteq> Image_descriptor \<longrightarrow>
           live_parts t k = live_parts s k + (if sqfs_mgr_loaded_locked s then 0 else 1))
      else mgr_file t = None \<and> mgr_compressor t = None \<and> mgr_data_reader t = None \<and>
        (\<forall>k. k \<noteq> Image_descriptor \<longrightarrow> live_parts t k = live_parts s k)) \<and>
    mutex_depth t = mutex_depth s \<and> fd_map t = fd_map s \<and> dir_map t = dir_map s \<and>
    H (os s) \<subseteq> H (os t) \<and> trapped t = trapped s"
proof (cases "sqfs_mgr_loaded_locked s")
  case True
  with load_image_idempotent [OF assms(2)] assms(4) show ?thesis
    by (auto simp: sqfs_mgr_loaded_locked_def)
next
  case False
  with assms(3) have un: "image_unloaded s" by (simp add: image_ok_def)
  note post = load_image_post [OF assms(1-3)]
  have "astray t = astray s" using post(1) assms(4) by (simp add: load_frame_def)
  note held = astray_held [OF this]
  have "part_pointer s k = None" for k using un by (cases k) (simp_all add: image_unloaded_def part_pointer_def)
  moreover have "k \<noteq> Image_descriptor \<Longrightarrow> part_pointer t k \<noteq> None \<longleftrightarrow> success" for k
    using post(2) assms(4)
    by (cases k) (auto simp: sqfs_mgr_loaded_locked_def image_unloaded_def split: if_splits)
  ultimately have "k \<noteq> Image_descriptor \<Longrightarrow> live_parts t k = live_parts s k + of_bool success" for k
    using held [of k] by simp
  with post assms(4) False show ?thesis
    by (auto simp: load_frame_def calm_def sqfs_mgr_loaded_locked_def image_unloaded_def split: if_splits)
qed

theorem load_image_all_or_nothing_witness:
  "let (success, t) = sqfs_mgr_load_image sample_env sample_proc
   in (if success
      then mgr_file t \<noteq> None \<and> mgr_compressor t \<noteq> None \<and> mgr_data_reader t \<noteq> None \<and>
        (\<forall>k. k \<noteq> Image_descriptor \<longrightarrow>
           live_parts t k = live_parts sample_proc k + (if sqfs_mgr_loaded_locked sample_proc then 0 else 1))
      else mgr_file t = None \<and> mgr_compressor t = None \<and> mgr_data_reader t = None \<and>
        (\<forall>k. k \<noteq> Image_descriptor \<longrightarrow> live_parts t k = live_parts sample_proc k)) \<and>
    mutex_depth t = mutex_depth sample_proc \<and> fd_map t = fd_map sample_proc \<and>
    dir_map t = dir_map sample_proc \<and>
    m_open (os sample_proc) \<subseteq> m_open (os t) \<and> trapped t = trapped sample_proc"
proof -
  have "can_lock sample_proc" "image_ok sample_proc"
    by (simp_all add: sample_proc_def fresh_proc_def can_lock_def image_ok_def image_unloaded_def)
  then show ?thesis
    using load_image_all_or_nothing [OF sample_platform_ok, of sample_proc]
    by (cases "sqfs_mgr_load_image sample_env sample_proc") simp
qed

text \<open>
  C15. The path test of every hook decides exactly what the Readme describes: an absolute path is
  served from the image when, after lexical normalisation, its components lie under those of
  the prefix and it does not name the image file itself; the path handed to the image is then
  the remaining components. Everything else is refused with \<open>ENOENT\<close>.
\<close>

theorem check_path_decides:
  assumes "good_config P"
  shows "sqfs_check_path_then_convert P (Some path) True PATH_MAX =
    (if served P path
     then Inr (join_with (CHR ''/'') (relative_components (sqfs_mgr_get_prefix P) path))
     else Inl ENOENT)"
  using assms by (rule check_path_served)

lemma sample_good_config: "good_config sample_env"
  by (simp add: good_config_def sqfs_mgr_get_prefix_def sample_getenv_def is_absolute_def)

theorem check_path_decides_witness:
  "sqfs_check_path_then_convert sample_env (Some ''/hook/d/./x/../a'') True PATH_MAX =
    (if served sample_env ''/hook/d/./x/../a''
     then Inr (join_with (CHR ''/'') (relative_components (sqfs_mgr_get_prefix sample_env) ''/hook/d/./x/../a''))
     else Inl ENOENT)"
  by (rule check_path_decides [OF sample_good_config])

text \<open>
  A lookup in the image leaks nothing: on every path, successful or not, the directory
  reader it made is destroyed, and it holds one inode more exactly when it returns one. It
  leaves the lock, the image and both tables as they were.
\<close>

lemma find_inode_no_leak:
  assumes "sqfs_find_inode P relative s = (i, t)"
  shows "live_readers t = live_readers s \<and>
    live_inodes t = live_inodes s + (if i = None then 0 else 1) \<and>
    mutex_depth t = mutex_depth s \<and> fd_map t = fd_map s \<and> dir_map t = dir_map s \<and>
    fd_heap t = fd_heap s \<and> dir_heap t = dir_heap s \<and> mgr_file t = mgr_file s \<and>
    mgr_compressor t = mgr_compressor s \<and> mgr_data_reader t = mgr_data_reader s"
  using find_inode_frame [OF assms] by (simp add: lookup_frame_def core_eq_def)

text \<open>The sample process with the image loaded, and a path in it.\<close>

definition sample_loaded :: "(machine, (int \<times> ptr) list) proc" where
  "sample_loaded = sample_proc\<lparr>mgr_file := Some 1, mgr_compressor := Some 2, mgr_data_reader := Some 3,
     mgr_super := sample_super, mutex_recursive := True, live_parts := (\<lambda>k. 1)\<rparr>"

lemmas sample_run [run_defs] = sample_loaded_def sample_proc_def fresh_proc_def sqfs_lock_def sqfs_find_inode_def
  sqfs_mgr_loaded_locked_def create_dir_reader_def sys_call_def sample_lib_def m_find_def destroy_reader_def
  got_inode_def

lemma sample_loaded_lock: "can_lock sample_loaded"
  by (simp add: sample_loaded_def can_lock_def)

lemma sample_path:
  "served sample_env ''/hook/d/a''"
  "join_with (CHR ''/'') (relative_components (sqfs_mgr_get_prefix sample_env) ''/hook/d/a'') = ''d/a''"
proof -
  have comps: "components ''/hook/d/a'' = [''hook'', ''d'', ''a'']" "components ''/hook'' = [''hook'']"
    "components ''/images/app.sqfs'' = [''images'', ''app.sqfs'']"
    by (simp_all add: components_def canon_step_def)
  have pre: "sqfs_mgr_get_prefix sample_env = ''/hook''"
    by (simp add: sqfs_mgr_get_prefix_def sample_getenv_def)
  show "join_with (CHR ''/'') (relative_components (sqfs_mgr_get_prefix sample_env) ''/hook/d/a'') = ''d/a''"
    by (simp add: pre relative_components_def comps)
  show "served sample_env ''/hook/d/a''"
    by (simp add: served_def pre lies_under_def comps is_absolute_def sample_getenv_def)
qed

end
