(* ===== verification/Tables.thy ===== *)
theory Tables
  imports Sqfs_Mgr
begin

text \<open>
  The two tables of the manager: \<open>fd_map\<close> for descriptors and \<open>dir_map\<close> for directory streams.
  Both are a hash table of addresses into a heap of records that carry their key, so what the
  hooks need of them is stated once, as the interface \<open>entry_table\<close>, and both are instances of
  it. On top of them stand the invariant of the manager and the contract that every hook
  fulfils, the interfaces \<open>hook\<close> and \<open>observer\<close>.
\<close>

section \<open>A table of records\<close>

text \<open>
  The table and the heap belong together: the addresses in the table are exactly the live
  records, each under its own key, and no live address is above the allocator.
\<close>

definition table_ok :: "'h uthash \<Rightarrow> 'h \<Rightarrow> (ptr \<Rightarrow> 'e option) \<Rightarrow> ('e \<Rightarrow> int) \<Rightarrow> ptr \<Rightarrow> bool" where
  "table_ok U h heap key n \<longleftrightarrow>
     (\<forall>k p. HASH_FIND U h k = Some p \<longrightarrow> (\<exists>e. heap p = Some e \<and> key e = k)) \<and>
     (\<forall>p e. heap p = Some e \<longrightarrow> HASH_FIND U h (key e) = Some p \<and> p < n)"

text \<open>The abstract table: a map from keys to records.\<close>

definition entry_at :: "'h uthash \<Rightarrow> 'h \<Rightarrow> (ptr \<Rightarrow> 'e option) \<Rightarrow> int \<Rightarrow> 'e option" where
  "entry_at U h heap k = (case HASH_FIND U h k of None \<Rightarrow> None | Some p \<Rightarrow> heap p)"

lemma table_ok_find:
  assumes "table_ok U h heap key n" and "HASH_FIND U h k = Some p"
  obtains e where "heap p = Some e" "key e = k" "entry_at U h heap k = Some e"
  using assms unfolding table_ok_def entry_at_def by force

lemma table_ok_heap:
  assumes "table_ok U h heap key n" and "heap p = Some e"
  shows "HASH_FIND U h (key e) = Some p" and "p < n" and "entry_at U h heap (key e) = Some e"
  using assms by (simp_all add: table_ok_def entry_at_def)

lemma table_okI:
  assumes "\<And>k p. HASH_FIND U h k = Some p \<Longrightarrow> \<exists>e. heap p = Some e \<and> key e = k"
    and "\<And>p e. heap p = Some e \<Longrightarrow> HASH_FIND U h (key e) = Some p"
    and "\<And>p e. heap p = Some e \<Longrightarrow> p < n"
  shows "table_ok U h heap key n"
  using assms by (simp add: table_ok_def)

lemma table_ok_mono: "table_ok U h heap key n \<Longrightarrow> n \<le> m \<Longrightarrow> table_ok U h heap key m"
  by (fastforce simp: table_ok_def)

lemma table_ok_finite: "table_ok U h heap key n \<Longrightarrow> finite (dom heap)"
proof -
  assume "table_ok U h heap key n"
  then have "dom heap \<subseteq> {..< n}" by (auto simp: table_ok_def)
  then show ?thesis by (rule finite_subset) simp
qed

lemma entry_at_None:
  assumes "table_ok U h heap key n"
  shows "entry_at U h heap k = None \<longleftrightarrow> HASH_FIND U h k = None"
  using assms by (cases "HASH_FIND U h k") (auto simp: entry_at_def elim: table_ok_find)

text \<open>An entry of the abstract table comes from one address of the heap.\<close>

lemma entry_at_unique:
  assumes "table_ok U h heap key n" and "HASH_FIND U h k = Some p" and "heap q = Some e" and "key e = k"
  shows "q = p"
  using table_ok_heap(1) [OF assms(1,3)] assms(2,4) by simp

lemma table_ok_attach:
  assumes "uthash_ok U" and ok: "table_ok U h heap key n" and "entry_at U h heap (key e) = None" and "n \<le> p"
  shows "table_ok U (HASH_ADD U (key e) p h) (heap(p \<mapsto> e)) key (Suc p)"
    and "entry_at U (HASH_ADD U (key e) p h) (heap(p \<mapsto> e)) = (entry_at U h heap)(key e \<mapsto> e)"
proof -
  have new: "HASH_FIND U h (key e) = None" using ok assms(3) by (simp add: entry_at_None)
  then have find: "HASH_FIND U (HASH_ADD U (key e) p h) = (HASH_FIND U h)(key e := Some p)"
    using assms(1) by (simp add: uthash_ok_def)
  have p: "q \<noteq> p" if "heap q = Some e'" for q e'
    using table_ok_heap(2) [OF ok that] assms(4) by simp
  have unused: "HASH_FIND U h k \<noteq> Some p" for k
  proof
    assume "HASH_FIND U h k = Some p"
    then obtain e' where "heap p = Some e'" by (rule table_ok_find [OF ok])
    then show False using p by blast
  qed
  have other: "key e' \<noteq> key e" if "heap q = Some e'" for q e'
    using table_ok_heap(1) [OF ok that] new by auto
  show "table_ok U (HASH_ADD U (key e) p h) (heap(p \<mapsto> e)) key (Suc p)"
  proof (rule table_okI)
    fix k q assume "HASH_FIND U (HASH_ADD U (key e) p h) k = Some q"
    then show "\<exists>e'. (heap(p \<mapsto> e)) q = Some e' \<and> key e' = k"
      using p by (cases "k = key e") (auto simp: find elim: table_ok_find [OF ok])
  next
    fix q e' assume "(heap(p \<mapsto> e)) q = Some e'"
    then show "HASH_FIND U (HASH_ADD U (key e) p h) (key e') = Some q" and "q < Suc p"
      using other table_ok_heap(1,2) [OF ok] assms(4)
      by (fastforce simp: find split: if_split_asm)+
  qed
  show "entry_at U (HASH_ADD U (key e) p h) (heap(p \<mapsto> e)) = (entry_at U h heap)(key e \<mapsto> e)"
  proof
    fix k
    show "entry_at U (HASH_ADD U (key e) p h) (heap(p \<mapsto> e)) k = ((entry_at U h heap)(key e \<mapsto> e)) k"
      using unused [of k] by (cases "HASH_FIND U h k") (auto simp: entry_at_def find)
  qed
qed

lemma table_ok_detach:
  assumes "uthash_ok U" and ok: "table_ok U h heap key n" and e: "heap p = Some e"
  shows "table_ok U (HASH_DEL U (key e) p h) (heap(p := None)) key n"
    and "entry_at U (HASH_DEL U (key e) p h) (heap(p := None)) = (entry_at U h heap)(key e := None)"
proof -
  have at: "HASH_FIND U h (key e) = Some p" using ok e by (rule table_ok_heap)
  then have find: "HASH_FIND U (HASH_DEL U (key e) p h) = (HASH_FIND U h)(key e := None)"
    using assms(1) by (simp add: uthash_ok_def)
  have other: "q \<noteq> p" if "HASH_FIND U h k = Some q" "k \<noteq> key e" for q k
    using that e by (auto elim: table_ok_find [OF ok])
  show "table_ok U (HASH_DEL U (key e) p h) (heap(p := None)) key n"
  proof (rule table_okI)
    fix k q assume "HASH_FIND U (HASH_DEL U (key e) p h) k = Some q"
    then show "\<exists>e'. (heap(p := None)) q = Some e' \<and> key e' = k"
      using other by (auto simp: find split: if_split_asm elim: table_ok_find [OF ok])
  next
    fix q e' assume "(heap(p := None)) q = Some e'"
    then show "HASH_FIND U (HASH_DEL U (key e) p h) (key e') = Some q" and "q < n"
      using table_ok_heap(1,2) [OF ok] entry_at_unique [OF ok at]
      by (auto simp: find split: if_split_asm)
  qed
  show "entry_at U (HASH_DEL U (key e) p h) (heap(p := None)) = (entry_at U h heap)(key e := None)"
  proof
    fix k
    show "entry_at U (HASH_DEL U (key e) p h) (heap(p := None)) k = ((entry_at U h heap)(key e := None)) k"
      using other by (cases "HASH_FIND U h k") (auto simp: entry_at_def find)
  qed
qed

lemma table_ok_store:
  assumes ok: "table_ok U h heap key n" and e: "heap p = Some e" and same: "key e' = key e"
  shows "table_ok U h (heap(p \<mapsto> e')) key n"
    and "entry_at U h (heap(p \<mapsto> e')) = (entry_at U h heap)(key e \<mapsto> e')"
proof -
  have at: "HASH_FIND U h (key e) = Some p" using ok e by (rule table_ok_heap)
  have other: "q \<noteq> p" if "HASH_FIND U h k = Some q" "k \<noteq> key e" for q k
    using that e by (auto elim: table_ok_find [OF ok])
  show "table_ok U h (heap(p \<mapsto> e')) key n"
  proof (rule table_okI)
    fix k q assume k: "HASH_FIND U h k = Some q"
    then show "\<exists>e''. (heap(p \<mapsto> e')) q = Some e'' \<and> key e'' = k"
      using e same by (auto elim: table_ok_find [OF ok])
  next
    fix q e'' assume "(heap(p \<mapsto> e')) q = Some e''"
    then show "HASH_FIND U h (key e'') = Some q" and "q < n"
      using table_ok_heap(1,2) [OF ok] e at same by (auto split: if_split_asm)
  qed
  show "entry_at U h (heap(p \<mapsto> e')) = (entry_at U h heap)(key e \<mapsto> e')"
  proof
    fix k
    show "entry_at U h (heap(p \<mapsto> e')) k = ((entry_at U h heap)(key e \<mapsto> e')) k"
      using other at by (cases "HASH_FIND U h k") (auto simp: entry_at_def)
  qed
qed

text \<open>
  The interface: a table inside the process state with the three updates that the hooks make,
  and what each does to the table and its heap.
\<close>

locale entry_table =
  fixes tab :: "('w, 'h) proc \<Rightarrow> 'h"
    and heap :: "('w, 'h) proc \<Rightarrow> ptr \<Rightarrow> 'e option"
    and key :: "'e \<Rightarrow> int"
    and attach :: "('w, 'h) env \<Rightarrow> ptr \<Rightarrow> 'e \<Rightarrow> ('w, 'h) proc \<Rightarrow> ('w, 'h) proc"
    and detach :: "('w, 'h) env \<Rightarrow> ptr \<Rightarrow> 'e \<Rightarrow> ('w, 'h) proc \<Rightarrow> ('w, 'h) proc"
    and store :: "ptr \<Rightarrow> 'e \<Rightarrow> ('w, 'h) proc \<Rightarrow> ('w, 'h) proc"
  assumes tab_attach: "tab (attach P p e s) = HASH_ADD (ut P) (key e) p (tab s)"
    and heap_attach: "heap (attach P p e s) = (heap s)(p \<mapsto> e)"
    and tab_detach: "tab (detach P p e s) = HASH_DEL (ut P) (key e) p (tab s)"
    and heap_detach: "heap (detach P p e s) = (heap s)(p := None)"
    and tab_store: "tab (store p e s) = tab s"
    and heap_store: "heap (store p e s) = (heap s)(p \<mapsto> e)"
begin

lemma attach_refines:
  assumes "uthash_ok (ut P)" and "table_ok (ut P) (tab s) (heap s) key n"
    and "entry_at (ut P) (tab s) (heap s) (key e) = None" and "n \<le> p"
  shows "table_ok (ut P) (tab (attach P p e s)) (heap (attach P p e s)) key (Suc p)"
    and "entry_at (ut P) (tab (attach P p e s)) (heap (attach P p e s)) =
      (entry_at (ut P) (tab s) (heap s))(key e \<mapsto> e)"
  using table_ok_attach [OF assms] by (simp_all add: tab_attach heap_attach)

lemma detach_refines:
  assumes "uthash_ok (ut P)" and "table_ok (ut P) (tab s) (heap s) key n" and "heap s p = Some e"
  shows "table_ok (ut P) (tab (detach P p e s)) (heap (detach P p e s)) key n"
    and "entry_at (ut P) (tab (detach P p e s)) (heap (detach P p e s)) =
      (entry_at (ut P) (tab s) (heap s))(key e := None)"
  using table_ok_detach [OF assms] by (simp_all add: tab_detach heap_detach)

lemma store_refines:
  assumes "table_ok (ut P) (tab s) (heap s) key n" and "heap s p = Some e" and "key e' = key e"
  shows "table_ok (ut P) (tab (store p e' s)) (heap (store p e' s)) key n"
    and "entry_at (ut P) (tab (store p e' s)) (heap (store p e' s)) =
      (entry_at (ut P) (tab s) (heap s))(key e \<mapsto> e')"
  using table_ok_store [OF assms] by (simp_all add: tab_store heap_store)

end

definition fd_attach :: "('w, 'h) env \<Rightarrow> ptr \<Rightarrow> FDMapEntry \<Rightarrow> ('w, 'h) proc \<Rightarrow> ('w, 'h) proc" where
  "fd_attach P p e s =
     s\<lparr>fd_heap := (fd_heap s)(p \<mapsto> e), fd_map := HASH_ADD (ut P) (fd_key e) p (fd_map s)\<rparr>"

definition fd_detach :: "('w, 'h) env \<Rightarrow> ptr \<Rightarrow> FDMapEntry \<Rightarrow> ('w, 'h) proc \<Rightarrow> ('w, 'h) proc" where
  "fd_detach P p e s =
     s\<lparr>fd_map := HASH_DEL (ut P) (fd_key e) p (fd_map s), fd_heap := (fd_heap s)(p := None)\<rparr>"

definition fd_store :: "ptr \<Rightarrow> FDMapEntry \<Rightarrow> ('w, 'h) proc \<Rightarrow> ('w, 'h) proc" where
  "fd_store p e s = s\<lparr>fd_heap := (fd_heap s)(p \<mapsto> e)\<rparr>"

definition dir_attach :: "('w, 'h) env \<Rightarrow> ptr \<Rightarrow> DirMapEntry \<Rightarrow> ('w, 'h) proc \<Rightarrow> ('w, 'h) proc" where
  "dir_attach P p e s =
     s\<lparr>dir_heap := (dir_heap s)(p \<mapsto> e), dir_map := HASH_ADD (ut P) (dir_key e) p (dir_map s)\<rparr>"

definition dir_detach :: "('w, 'h) env \<Rightarrow> ptr \<Rightarrow> DirMapEntry \<Rightarrow> ('w, 'h) proc \<Rightarrow> ('w, 'h) proc" where
  "dir_detach P p e s =
     s\<lparr>dir_map := HASH_DEL (ut P) (dir_key e) p (dir_map s), dir_heap := (dir_heap s)(p := None)\<rparr>"

definition dir_store :: "ptr \<Rightarrow> DirMapEntry \<Rightarrow> ('w, 'h) proc \<Rightarrow> ('w, 'h) proc" where
  "dir_store p e s = s\<lparr>dir_heap := (dir_heap s)(p \<mapsto> e)\<rparr>"

interpretation fds: entry_table fd_map fd_heap fd_key fd_attach fd_detach fd_store
  by unfold_locales (simp_all add: fd_attach_def fd_detach_def fd_store_def)

interpretation dirs: entry_table dir_map dir_heap dir_key dir_attach dir_detach dir_store
  by unfold_locales (simp_all add: dir_attach_def dir_detach_def dir_store_def)

definition fd_table :: "('w, 'h) env \<Rightarrow> ('w, 'h) proc \<Rightarrow> int \<Rightarrow> FDMapEntry option" where
  "fd_table P s = entry_at (ut P) (fd_map s) (fd_heap s)"

definition dir_table :: "('w, 'h) env \<Rightarrow> ('w, 'h) proc \<Rightarrow> int \<Rightarrow> DirMapEntry option" where
  "dir_table P s = entry_at (ut P) (dir_map s) (dir_heap s)"

declare fd_table_def [table_defs] and dir_table_def [table_defs]

section \<open>The invariant of the manager\<close>

text \<open>
  A record of a directory: the cursor stands inside the list, past its end once the end was
  reached, and every node holds its inode.
\<close>

definition dir_entry_ok :: "DirMapEntry \<Rightarrow> bool" where
  "dir_entry_ok e \<longleftrightarrow>
     suffix (dir_entry_current e) (dir_entry_list e) \<and>
     (dir_entry_list_reached_end e \<longrightarrow> dir_entry_current e = []) \<and>
     (\<forall>n \<in> set (dir_entry_list e). node_inode n \<noteq> None)"

text \<open>
  The ghost counters are explained by the tables: every inode held belongs to a record of
  \<open>fd_map\<close> or to a node of a listing, and every reader to a record of \<open>dir_map\<close>.
\<close>

definition listed_nodes :: "(ptr \<Rightarrow> DirMapEntry option) \<Rightarrow> int" where
  "listed_nodes heap = (\<Sum>p \<in> dom heap. int (length (dir_entry_list (the (heap p)))))"

definition holdings_ok :: "('w, 'h) proc \<Rightarrow> bool" where
  "holdings_ok s \<longleftrightarrow>
     live_inodes s = int (card (dom (fd_heap s))) + listed_nodes (dir_heap s) \<and>
     live_readers s = int (card (dom (dir_heap s)))"

definition mgr_ok :: "('w, 'h) env \<Rightarrow> ('w \<Rightarrow> handle set) \<Rightarrow> ('w, 'h) proc \<Rightarrow> bool" where
  "mgr_ok P H s \<longleftrightarrow>
     table_ok (ut P) (fd_map s) (fd_heap s) fd_key (next_ptr s) \<and>
     table_ok (ut P) (dir_map s) (dir_heap s) dir_key (next_ptr s) \<and>
     (\<forall>k. fd_table P s k \<noteq> None \<longrightarrow> Descriptor k \<in> H (os s)) \<and>
     (\<forall>d. dir_table P s d \<noteq> None \<longrightarrow> Stream d \<in> H (os s)) \<and>
     (\<forall>p e. dir_heap s p = Some e \<longrightarrow> dir_entry_ok e) \<and>
     (dom (fd_heap s) \<noteq> {} \<longrightarrow> mgr_data_reader s \<noteq> None) \<and>
     holdings_ok s"

lemma mgr_okD:
  assumes "mgr_ok P H s"
  shows "table_ok (ut P) (fd_map s) (fd_heap s) fd_key (next_ptr s)"
    "table_ok (ut P) (dir_map s) (dir_heap s) dir_key (next_ptr s)"
    "fd_table P s k \<noteq> None \<Longrightarrow> Descriptor k \<in> H (os s)"
    "dir_table P s d \<noteq> None \<Longrightarrow> Stream d \<in> H (os s)"
    "dir_heap s p = Some e \<Longrightarrow> dir_entry_ok e"
    "fd_heap s p = Some e' \<Longrightarrow> mgr_data_reader s \<noteq> None"
    "holdings_ok s"
  using assms by (auto simp: mgr_ok_def)

lemma mgr_ok_core: "mgr_ok P H s \<Longrightarrow> core_eq s t \<Longrightarrow> H (os s) \<subseteq> H (os t) \<Longrightarrow> mgr_ok P H t"
  by (auto simp: mgr_ok_def core_eq_def table_defs holdings_ok_def)

lemma mgr_ok_depth [simp]: "mgr_ok P H (s\<lparr>mutex_depth := n\<rparr>) = mgr_ok P H s"
  by (simp add: mgr_ok_def table_defs holdings_ok_def)

lemma mgr_ok_errno [simp]: "mgr_ok P H (s\<lparr>errno := n\<rparr>) = mgr_ok P H s"
  by (simp add: mgr_ok_def table_defs holdings_ok_def)

lemma mgr_ok_fresh_proc: "uthash_ok (ut P) \<Longrightarrow> mgr_ok P H (fresh_proc (ut P) w)"
  by (simp add: mgr_ok_def table_ok_def uthash_ok_def fresh_proc_def table_defs
      entry_at_def holdings_ok_def listed_nodes_def)

text \<open>How the invariant follows the updates of the tables.\<close>

lemma mgr_ok_fd_store:
  assumes "mgr_ok P H s" and "fd_heap s p = Some e" and "fd_key e' = fd_key e"
  shows "mgr_ok P H (fd_store p e' s)"
    and "fd_table P (fd_store p e' s) = (fd_table P s)(fd_key e \<mapsto> e')"
proof -
  note t = fds.store_refines [OF mgr_okD(1) [OF assms(1)] assms(2,3)]
  show eq: "fd_table P (fd_store p e' s) = (fd_table P s)(fd_key e \<mapsto> e')"
    using t(2) by (simp add: fd_table_def)
  have "fd_table P s (fd_key e) \<noteq> None"
    using table_ok_heap(3) [OF mgr_okD(1) [OF assms(1)] assms(2)] by (simp add: fd_table_def)
  moreover have "dom ((fd_heap s)(p \<mapsto> e')) = dom (fd_heap s)" using assms(2) by auto
  ultimately show "mgr_ok P H (fd_store p e' s)"
    using assms(1) t(1) eq by (auto simp: mgr_ok_def fd_store_def dir_table_def holdings_ok_def)
qed

lemma mgr_ok_fd_attach:
  assumes "uthash_ok (ut P)" and "mgr_ok P H s" and "fd_table P s (fd_key e) = None"
    and "Descriptor (fd_key e) \<in> H (os s)" and "mgr_data_reader s \<noteq> None"
  shows "mgr_ok P H ((fd_attach P (next_ptr s) e s)
      \<lparr>next_ptr := Suc (next_ptr s), live_inodes := live_inodes s + 1\<rparr>)"
    and "fd_table P (fd_attach P (next_ptr s) e s) = (fd_table P s)(fd_key e \<mapsto> e)"
proof -
  note t = fds.attach_refines [OF assms(1) mgr_okD(1) [OF assms(2)] assms(3) [unfolded fd_table_def] order_refl]
  show eq: "fd_table P (fd_attach P (next_ptr s) e s) = (fd_table P s)(fd_key e \<mapsto> e)"
    using t(2) by (simp add: fd_table_def)
  have "fd_heap s (next_ptr s) = None"
    using table_ok_heap(2) [OF mgr_okD(1) [OF assms(2)]] by (cases "fd_heap s (next_ptr s)") auto
  then have "card (dom ((fd_heap s)(next_ptr s \<mapsto> e))) = Suc (card (dom (fd_heap s)))"
    using table_ok_finite [OF mgr_okD(1) [OF assms(2)]] by (simp add: domIff)
  moreover have "table_ok (ut P) (dir_map s) (dir_heap s) dir_key (Suc (next_ptr s))"
    using mgr_okD(2) [OF assms(2)] by (rule table_ok_mono) simp
  ultimately show "mgr_ok P H ((fd_attach P (next_ptr s) e s)
      \<lparr>next_ptr := Suc (next_ptr s), live_inodes := live_inodes s + 1\<rparr>)"
    using assms(2,4,5) t(1) eq
    by (auto simp: mgr_ok_def fd_attach_def table_defs holdings_ok_def)
qed

lemma mgr_ok_fd_detach:
  assumes "uthash_ok (ut P)" and "mgr_ok P H s" and "fd_heap s p = Some e"
  shows "mgr_ok P H ((fd_detach P p e s)\<lparr>live_inodes := live_inodes s - 1\<rparr>)"
    and "fd_table P (fd_detach P p e s) = (fd_table P s)(fd_key e := None)"
proof -
  note t = fds.detach_refines [OF assms(1) mgr_okD(1) [OF assms(2)] assms(3)]
  show eq: "fd_table P (fd_detach P p e s) = (fd_table P s)(fd_key e := None)"
    using t(2) by (simp add: fd_table_def)
  have "dom ((fd_heap s)(p := None)) = dom (fd_heap s) - {p}" by auto
  then have "card (dom (fd_heap s)) = Suc (card (dom ((fd_heap s)(p := None))))"
    using table_ok_finite [OF mgr_okD(1) [OF assms(2)]] assms(3)
    by (metis card_Suc_Diff1 domI)
  then show "mgr_ok P H ((fd_detach P p e s)\<lparr>live_inodes := live_inodes s - 1\<rparr>)"
    using assms(2) t(1) eq
    by (auto simp: mgr_ok_def fd_detach_def table_defs holdings_ok_def split: if_split_asm)
qed

text \<open>The same for directories; here a record brings a reader and the nodes of its listing.\<close>

lemma listed_nodes_upd:
  assumes "finite (dom heap)"
  shows "listed_nodes (heap(p \<mapsto> e)) =
    listed_nodes (heap(p := None)) + int (length (dir_entry_list e))"
proof -
  let ?len = "\<lambda>h q. int (length (dir_entry_list (the (h q))))"
  have "listed_nodes (heap(p \<mapsto> e)) = sum (?len (heap(p \<mapsto> e))) (insert p (dom heap))"
    by (simp add: listed_nodes_def)
  also have "\<dots> = int (length (dir_entry_list e)) + sum (?len (heap(p \<mapsto> e))) (dom heap - {p})"
    using assms by (subst sum.insert_remove) auto
  also have "sum (?len (heap(p \<mapsto> e))) (dom heap - {p}) = listed_nodes (heap(p := None))"
    unfolding listed_nodes_def by (rule sum.cong) auto
  finally show ?thesis by (simp only: add.commute)
qed

lemma mgr_ok_dir_store:
  assumes "mgr_ok P H s" and "dir_heap s p = Some e" and "dir_key e' = dir_key e" and "dir_entry_ok e'"
    and "dir_entry_list e' = dir_entry_list e"
  shows "mgr_ok P H (dir_store p e' s)"
    and "dir_table P (dir_store p e' s) = (dir_table P s)(dir_key e \<mapsto> e')"
proof -
  note t = dirs.store_refines [OF mgr_okD(2) [OF assms(1)] assms(2,3)]
  note fin = table_ok_finite [OF mgr_okD(2) [OF assms(1)]]
  show eq: "dir_table P (dir_store p e' s) = (dir_table P s)(dir_key e \<mapsto> e')"
    using t(2) by (simp add: dir_table_def)
  have "dir_table P s (dir_key e) \<noteq> None"
    using table_ok_heap(3) [OF mgr_okD(2) [OF assms(1)] assms(2)] by (simp add: dir_table_def)
  moreover have "dom ((dir_heap s)(p \<mapsto> e')) = dom (dir_heap s)" using assms(2) by auto
  moreover have "listed_nodes ((dir_heap s)(p \<mapsto> e')) = listed_nodes ((dir_heap s)(p \<mapsto> e))"
    using listed_nodes_upd [OF fin] assms(5) by simp
  moreover have "(dir_heap s)(p \<mapsto> e) = dir_heap s" using assms(2) by auto
  ultimately show "mgr_ok P H (dir_store p e' s)"
    using assms(1,4) t(1) eq by (auto simp: mgr_ok_def dir_store_def fd_table_def holdings_ok_def)
qed

text \<open>A new record of \<open>dir_map\<close>, described by what the state looks like when it is complete.\<close>

lemma mgr_ok_dir_new:
  assumes U: "uthash_ok (ut P)" and inv: "mgr_ok P H s" and none: "dir_table P s (dir_key e) = None"
    and e: "dir_entry_ok e" "Stream (dir_key e) \<in> H (os u)"
    and u: "dir_heap u = (dir_heap s)(next_ptr s \<mapsto> e)"
      "dir_map u = HASH_ADD (ut P) (dir_key e) (next_ptr s) (dir_map s)"
      "fd_heap u = fd_heap s" "fd_map u = fd_map s" "next_ptr s < next_ptr u"
      "live_inodes u = live_inodes s + int (length (dir_entry_list e))"
      "live_readers u = live_readers s + 1" "mgr_data_reader u = mgr_data_reader s"
      "H (os s) \<subseteq> H (os u)"
  shows "mgr_ok P H u" and "dir_table P u = (dir_table P s)(dir_key e \<mapsto> e)"
proof -
  note t = table_ok_attach [OF U mgr_okD(2) [OF inv] none [unfolded dir_table_def] order_refl]
  note fin = table_ok_finite [OF mgr_okD(2) [OF inv]]
  show eq: "dir_table P u = (dir_table P s)(dir_key e \<mapsto> e)"
    using t(2) u(1,2) by (simp add: dir_table_def)
  have free: "dir_heap s (next_ptr s) = None"
    using table_ok_heap(2) [OF mgr_okD(2) [OF inv]] by (cases "dir_heap s (next_ptr s)") auto
  then have card: "card (dom ((dir_heap s)(next_ptr s \<mapsto> e))) = Suc (card (dom (dir_heap s)))"
    using fin by (simp add: domIff)
  have "(dir_heap s)(next_ptr s := None) = dir_heap s" using free by auto
  then have nodes: "listed_nodes ((dir_heap s)(next_ptr s \<mapsto> e)) =
      listed_nodes (dir_heap s) + int (length (dir_entry_list e))"
    using listed_nodes_upd [OF fin, of "next_ptr s" e] by simp
  have fd: "table_ok (ut P) (fd_map s) (fd_heap s) fd_key (next_ptr u)"
    using mgr_okD(1) [OF inv] by (rule table_ok_mono) (use u(5) in simp)
  have dir: "table_ok (ut P) (dir_map u) (dir_heap u) dir_key (next_ptr u)"
    using t(1) u(1,2,5) by (auto intro: table_ok_mono)
  show "mgr_ok P H u"
    using inv e u(3,4,6-9) fd dir eq card nodes unfolding mgr_ok_def holdings_ok_def u(1)
    by (auto simp: fd_table_def split: if_split_asm)
qed

lemma mgr_ok_dir_detach:
  assumes "uthash_ok (ut P)" and "mgr_ok P H s" and "dir_heap s p = Some e"
  shows "mgr_ok P H ((dir_detach P p e s)
      \<lparr>live_readers := live_readers s - 1,
       live_inodes := live_inodes s - int (length (dir_entry_list e))\<rparr>)"
    and "dir_table P (dir_detach P p e s) = (dir_table P s)(dir_key e := None)"
proof -
  note t = dirs.detach_refines [OF assms(1) mgr_okD(2) [OF assms(2)] assms(3)]
  note fin = table_ok_finite [OF mgr_okD(2) [OF assms(2)]]
  show eq: "dir_table P (dir_detach P p e s) = (dir_table P s)(dir_key e := None)"
    using t(2) by (simp add: dir_table_def)
  have "dom ((dir_heap s)(p := None)) = dom (dir_heap s) - {p}" by auto
  then have "card (dom (dir_heap s)) = Suc (card (dom ((dir_heap s)(p := None))))"
    using fin assms(3) by (metis card_Suc_Diff1 domI)
  moreover have "(dir_heap s)(p \<mapsto> e) = dir_heap s" using assms(3) by auto
  then have "listed_nodes (dir_heap s) =
      listed_nodes ((dir_heap s)(p := None)) + int (length (dir_entry_list e))"
    using listed_nodes_upd [OF fin, of p e] by simp
  ultimately show "mgr_ok P H ((dir_detach P p e s)
      \<lparr>live_readers := live_readers s - 1,
       live_inodes := live_inodes s - int (length (dir_entry_list e))\<rparr>)"
    using assms(2) t(1) eq
    by (auto simp: mgr_ok_def dir_detach_def table_defs holdings_ok_def split: if_split_asm)
qed

section \<open>Steady steps\<close>

text \<open>
  Most of what a hook does between two updates is steady: nothing of the manager changes, no
  handle is closed and nothing traps.
\<close>

definition steady :: "('w \<Rightarrow> handle set) \<Rightarrow> ('w, 'h) proc \<Rightarrow> ('w, 'h) proc \<Rightarrow> bool" where
  "steady H s t \<longleftrightarrow> core_eq s t \<and> calm H s t"

lemma steady_refl [simp]: "steady H s s"
  by (simp add: steady_def)

lemma steady_trans [trans]: "steady H s t \<Longrightarrow> steady H t u \<Longrightarrow> steady H s u"
  using core_eq_trans [of s t u] calm_trans [of H s t u] by (simp add: steady_def)

lemma steady_errno [simp]: "steady H s (t\<lparr>errno := e\<rparr>) = steady H s t"
  by (simp add: steady_def calm_def)

lemma steady_call: "keeps H f \<Longrightarrow> steady H s (snd (sys_call f s))"
  using sys_call.core [of s f] by (simp add: steady_def sys_call_calm)

lemma steady_call': "keeps H f \<Longrightarrow> sys_call f s = (r, t) \<Longrightarrow> steady H s t"
  using steady_call [of H f s] by simp

lemma steady_log_hook: "kernel_ok (libc P) H budget \<Longrightarrow> steady H s (log_hook P f m s)"
  by (simp add: steady_def log_hook_calm log_hook.core)

lemma steady_log_msg: "kernel_ok (libc P) H budget \<Longrightarrow> steady H s (log_msg P m s)"
  by (simp add: steady_def log_msg_calm log_msg.core)

lemma steady_stat:
  "lib_keeps (lib P) H \<Longrightarrow> sqfs_stat_impl P relative s = (st, t) \<Longrightarrow> steady H s t"
  using stat_impl_frame [of P relative s st t] stat_impl_calm [of P H relative s st t]
  by (simp add: steady_def lookup_frame_def)

lemma steady_mgr_ok: "steady H s t \<Longrightarrow> mgr_ok P H s \<Longrightarrow> mgr_ok P H t"
  using mgr_ok_core [of P H s t] by (simp add: steady_def calm_def)

lemma steadyD:
  assumes "steady H s t"
  shows "mutex_recursive t = mutex_recursive s" "mutex_depth t = mutex_depth s"
    "mgr_file t = mgr_file s" "mgr_compressor t = mgr_compressor s"
    "mgr_data_reader t = mgr_data_reader s" "mgr_super t = mgr_super s"
    "dir_map t = dir_map s" "fd_map t = fd_map s" "next_ptr t = next_ptr s"
    "fd_heap t = fd_heap s" "dir_heap t = dir_heap s" "live_inodes t = live_inodes s"
    "live_readers t = live_readers s" "live_nodes t = live_nodes s" "trapped t = trapped s"
    "H (os s) \<subseteq> H (os t)" "live_parts t = live_parts s"
  using assms by (simp_all add: steady_def core_eq_def calm_def)

lemma steady_tables:
  assumes "steady H s t"
  shows "fd_table P t = fd_table P s" "dir_table P t = dir_table P s"
  using steadyD [OF assms] by (simp_all add: table_defs)

text \<open>The lock around a region.\<close>

lemma unlock_lock [simp]: "can_lock s \<Longrightarrow> sqfs_unlock (sqfs_lock s) = s"
  by simp

lemma steady_unlock:
  assumes "can_lock s" and "steady H (sqfs_lock s) t"
  shows "steady H s (sqfs_unlock t)"
  using assms steadyD(2) [OF assms(2)] by (simp add: steady_def core_eq_def calm_def)

lemma steady_find:
  "lib_keeps (lib P) H \<Longrightarrow> sqfs_find_inode P relative s = (i, t) \<Longrightarrow>
     steady H (s\<lparr>live_inodes := live_inodes s + (if i = None then 0 else 1)\<rparr>) t"
  using find_inode_frame [of P relative s i t] find_inode_calm [of P H relative s i t]
  by (simp add: steady_def lookup_frame_def calm_def)

lemma find_inode_loaded:
  "sqfs_find_inode P relative s = (Some i, t) \<Longrightarrow> sqfs_mgr_loaded_locked s"
  by (auto simp: sqfs_find_inode_def split: option.splits if_split_asm)

lemma steady_backing_fd:
  "kernel_ok (libc P) H budget \<Longrightarrow> create_backing_fd P flags s = (fd, t) \<Longrightarrow> steady H s t"
  using create_backing_fd.core [of s P flags] create_backing_fd_fresh(1) [of P H budget flags s fd t]
  by (simp add: steady_def)

lemma steady_backing_dir:
  "kernel_ok (libc P) H budget \<Longrightarrow> create_backing_dir P s = (d, t) \<Longrightarrow> steady H s t"
  using create_backing_dir.core [of s P] create_backing_dir_fresh(1) [of P H budget s d t]
  by (simp add: steady_def)

lemma steady_malloc:
  assumes "kernel_ok (libc P) H budget" and "malloc P s = (r, t)"
  shows "r = None \<Longrightarrow> steady H s t"
    and "r = Some p \<Longrightarrow> p = next_ptr s \<and> steady H (s\<lparr>next_ptr := Suc (next_ptr s)\<rparr>) t"
  using assms(2) steady_call [OF kernel_keeps(12) [OF assms(1)], of s]
  by (auto simp: malloc_def split_beta steady_def core_eq_def calm_def split: if_split_asm)

text \<open>Closing a handle that no record of the tables belongs to.\<close>

lemma mgr_ok_close:
  assumes "mgr_ok P H s" and "core_eq s t" and "H (os s) - {h} \<subseteq> H (os t)"
    and "\<And>k. h = Descriptor k \<Longrightarrow> fd_table P s k = None" and "\<And>d. h = Stream d \<Longrightarrow> dir_table P s d = None"
  shows "mgr_ok P H t"
proof -
  have "Descriptor k \<in> H (os t)" if "fd_table P s k \<noteq> None" for k
  proof -
    have "h \<noteq> Descriptor k" using assms(4) that by metis
    then show ?thesis using mgr_okD(3) [OF assms(1) that] assms(3) by blast
  qed
  moreover have "Stream d \<in> H (os t)" if "dir_table P s d \<noteq> None" for d
  proof -
    have "h \<noteq> Stream d" using assms(5) that by metis
    then show ?thesis using mgr_okD(4) [OF assms(1) that] assms(3) by blast
  qed
  ultimately show ?thesis
    using assms(1,2) by (auto simp: mgr_ok_def core_eq_def table_defs holdings_ok_def)
qed

text \<open>A new record, put into the table after steps that allocated it and its inode.\<close>

lemma mgr_ok_fd_attach_after:
  assumes "uthash_ok (ut P)" and "mgr_ok P H s"
    and st: "steady H (s\<lparr>next_ptr := Suc (next_ptr s), live_inodes := live_inodes s + 1\<rparr>) t"
    and "fd_table P s (fd_key e) = None" and "Descriptor (fd_key e) \<in> H (os t)"
    and "mgr_data_reader s \<noteq> None"
  shows "mgr_ok P H (fd_attach P (next_ptr s) e t)"
    and "fd_table P (fd_attach P (next_ptr s) e t) = (fd_table P s)(fd_key e \<mapsto> e)"
proof -
  define u where "u = t\<lparr>next_ptr := next_ptr s, live_inodes := live_inodes s\<rparr>"
  have "steady H s u" using st by (simp add: steady_def core_eq_def calm_def u_def)
  note u = steady_mgr_ok [OF this assms(2)] steady_tables(1) [OF this] steadyD(5) [OF this]
  have e1: "next_ptr u = next_ptr s" "live_inodes u = live_inodes s" "os u = os t"
    by (simp_all add: u_def)
  have e2: "(fd_attach P (next_ptr u) e u)\<lparr>next_ptr := Suc (next_ptr u), live_inodes := live_inodes u + 1\<rparr> =
      fd_attach P (next_ptr s) e t"
    using steadyD(9,12) [OF st] by (simp add: u_def fd_attach_def)
  have e3: "fd_table P (fd_attach P (next_ptr u) e u) = fd_table P (fd_attach P (next_ptr s) e t)"
    by (simp add: fd_table_def fd_attach_def u_def)
  have "fd_table P u (fd_key e) = None" "Descriptor (fd_key e) \<in> H (os u)" "mgr_data_reader u \<noteq> None"
    using u(2,3) e1(3) assms(4-6) by simp_all
  note r = mgr_ok_fd_attach [OF assms(1) u(1) this]
  show "mgr_ok P H (fd_attach P (next_ptr s) e t)"
    using r(1) unfolding e2 .
  show "fd_table P (fd_attach P (next_ptr s) e t) = (fd_table P s)(fd_key e \<mapsto> e)"
    using r(2) unfolding e3 u(2) .
qed

text \<open>Closing a handle that was opened on the way ends no handle that was there before.\<close>

lemma steady_closed:
  assumes "steady H s t" and "h \<notin> H (os s)" and "closes H h f"
  shows "steady H s (snd (sys_call f t))"
proof -
  have "H (os s) \<subseteq> H (os (snd (sys_call f t)))"
    using steadyD(16) [OF assms(1)] closes_call(1) [OF assms(3), of t] assms(2) by blast
  moreover have "core_eq s (snd (sys_call f t))"
    using assms(1) core_eq_trans [OF _ sys_call.core [of t f], of s] by (simp add: steady_def)
  ultimately show ?thesis using steadyD(15) [OF assms(1)] by (simp add: steady_def calm_def)
qed

lemma mgr_ok_locked: "can_lock s \<Longrightarrow> mgr_ok P H s \<Longrightarrow> mgr_ok P H (sqfs_lock s)"
  by simp

section \<open>The contract of a hook\<close>

definition hook_post :: "('w, 'h) env \<Rightarrow> ('w \<Rightarrow> handle set) \<Rightarrow> ('w, 'h) proc \<Rightarrow> ('w, 'h) proc \<Rightarrow> bool" where
  "hook_post P H s t \<longleftrightarrow>
     mgr_ok P H t \<and> mutex_depth t = mutex_depth s \<and> mutex_recursive t = mutex_recursive s \<and>
     trap_kept (lib P) s t \<and> mgr_file t = mgr_file s \<and> mgr_compressor t = mgr_compressor s \<and>
     mgr_data_reader t = mgr_data_reader s \<and> live_parts t = live_parts s"

lemma steady_hook_post: "steady H s t \<Longrightarrow> mgr_ok P H s \<Longrightarrow> hook_post P H s t"
  using steady_mgr_ok [of H s t P] by (simp add: hook_post_def steadyD)

lemma hook_post_trans: "hook_post P H s t \<Longrightarrow> hook_post P H t u \<Longrightarrow> hook_post P H s u"
  using trap_kept_trans [of "lib P" s t u] by (simp add: hook_post_def)

lemma hook_post_can_lock: "hook_post P H s t \<Longrightarrow> can_lock t = can_lock s"
  by (simp add: hook_post_def can_lock_def)

lemma hook_post_errno [simp]: "hook_post P H s (t\<lparr>errno := e\<rparr>) = hook_post P H s t"
  by (simp add: hook_post_def trap_kept_def)

lemma hook_post_unlock:
  assumes "can_lock s" and "hook_post P H (sqfs_lock s) t"
  shows "hook_post P H s (sqfs_unlock t)"
  using assms by (simp add: hook_post_def trap_kept_def)

lemma hook_post_steady: "hook_post P H s t \<Longrightarrow> steady H t u \<Longrightarrow> hook_post P H s u"
  using steady_hook_post [of H t u P] hook_post_trans [of P H s t u] by (simp add: hook_post_def)

text \<open>
  Every hook, called with the invariant and with a lock it can take, returns with the
  invariant, with the lock as it was, with the image as it was, and without undefined
  behaviour or a deadlock on the way, except where the image has a name that is too long.
\<close>

locale hook =
  fixes f :: "('w, 'h) env \<Rightarrow> ('w, 'h) proc \<Rightarrow> ('w, 'h) proc"
  assumes contract: "platform_ok P H budget left \<Longrightarrow> mgr_ok P H s \<Longrightarrow> can_lock s \<Longrightarrow> hook_post P H s (f P s)"
begin

lemma repeated:
  assumes "platform_ok P H budget left" and "mgr_ok P H s" and "can_lock s"
  shows "hook_post P H s ((f P ^^ n) s)"
proof (induction n)
  case 0
  then show ?case using assms(2) by (simp add: hook_post_def)
next
  case (Suc n)
  then have "mgr_ok P H ((f P ^^ n) s)" "can_lock ((f P ^^ n) s)"
    using assms(3) hook_post_can_lock [OF Suc] by (simp_all add: hook_post_def)
  from contract [OF assms(1) this] Suc show ?case by (simp add: hook_post_trans)
qed

lemma never_traps:
  "platform_ok P H budget left \<Longrightarrow> mgr_ok P H s \<Longrightarrow> can_lock s \<Longrightarrow> \<not> long_names (lib P) \<Longrightarrow>
     trapped (f P s) = trapped s"
  using contract [of P H budget left s] by (simp add: hook_post_def trap_kept_def)

end

text \<open>An observer leaves everything of the manager as it was.\<close>

locale observer =
  fixes f :: "('w, 'h) env \<Rightarrow> ('w, 'h) proc \<Rightarrow> ('w, 'h) proc"
  assumes observes: "platform_ok P H budget left \<Longrightarrow> mgr_ok P H s \<Longrightarrow> can_lock s \<Longrightarrow> steady H s (f P s)"

sublocale observer \<subseteq> hook
proof unfold_locales
  fix P :: "('w, 'h) env" and H budget left s
  assume "platform_ok P H budget left" "mgr_ok P H s" "can_lock s"
  from observes [OF this] steady_mgr_ok [OF _ \<open>mgr_ok P H s\<close>] show "hook_post P H s (f P s)"
    by (simp add: hook_post_def steadyD)
qed

end
