(* ===== verification/File_Ops.thy ===== *)
theory File_Ops
  imports Tables
begin

text \<open>
  The hooks of \<open>src/sqfs_mgr.c\<close> on files: \<open>open\<close>, \<open>read\<close>, \<open>pread\<close>, \<open>lseek\<close>, \<open>close\<close> and their
  variants, \<open>__xstat\<close> and \<open>access\<close>. Each is the whole function: the call of the real entry
  point, the lock, the table of descriptors, the library, \<open>errno\<close> and the log. A read
  returns its result and the bytes it stored in the caller's buffer.

  A hook that calls the real function before it takes the lock or after it has released it has a
  gap in which other threads run. Its definition has what they do there as a parameter \<open>gap\<close>: the
  hook of one thread alone is the instance in which nothing happens in the gap.
\<close>

section \<open>The table of descriptors\<close>

definition find_fd :: "('w, 'h) env \<Rightarrow> int \<Rightarrow> ('w, 'h) proc \<Rightarrow> ptr option" where
  "find_fd P fd s = HASH_FIND (ut P) (fd_map s) fd"

text \<open>Inode number of a record, as the log shows it.\<close>

definition ino_text :: "FDMapEntry \<Rightarrow> string" where
  "ino_text e = show_nat (unat (base_inode_number (fd_inode e)))"

section \<open>xstat\<close>

definition xstat_amid ::
    "('w, 'h) env \<Rightarrow> (('w, 'h) proc \<Rightarrow> ('w, 'h) proc) \<Rightarrow> int \<Rightarrow> string option \<Rightarrow> bool \<Rightarrow> ('w, 'h) proc
      \<Rightarrow> (int \<times> stat option) \<times> ('w, 'h) proc" where
  "xstat_amid P gap ver pathname has_buf s =
     (case sys_call (libc_xstat (libc P) ver pathname has_buf) s of
        ((r, buf), s1) \<Rightarrow>
          if r = 0 then ((0, buf), s1)
          else
            (case sqfs_check_path_then_convert P pathname True PATH_MAX of
               Inl ret \<Rightarrow> ((-1, buf), s1\<lparr>errno := ret\<rparr>)
             | Inr relative \<Rightarrow>
                 if \<not> has_buf then ((-1, buf), s1\<lparr>errno := EFAULT\<rparr>)
                 else if ver \<noteq> 3 then
                   let s2 = log_hook P (Some ''sqfs_xstat'') (''Unsupported ver '' @ show_int ver @ nl) s1
                   in ((-1, buf), s2\<lparr>errno := EFAULT\<rparr>)
                 else
                   let s2 = sqfs_lock (gap s1)
                   in case sqfs_stat_impl P (Some relative) s2 of
                        (st, s3) \<Rightarrow>
                          let saved_errno = errno s3;
                              s4 = (sqfs_unlock s3)\<lparr>errno := saved_errno\<rparr>
                          in case st of
                               Some b \<Rightarrow> ((0, Some b), s4)
                             | None \<Rightarrow> ((-1, buf), s4)))"

definition sqfs_xstat ::
    "('w, 'h) env \<Rightarrow> int \<Rightarrow> string option \<Rightarrow> bool \<Rightarrow> ('w, 'h) proc \<Rightarrow> (int \<times> stat option) \<times> ('w, 'h) proc" where
  "sqfs_xstat P ver pathname has_buf s = xstat_amid P (\<lambda>t. t) ver pathname has_buf s"

lemmas sqfs_xstat_defs = sqfs_xstat_def xstat_amid_def

section \<open>open\<close>

definition flags_text :: "string \<Rightarrow> string \<Rightarrow> u32 \<Rightarrow> int \<Rightarrow> string" where
  "flags_text what relative flags e =
     what @ '': relative_path='' @ dquote @ relative @ dquote @ '', flags=0x'' @ show_hex flags @
     '', errno='' @ show_int e"

text \<open>The labels \<open>error_and_free_inode\<close> and \<open>error_and_free_fd\<close>.\<close>

definition open_free_inode ::
    "('w, 'h) env \<Rightarrow> string \<Rightarrow> u32 \<Rightarrow> sqfs_inode \<Rightarrow> ('w, 'h) proc \<Rightarrow> int \<times> ('w, 'h) proc" where
  "open_free_inode P relative flags inode s =
     (let s1 = sqfs_unlock (free_inode (Some inode) s);
          s2 = log_hook P (Some ''sqfs_open'') (flags_text ''failed'' relative flags (errno s1) @ nl) s1
      in (-1, s2))"

definition open_free_fd ::
    "('w, 'h) env \<Rightarrow> string \<Rightarrow> u32 \<Rightarrow> sqfs_inode \<Rightarrow> int \<Rightarrow> ('w, 'h) proc \<Rightarrow> int \<times> ('w, 'h) proc" where
  "open_free_fd P relative flags inode fd s =
     (let s1 = (case libc_close (libc P) of
                  None \<Rightarrow> set_trap Faulted s
                | Some close \<Rightarrow> snd (sys_call (close fd) s))
      in open_free_inode P relative flags inode s1)"

definition open_add_entry ::
    "('w, 'h) env \<Rightarrow> ptr \<Rightarrow> int \<Rightarrow> sqfs_inode \<Rightarrow> ('w, 'h) proc \<Rightarrow> ('w, 'h) proc" where
  "open_add_entry P p fd inode s =
     fd_attach P p \<lparr>fd_key = fd, fd_inode = inode, fd_offset = 0\<rparr> s"

text \<open>The part of \<open>sqfs_open\<close> behind the path check, from the lock on.\<close>

definition open_in_image ::
    "('w, 'h) env \<Rightarrow> string \<Rightarrow> u32 \<Rightarrow> ('w, 'h) proc \<Rightarrow> int \<times> ('w, 'h) proc" where
  "open_in_image P relative flags s =
     (case sqfs_find_inode P (Some relative) (sqfs_lock s) of
        (None, s1) \<Rightarrow>
          let find_errno = errno s1;
              s2 = sqfs_unlock s1;
              s3 = log_hook P (Some ''sqfs_open'')
                     (''sqfs_find_inode('' @ dquote @ relative @ dquote @ '') failed: errno='' @
                      show_int find_errno @ nl) s2
          in (-1, s3\<lparr>errno := find_errno\<rparr>)
      | (Some inode, s1) \<Rightarrow>
          (case create_backing_fd P flags s1 of
             (fd, s2) \<Rightarrow>
               if fd < 0 then open_free_inode P relative flags inode s2
               else
                 (case malloc P s2 of
                    (None, s3) \<Rightarrow> open_free_fd P relative flags inode fd (s3\<lparr>errno := ENOMEM\<rparr>)
                  | (Some p, s3) \<Rightarrow>
                      let s4 = (open_add_entry P p fd inode s3)\<lparr>errno := 0\<rparr>;
                          s5 = sqfs_unlock s4;
                          s6 = log_hook P (Some ''sqfs_open'')
                                 (flags_text ''ok'' relative flags (errno s5) @ '' => fd='' @
                                  show_int fd @ nl) s5
                      in (fd, s6))))"

definition open_amid ::
    "('w, 'h) env \<Rightarrow> (('w, 'h) proc \<Rightarrow> ('w, 'h) proc) \<Rightarrow> string option \<Rightarrow> u32 \<Rightarrow> u32 \<Rightarrow> ('w, 'h) proc
      \<Rightarrow> int \<times> ('w, 'h) proc" where
  "open_amid P gap pathname flags mode s =
     (let has_mode = open_flags_need_mode flags
      in case sys_call (libc_open (libc P) pathname flags (if has_mode then Some mode else None)) s of
           (fd, s1) \<Rightarrow>
             if fd \<ge> 0 then (fd, s1)
             else
               let saved_errno = errno s1
               in case sqfs_check_path_then_convert P pathname True PATH_MAX of
                    Inl ret \<Rightarrow> (-1, s1\<lparr>errno := saved_errno\<rparr>)
                  | Inr relative \<Rightarrow> open_in_image P relative flags (gap s1))"

definition sqfs_open ::
    "('w, 'h) env \<Rightarrow> string option \<Rightarrow> u32 \<Rightarrow> u32 \<Rightarrow> ('w, 'h) proc \<Rightarrow> int \<times> ('w, 'h) proc" where
  "sqfs_open P pathname flags mode s = open_amid P (\<lambda>t. t) pathname flags mode s"

lemmas sqfs_open_defs = sqfs_open_def open_amid_def

section \<open>read and pread\<close>

text \<open>A record reached through the table: a dangling entry is undefined behaviour.\<close>

definition data_read ::
    "('w, 'h) env \<Rightarrow> FDMapEntry \<Rightarrow> u64 \<Rightarrow> nat \<Rightarrow> ('w, 'h) proc \<Rightarrow> (int \<times> byte list) \<times> ('w, 'h) proc" where
  "data_read P e offset count s =
     (case mgr_data_reader s of
        None \<Rightarrow> ((-1, []), set_trap Faulted s)
      | Some r \<Rightarrow> sys_call (sqfs_data_reader_read (lib P) r (fd_inode e) offset (word_of_nat count)) s)"

definition sqfs_read ::
    "('w, 'h) env \<Rightarrow> int \<Rightarrow> nat \<Rightarrow> ('w, 'h) proc \<Rightarrow> (int \<times> byte list) \<times> ('w, 'h) proc" where
  "sqfs_read P fd count s =
     (let s1 = sqfs_lock s
      in case find_fd P fd s1 of
           None \<Rightarrow> sys_call (libc_read (libc P) fd count) (sqfs_unlock s1)
         | Some p \<Rightarrow>
             (case fd_heap s1 p of
                None \<Rightarrow> ((-1, []), set_trap Faulted s1)
              | Some found \<Rightarrow>
                  (case data_read P found (fd_offset found) count s1 of
                     ((ret, bytes), s2) \<Rightarrow>
                       if ret \<ge> 0 then
                         let s3 = log_hook P (Some ''sqfs_read'')
                                    (''ok: fd='' @ show_int fd @ '', count='' @ show_nat count @ ''@'' @
                                     show_nat (unat (fd_offset found)) @ '', inode='' @ ino_text found @
                                     '': ret='' @ show_int ret @ nl) s2;
                             s4 = s3\<lparr>fd_heap := (fd_heap s3)
                                        (p \<mapsto> found\<lparr>fd_offset := fd_offset found + word_of_int ret\<rparr>),
                                     errno := 0\<rparr>
                         in ((ret, bytes), sqfs_unlock s4)
                       else
                         let s3 = log_hook P (Some ''sqfs_read'')
                                    (''failed: fd='' @ show_int fd @ '', count='' @ show_nat count @
                                     '', inode='' @ ino_text found @ '': '' @
                                     sqfs_error_string (lib P) ret @ nl) s2
                         in ((-1, bytes), sqfs_unlock (s3\<lparr>errno := errno_from_sqfs (lib P) ret\<rparr>)))))"

definition pread_text :: "string \<Rightarrow> FDMapEntry \<Rightarrow> nat \<Rightarrow> int \<Rightarrow> string" where
  "pread_text what e count offset =
     what @ '': fd='' @ show_int (fd_key e) @ '', count='' @ show_nat count @ ''@'' @
     show_int offset @ '', inode='' @ ino_text e @ '': ''"

definition sqfs_pread_mapped ::
    "('w, 'h) env \<Rightarrow> string \<Rightarrow> FDMapEntry \<Rightarrow> nat \<Rightarrow> int \<Rightarrow> ('w, 'h) proc \<Rightarrow> (int \<times> byte list) \<times> ('w, 'h) proc" where
  "sqfs_pread_mapped P func fd_record count offset s =
     (if offset < 0 then ((-1, []), s\<lparr>errno := EINVAL\<rparr>)
      else
        (case data_read P fd_record (word_of_int offset) count s of
           ((ret, bytes), s1) \<Rightarrow>
             if ret \<ge> 0 then
               let s2 = log_hook P (Some func)
                          (pread_text ''ok'' fd_record count offset @ ''ret='' @ show_int ret @ nl) s1
               in ((ret, bytes), s2\<lparr>errno := 0\<rparr>)
             else
               let s2 = log_hook P (Some func)
                          (pread_text ''failed'' fd_record count offset @
                           sqfs_error_string (lib P) ret @ nl) s1
               in ((-1, bytes), s2\<lparr>errno := errno_from_sqfs (lib P) ret\<rparr>)))"

definition sqfs_pread ::
    "('w, 'h) env \<Rightarrow> int \<Rightarrow> nat \<Rightarrow> int \<Rightarrow> ('w, 'h) proc \<Rightarrow> (int \<times> byte list) \<times> ('w, 'h) proc" where
  "sqfs_pread P fd count offset s =
     (let s1 = sqfs_lock s
      in case find_fd P fd s1 of
           None \<Rightarrow> sys_call (libc_pread (libc P) fd count offset) (sqfs_unlock s1)
         | Some p \<Rightarrow>
             (case fd_heap s1 p of
                None \<Rightarrow> ((-1, []), set_trap Faulted s1)
              | Some found \<Rightarrow>
                  (case sqfs_pread_mapped P ''sqfs_pread'' found count offset s1 of
                     (result, s2) \<Rightarrow> (result, sqfs_unlock s2))))"

definition sqfs_pread64 ::
    "('w, 'h) env \<Rightarrow> int \<Rightarrow> nat \<Rightarrow> int \<Rightarrow> ('w, 'h) proc \<Rightarrow> (int \<times> byte list) \<times> ('w, 'h) proc" where
  "sqfs_pread64 P fd count offset s =
     (let s1 = sqfs_lock s
      in case find_fd P fd s1 of
           None \<Rightarrow>
             let s2 = sqfs_unlock s1
             in (case libc_pread64 (libc P) of
                   Some pread64 \<Rightarrow> sys_call (pread64 fd count offset) s2
                 | None \<Rightarrow> ((-1, []), s2\<lparr>errno := ENOSYS\<rparr>))
         | Some p \<Rightarrow>
             (case fd_heap s1 p of
                None \<Rightarrow> ((-1, []), set_trap Faulted s1)
              | Some found \<Rightarrow>
                  (case sqfs_pread_mapped P ''sqfs_pread64'' found count offset s1 of
                     (result, s2) \<Rightarrow> (result, sqfs_unlock s2))))"

section \<open>lseek\<close>

definition lseek_text :: "string \<Rightarrow> FDMapEntry \<Rightarrow> int \<Rightarrow> int \<Rightarrow> string" where
  "lseek_text what e offset whence =
     what @ '': fd='' @ show_int (fd_key e) @ '', offset='' @ show_int offset @
     '', whence='' @ show_int whence @ '', old='' @ show_nat (unat (fd_offset e))"

text \<open>
  \<open>fd_record\<close> is the entry at the address \<open>p\<close>. The first result is 0 or -1, the second the
  value of \<open>*new_offset\<close>.
\<close>

definition sqfs_lseek_mapped ::
    "('w, 'h) env \<Rightarrow> string \<Rightarrow> ptr \<Rightarrow> FDMapEntry \<Rightarrow> int \<Rightarrow> int \<Rightarrow> u64 \<Rightarrow> ('w, 'h) proc
      \<Rightarrow> (int \<times> u64) \<times> ('w, 'h) proc" where
  "sqfs_lseek_mapped P func p fd_record offset whence max_return s =
     (case sqfs_seek_calculate (lib P) fd_record (word_of_int offset) whence of
        Inl err \<Rightarrow>
          let s1 = s\<lparr>errno := err\<rparr>;
              s2 = log_hook P (Some func)
                     (lseek_text ''failed'' fd_record offset whence @ '', inode='' @ ino_text fd_record @
                      '', errno='' @ show_int err @ nl) s1
          in ((-1, 0), s2)
      | Inr new_offset \<Rightarrow>
          if new_offset > max_return then
            let s1 = s\<lparr>errno := EOVERFLOW\<rparr>;
                s2 = log_hook P (Some func)
                       (lseek_text ''failed'' fd_record offset whence @ '', new='' @
                        show_nat (unat new_offset) @ '', inode='' @ ino_text fd_record @
                        '', errno='' @ show_int EOVERFLOW @ nl) s1
            in ((-1, new_offset), s2)
          else
            let s1 = s\<lparr>fd_heap := (fd_heap s)(p \<mapsto> fd_record\<lparr>fd_offset := new_offset\<rparr>), errno := 0\<rparr>;
                s2 = log_hook P (Some func)
                       (lseek_text ''ok'' fd_record offset whence @ '', new='' @
                        show_nat (unat new_offset) @ '', inode='' @ ino_text fd_record @ nl) s1
            in ((0, new_offset), s2))"

definition sqfs_lseek ::
    "('w, 'h) env \<Rightarrow> int \<Rightarrow> int \<Rightarrow> int \<Rightarrow> ('w, 'h) proc \<Rightarrow> int \<times> ('w, 'h) proc" where
  "sqfs_lseek P fd offset whence s =
     (let s1 = sqfs_lock s
      in case find_fd P fd s1 of
           None \<Rightarrow> sys_call (libc_lseek (libc P) fd offset whence) (sqfs_unlock s1)
         | Some p \<Rightarrow>
             (case fd_heap s1 p of
                None \<Rightarrow> (-1, set_trap Faulted s1)
              | Some found \<Rightarrow>
                  (case sqfs_lseek_mapped P ''sqfs_lseek'' p found offset whence
                          (max_signed_value_for_size (sizeof_long (cfg P))) s1 of
                     ((ret, new_offset), s2) \<Rightarrow>
                       if ret \<noteq> 0 then (-1, sqfs_unlock s2)
                       else (long_cast (cfg P) (uint new_offset), sqfs_unlock s2))))"

definition sqfs_lseek64 ::
    "('w, 'h) env \<Rightarrow> int \<Rightarrow> int \<Rightarrow> int \<Rightarrow> ('w, 'h) proc \<Rightarrow> int \<times> ('w, 'h) proc" where
  "sqfs_lseek64 P fd offset whence s =
     (let s1 = sqfs_lock s
      in case find_fd P fd s1 of
           None \<Rightarrow>
             let s2 = sqfs_unlock s1
             in (case libc_lseek64 (libc P) of
                   Some lseek64 \<Rightarrow> sys_call (lseek64 fd offset whence) s2
                 | None \<Rightarrow> (-1, s2\<lparr>errno := ENOSYS\<rparr>))
         | Some p \<Rightarrow>
             (case fd_heap s1 p of
                None \<Rightarrow> (-1, set_trap Faulted s1)
              | Some found \<Rightarrow>
                  (case sqfs_lseek_mapped P ''sqfs_lseek64'' p found offset whence
                          0x7FFFFFFFFFFFFFFF s1 of
                     ((ret, new_offset), s2) \<Rightarrow>
                       if ret \<noteq> 0 then (-1, sqfs_unlock s2)
                       else (sint new_offset, sqfs_unlock s2))))"

section \<open>close\<close>

definition sqfs_close_impl ::
    "('w, 'h) env \<Rightarrow> (('w, 'h) proc \<Rightarrow> ('w, 'h) proc) \<Rightarrow> string \<Rightarrow> int \<Rightarrow> (int \<Rightarrow> ('w, int) sys) option \<Rightarrow> ('w, 'h) proc \<Rightarrow> int \<times> ('w, 'h) proc" where
  "sqfs_close_impl P gap func fd real_close s =
     (case real_close of
        None \<Rightarrow> (-1, s\<lparr>errno := ENOSYS\<rparr>)
      | Some close \<Rightarrow>
          let s1 = sqfs_lock s
          in (case find_fd P fd s1 of
                None \<Rightarrow> sys_call (close fd) (gap (sqfs_unlock s1))
              | Some p \<Rightarrow>
                  (case fd_heap s1 p of
                     None \<Rightarrow> (-1, set_trap Faulted s1)
                   | Some found \<Rightarrow>
                       let s2 = s1\<lparr>fd_map := HASH_DEL (ut P) (fd_key found) p (fd_map s1)\<rparr>;
                           s3 = free_inode (Some (fd_inode found)) s2;
                           s4 = s3\<lparr>fd_heap := (fd_heap s3)(p := None)\<rparr>;
                           s5 = sqfs_unlock s4
                       in case sys_call (close fd) (gap s5) of
                            (ret, s6) \<Rightarrow>
                              let saved_errno = errno s6;
                                  s7 = log_hook P (Some func)
                                         (''fd='' @ show_int fd @ '', inode='' @ ino_text found @
                                          '', ret='' @ show_int ret @ '', errno='' @
                                          show_int (if ret = 0 then 0 else saved_errno) @ nl) s6
                              in (ret, s7\<lparr>errno := saved_errno\<rparr>))))"

definition sqfs_close :: "('w, 'h) env \<Rightarrow> int \<Rightarrow> ('w, 'h) proc \<Rightarrow> int \<times> ('w, 'h) proc" where
  "sqfs_close P fd s = sqfs_close_impl P (\<lambda>t. t) ''sqfs_close'' fd (libc_close (libc P)) s"

definition sqfs_close_nocancel :: "('w, 'h) env \<Rightarrow> int \<Rightarrow> ('w, 'h) proc \<Rightarrow> int \<times> ('w, 'h) proc" where
  "sqfs_close_nocancel P fd s =
     (let real_close = (if libc_close_nocancel (libc P) \<noteq> None
                        then libc_close_nocancel (libc P) else libc_close (libc P))
      in sqfs_close_impl P (\<lambda>t. t) ''sqfs_close_nocancel'' fd real_close s)"

section \<open>access\<close>

text \<open>The label \<open>return_err\<close>, with the mode that \<open>st\<close> holds.\<close>

definition access_text :: "string \<Rightarrow> string option \<Rightarrow> u32 \<Rightarrow> string" where
  "access_text what pathname mode =
     what @ (case pathname of Some path \<Rightarrow> path | None \<Rightarrow> ''(null)'') @ dquote @ '', mode='' @
     show_int (sint mode)"

definition access_denied ::
    "('w, 'h) env \<Rightarrow> string option \<Rightarrow> u32 \<Rightarrow> u32 \<Rightarrow> ('w, 'h) proc \<Rightarrow> int \<times> ('w, 'h) proc" where
  "access_denied P pathname mode m s =
     (case sqfs_check_path_then_convert P pathname False 0 of
        Inl ret \<Rightarrow> (-1, s)
      | Inr relative \<Rightarrow>
          (-1, log_hook P (Some ''sqfs_access'')
                 (access_text (''denied: path='' @ dquote) pathname mode @ '', st_mode='' @ show_oct m @
                  '', errno='' @ show_int (errno s) @ nl) s))"

definition access_amid ::
    "('w, 'h) env \<Rightarrow> (('w, 'h) proc \<Rightarrow> ('w, 'h) proc) \<Rightarrow> string option \<Rightarrow> u32 \<Rightarrow> ('w, 'h) proc
      \<Rightarrow> int \<times> ('w, 'h) proc" where
  "access_amid P gap pathname mode s =
     (case sys_call (libc_access (libc P) pathname mode) s of
        (r, s1) \<Rightarrow>
          if r = 0 then
            (case sqfs_check_path_then_convert P pathname False 0 of
               Inl ret \<Rightarrow> (0, s1)
             | Inr relative \<Rightarrow>
                 (0, log_hook P (Some ''sqfs_access'')
                       (access_text (''granted: g_xLibcFuncs.access(path='' @ dquote) pathname mode @
                        '')'' @ nl) s1))
          else
            (case sqfs_check_path_then_convert P pathname True PATH_MAX of
               Inl ret \<Rightarrow> access_denied P pathname mode 0 (s1\<lparr>errno := ret\<rparr>)
             | Inr relative \<Rightarrow>
                 (case sqfs_stat_impl P (Some relative) (sqfs_lock (gap s1)) of
                    (st, s2) \<Rightarrow>
                      let saved_errno = errno s2;
                          s3 = sqfs_unlock s2
                      in case st of
                           None \<Rightarrow> access_denied P pathname mode 0 (s3\<lparr>errno := saved_errno\<rparr>)
                         | Some b \<Rightarrow>
                             let err = access_decision mode (st_mode b)
                             in if err \<noteq> 0 then
                                  access_denied P pathname mode (st_mode b) (s3\<lparr>errno := err\<rparr>)
                                else
                                  (0, log_hook P (Some ''sqfs_access'')
                                        (access_text (''granted: path='' @ dquote) pathname mode @
                                         '', st_mode='' @ show_oct (st_mode b) @ nl) s3))))"

definition sqfs_access ::
    "('w, 'h) env \<Rightarrow> string option \<Rightarrow> u32 \<Rightarrow> ('w, 'h) proc \<Rightarrow> int \<times> ('w, 'h) proc" where
  "sqfs_access P pathname mode s = access_amid P (\<lambda>t. t) pathname mode s"

lemmas sqfs_access_defs = sqfs_access_def access_amid_def

section \<open>Calls on descriptors that are not in the table\<close>

lemma find_fd_locked [simp]: "can_lock s \<Longrightarrow> find_fd P fd (sqfs_lock s) = find_fd P fd s"
  by (simp add: find_fd_def)

lemma find_fd_table:
  assumes "mgr_ok P H s"
  shows "find_fd P fd s = None \<longleftrightarrow> fd_table P s fd = None"
  using entry_at_None [OF mgr_okD(1) [OF assms]] by (simp add: find_fd_def fd_table_def)

lemma find_fd_entry:
  assumes "mgr_ok P H s" and "find_fd P fd s = Some p"
  obtains e r where "fd_heap s p = Some e" "fd_key e = fd" "fd_table P s fd = Some e"
    "mgr_data_reader s = Some r"
proof -
  obtain e where e: "fd_heap s p = Some e" "fd_key e = fd" "fd_table P s fd = Some e"
    using table_ok_find [OF mgr_okD(1) [OF assms(1)]] assms(2) by (metis fd_table_def find_fd_def)
  moreover obtain r where "mgr_data_reader s = Some r"
    using mgr_okD(6) [OF assms(1) e(1)] by blast
  ultimately show thesis using that by blast
qed

lemma close_impl_missing [simp]: "sqfs_close_impl P gap func fd None s = (-1, s\<lparr>errno := ENOSYS\<rparr>)"
  by (simp add: sqfs_close_impl_def)

lemma unmapped_calls:
  assumes "can_lock s" and "find_fd P fd s = None"
  shows "sqfs_read P fd count s = sys_call (libc_read (libc P) fd count) s"
    "sqfs_pread P fd count off s = sys_call (libc_pread (libc P) fd count off) s"
    "sqfs_pread64 P fd count off s =
       (case libc_pread64 (libc P) of
          Some pread64 \<Rightarrow> sys_call (pread64 fd count off) s | None \<Rightarrow> ((-1, []), s\<lparr>errno := ENOSYS\<rparr>))"
    "sqfs_lseek P fd off whence s = sys_call (libc_lseek (libc P) fd off whence) s"
    "sqfs_lseek64 P fd off whence s =
       (case libc_lseek64 (libc P) of
          Some lseek64 \<Rightarrow> sys_call (lseek64 fd off whence) s | None \<Rightarrow> (-1, s\<lparr>errno := ENOSYS\<rparr>))"
    "sqfs_close_impl P gap func fd (Some close) s = sys_call (close fd) (gap s)"
  using assms
  by (simp_all add: sqfs_read_def sqfs_pread_def sqfs_pread64_def sqfs_lseek_def sqfs_lseek64_def
      sqfs_close_impl_def find_fd_def)

end
