(* ===== verification/File_Spec.thy ===== *)
theory File_Spec
  imports File_Ops
begin

text \<open>
  What the hooks on files do, in terms of the abstract table \<^term>\<open>fd_table\<close> from descriptors to
  open files of the image: each hook fulfils the contract of \<open>Tables\<close>, and its effect on the
  table, its result and \<open>errno\<close> are those of a read-only file system.
\<close>

section \<open>Steps inside a locked region\<close>

lemma hook_post_locked: "can_lock s \<Longrightarrow> mgr_ok P H s \<Longrightarrow> steady H (sqfs_lock s) t \<Longrightarrow> hook_post P H s (sqfs_unlock t)"
  using hook_post_unlock [of s P H t] steady_hook_post [of H "sqfs_lock s" t P] by simp

lemma hook_post_fd_store:
  assumes "hook_post P H s t" and "fd_heap t p = Some e" and "fd_key e' = fd_key e"
  shows "hook_post P H s (fd_store p e' t)"
proof -
  have "mgr_ok P H t" using assms(1) by (simp add: hook_post_def)
  from mgr_ok_fd_store(1) [OF this assms(2,3)] assms(1) show ?thesis
    by (simp add: hook_post_def trap_kept_def fd_store_def)
qed

section \<open>xstat and access look but do not touch\<close>

lemma xstat_steady:
  assumes ok: "platform_ok P H budget left" and lk: "can_lock s"
  shows "steady H s (snd (sqfs_xstat P ver path b s))"
proof -
  note K = platform_okD(2) [OF ok] and Q = platform_okD(3) [OF ok]
  obtain r buf s1 where c: "sys_call (libc_xstat (libc P) ver path b) s = ((r, buf), s1)"
    by (metis surj_pair)
  have s1: "steady H s s1" using kernel_keeps(7) [OF K] c by (rule steady_call')
  have lk1: "can_lock s1" using lk steadyD(1,2) [OF s1] by (simp add: can_lock_def)
  have st: "steady H s (sqfs_unlock t)" if "sqfs_stat_impl P rel (sqfs_lock s1) = (st, t)" for rel st t
    using steady_trans [OF s1 steady_unlock [OF lk1 steady_stat [OF Q that]]] .
  have lg: "steady H s (log_hook P f m s1)" for f m
    using steady_trans [OF s1 steady_log_hook [OF K]] .
  show ?thesis
    using c s1 st lg
    by (auto simp: sqfs_xstat_defs Let_def split: sum.split prod.split option.split)
qed

interpretation xstat: observer "\<lambda>P s. snd (sqfs_xstat P ver path b s)" for ver path b
  by unfold_locales (rule xstat_steady)

lemma access_denied_steady:
  "kernel_ok (libc P) H budget \<Longrightarrow> steady H s (snd (access_denied P path mode m s))"
  using steady_log_hook [of P H budget s] by (auto simp: access_denied_def split: sum.split)

lemma access_steady:
  assumes ok: "platform_ok P H budget left" and lk: "can_lock s"
  shows "steady H s (snd (sqfs_access P path mode s))"
proof -
  note K = platform_okD(2) [OF ok] and Q = platform_okD(3) [OF ok]
  obtain r s1 where c: "sys_call (libc_access (libc P) path mode) s = (r, s1)"
    by (cases "sys_call (libc_access (libc P) path mode) s")
  have s1: "steady H s s1" using kernel_keeps(6) [OF K] c by (rule steady_call')
  have lk1: "can_lock s1" using lk steadyD(1,2) [OF s1] by (simp add: can_lock_def)
  have st: "steady H s (sqfs_unlock t)" if "sqfs_stat_impl P rel (sqfs_lock s1) = (st, t)" for rel st t
    using steady_trans [OF s1 steady_unlock [OF lk1 steady_stat [OF Q that]]] .
  have lg: "steady H s (log_hook P f m t)" if "steady H s t" for f m t
    using steady_trans [OF that steady_log_hook [OF K]] .
  have dn: "steady H s (snd (access_denied P path mode m (t\<lparr>errno := e\<rparr>)))" if "steady H s t" for m t e
    using that by (intro steady_trans [OF _ access_denied_steady [OF K]]) simp
  show ?thesis
    using c s1 st lg dn
    by (auto simp: sqfs_access_defs Let_def split: sum.split prod.split option.split)
qed

interpretation access: observer "\<lambda>P s. snd (sqfs_access P path mode s)" for path mode
  by unfold_locales (rule access_steady)

section \<open>Reading\<close>

text \<open>The call of the data reader, on the locked state.\<close>

lemma data_call_steady:
  assumes "platform_ok P H budget left"
    and "sys_call (sqfs_data_reader_read (lib P) r i off n) s = (res, t)"
  shows "steady H s t"
  using lib_keepsD(7) [OF platform_okD(3) [OF assms(1)]] assms(2) by (rule steady_call')

lemma read_mapped:
  assumes "can_lock s" and "find_fd P fd s = Some p" and "fd_heap s p = Some e"
    and "mgr_data_reader s = Some r"
    and "sys_call (sqfs_data_reader_read (lib P) r (fd_inode e) (fd_offset e) (word_of_nat count)) (sqfs_lock s)
      = ((ret, bytes), t)"
  shows "\<exists>m. sqfs_read P fd count s =
    (if ret \<ge> 0
     then ((ret, bytes), sqfs_unlock ((fd_store p (e\<lparr>fd_offset := fd_offset e + word_of_int ret\<rparr>)
            (log_hook P (Some ''sqfs_read'') m t))\<lparr>errno := 0\<rparr>))
     else ((-1, bytes), sqfs_unlock ((log_hook P (Some ''sqfs_read'') m t)\<lparr>errno := errno_from_sqfs (lib P) ret\<rparr>)))"
  using assms by (auto simp: sqfs_read_def data_read_def fd_store_def find_fd_def Let_def)

lemma pread_mapped_eq:
  assumes "mgr_data_reader s = Some r" and "0 \<le> off"
    and "sys_call (sqfs_data_reader_read (lib P) r (fd_inode e) (word_of_int off) (word_of_nat count)) s
      = ((ret, bytes), t)"
  shows "\<exists>m. sqfs_pread_mapped P func e count off s =
    (if ret \<ge> 0 then ((ret, bytes), (log_hook P (Some func) m t)\<lparr>errno := 0\<rparr>)
     else ((-1, bytes), (log_hook P (Some func) m t)\<lparr>errno := errno_from_sqfs (lib P) ret\<rparr>))"
  using assms by (auto simp: sqfs_pread_mapped_def data_read_def Let_def)

lemma pread_mapped_steady:
  assumes ok: "platform_ok P H budget left" and "mgr_data_reader s = Some r"
  shows "steady H s (snd (sqfs_pread_mapped P func e count off s))"
proof (cases "off < 0")
  case False
  obtain ret bytes t where c: "sys_call (sqfs_data_reader_read (lib P) r (fd_inode e) (word_of_int off) (word_of_nat count)) s
      = ((ret, bytes), t)" by (metis surj_pair)
  have "steady H s (log_hook P (Some func) m t)" for m
    using steady_trans [OF data_call_steady [OF ok c] steady_log_hook [OF platform_okD(2) [OF ok]]] .
  with pread_mapped_eq [OF assms(2) _ c, of func] False show ?thesis by (auto split: if_splits)
qed (simp add: sqfs_pread_mapped_def)

lemma pread_steady:
  assumes ok: "platform_ok P H budget left" and inv: "mgr_ok P H s" and lk: "can_lock s"
  shows "steady H s (snd (sqfs_pread P fd count off s))" and "steady H s (snd (sqfs_pread64 P fd count off s))"
proof -
  note K = platform_okD(2) [OF ok]
  have "steady H s (snd (sqfs_pread P fd count off s)) \<and> steady H s (snd (sqfs_pread64 P fd count off s))"
  proof (cases "find_fd P fd s")
    case None
    then show ?thesis
      using unmapped_calls(2,3) [OF lk None]
      by (auto split: option.split intro!: steady_call kernel_keeps(3) [OF K] kernel_okD(9) [OF K])
  next
    case (Some p)
    then obtain e r where e: "fd_heap s p = Some e" "mgr_data_reader s = Some r"
      by (rule find_fd_entry [OF inv])
    have "steady H s (sqfs_unlock (snd (sqfs_pread_mapped P func e count off (sqfs_lock s))))" for func
      using steady_unlock [OF lk pread_mapped_steady [OF ok]] e(2) lk by simp
    then show ?thesis
      using Some e lk by (simp add: sqfs_pread_def sqfs_pread64_def split_beta find_fd_def Let_def)
  qed
  then show "steady H s (snd (sqfs_pread P fd count off s))" and "steady H s (snd (sqfs_pread64 P fd count off s))"
    by simp_all
qed

interpretation pread: observer "\<lambda>P s. snd (sqfs_pread P fd count off s)" for fd count off
  by unfold_locales (rule pread_steady)

interpretation pread64: observer "\<lambda>P s. snd (sqfs_pread64 P fd count off s)" for fd count off
  by unfold_locales (rule pread_steady)

lemma read_contract:
  assumes ok: "platform_ok P H budget left" and inv: "mgr_ok P H s" and lk: "can_lock s"
  shows "hook_post P H s (snd (sqfs_read P fd count s))"
proof (cases "find_fd P fd s")
  case None
  then show ?thesis
    using unmapped_calls(1) [OF lk None] steady_call [OF kernel_keeps(2) [OF platform_okD(2) [OF ok]]]
      steady_hook_post inv by metis
next
  case (Some p)
  then obtain e r where e: "fd_heap s p = Some e" "mgr_data_reader s = Some r"
    by (rule find_fd_entry [OF inv])
  obtain ret bytes t where c: "sys_call (sqfs_data_reader_read (lib P) r (fd_inode e) (fd_offset e)
      (word_of_nat count)) (sqfs_lock s) = ((ret, bytes), t)" by (metis surj_pair)
  obtain m where eq: "sqfs_read P fd count s =
    (if ret \<ge> 0
     then ((ret, bytes), sqfs_unlock ((fd_store p (e\<lparr>fd_offset := fd_offset e + word_of_int ret\<rparr>)
            (log_hook P (Some ''sqfs_read'') m t))\<lparr>errno := 0\<rparr>))
     else ((-1, bytes), sqfs_unlock ((log_hook P (Some ''sqfs_read'') m t)\<lparr>errno := errno_from_sqfs (lib P) ret\<rparr>)))"
    using read_mapped [OF lk Some e c] by blast
  define u where "u = log_hook P (Some ''sqfs_read'') m t"
  have u: "steady H (sqfs_lock s) u"
    unfolding u_def using steady_trans [OF data_call_steady [OF ok c] steady_log_hook [OF platform_okD(2) [OF ok]]] .
  then have "hook_post P H (sqfs_lock s) u" using inv lk by (intro steady_hook_post) simp_all
  moreover have "fd_heap u p = Some e" using steadyD(10) [OF u] e(1) lk by simp
  ultimately have "hook_post P H s (sqfs_unlock ((fd_store p (e\<lparr>fd_offset := fd_offset e + word_of_int ret\<rparr>) u)\<lparr>errno := 0\<rparr>))"
    and "hook_post P H s (sqfs_unlock (u\<lparr>errno := errno_from_sqfs (lib P) ret\<rparr>))"
    using lk by (auto intro!: hook_post_unlock hook_post_fd_store)
  then show ?thesis by (simp add: eq u_def)
qed

interpretation read: hook "\<lambda>P s. snd (sqfs_read P fd count s)" for fd count
  by unfold_locales (rule read_contract)

section \<open>Seeking\<close>

lemma lseek_mapped_fails:
  "seek_target (lib P) e (word_of_int off) whence lim = Inl err \<Longrightarrow>
     \<exists>m x. sqfs_lseek_mapped P func p e off whence lim s =
       ((-1, x), log_hook P (Some func) m (s\<lparr>errno := err\<rparr>))"
  by (auto simp: sqfs_lseek_mapped_def seek_target_def Let_def split: sum.splits if_splits)

lemma lseek_mapped_moves:
  "seek_target (lib P) e (word_of_int off) whence lim = Inr n \<Longrightarrow>
     \<exists>m. sqfs_lseek_mapped P func p e off whence lim s =
       ((0, n), log_hook P (Some func) m ((fd_store p (e\<lparr>fd_offset := n\<rparr>) s)\<lparr>errno := 0\<rparr>))"
  by (auto simp: sqfs_lseek_mapped_def seek_target_def fd_store_def Let_def split: sum.splits if_splits)

lemma lseek_mapped_contract:
  assumes ok: "platform_ok P H budget left" and inv: "mgr_ok P H s" and e: "fd_heap s p = Some e"
  shows "hook_post P H s (snd (sqfs_lseek_mapped P func p e off whence lim s))"
proof -
  have self: "hook_post P H s s" using inv by (simp add: hook_post_def)
  have st: "hook_post P H s (fd_store p (e\<lparr>fd_offset := n\<rparr>) s)" for n
    using hook_post_fd_store [OF self e, of "e\<lparr>fd_offset := n\<rparr>"] by simp
  have lg: "hook_post P H s (log_hook P (Some func) m (t\<lparr>errno := n\<rparr>))" if "hook_post P H s t" for m t n
    using that by (intro hook_post_steady [OF _ steady_log_hook [OF platform_okD(2) [OF ok]]]) simp
  show ?thesis
  proof (cases "seek_target (lib P) e (word_of_int off) whence lim")
    case (Inl err)
    then show ?thesis using lseek_mapped_fails [OF Inl, of func p s] lg [OF self] by auto
  next
    case (Inr n)
    then show ?thesis using lseek_mapped_moves [OF Inr, of func p s] lg [OF st] by auto
  qed
qed

lemma lseek_contract:
  assumes ok: "platform_ok P H budget left" and inv: "mgr_ok P H s" and lk: "can_lock s"
  shows "hook_post P H s (snd (sqfs_lseek P fd off whence s))"
    and "hook_post P H s (snd (sqfs_lseek64 P fd off whence s))"
proof -
  note K = platform_okD(2) [OF ok]
  have "hook_post P H s (snd (sqfs_lseek P fd off whence s)) \<and>
    hook_post P H s (snd (sqfs_lseek64 P fd off whence s))"
  proof (cases "find_fd P fd s")
    case None
    then show ?thesis
      using unmapped_calls(4,5) [OF lk None] inv
      by (auto split: option.split
          intro!: steady_hook_post steady_call kernel_keeps(4) [OF K] kernel_okD(10) [OF K])
  next
    case (Some p)
    then obtain e r where e: "fd_heap s p = Some e" by (rule find_fd_entry [OF inv])
    have "hook_post P H (sqfs_lock s) (snd (sqfs_lseek_mapped P func p e off whence lim (sqfs_lock s)))" for func lim
      using inv lk e by (intro lseek_mapped_contract [OF ok]) simp_all
    then have "hook_post P H s (sqfs_unlock (snd (sqfs_lseek_mapped P func p e off whence lim (sqfs_lock s))))" for func lim
      using lk by (intro hook_post_unlock)
    then show ?thesis
      using Some e lk by (simp add: sqfs_lseek_def sqfs_lseek64_def split_beta find_fd_def Let_def)
  qed
  then show "hook_post P H s (snd (sqfs_lseek P fd off whence s))"
    and "hook_post P H s (snd (sqfs_lseek64 P fd off whence s))" by simp_all
qed

interpretation lseek: hook "\<lambda>P s. snd (sqfs_lseek P fd off whence s)" for fd off whence
  by unfold_locales (rule lseek_contract)

interpretation lseek64: hook "\<lambda>P s. snd (sqfs_lseek64 P fd off whence s)" for fd off whence
  by unfold_locales (rule lseek_contract)

section \<open>Closing\<close>

text \<open>The table part of a close: what is left of the record when the lock is released.\<close>

definition close_detached :: "('w, 'h) env \<Rightarrow> ptr \<Rightarrow> FDMapEntry \<Rightarrow> ('w, 'h) proc \<Rightarrow> ('w, 'h) proc" where
  "close_detached P p e s =
     s\<lparr>fd_map := HASH_DEL (ut P) (fd_key e) p (fd_map s), live_inodes := live_inodes s - 1,
       fd_heap := (fd_heap s)(p := None)\<rparr>"

lemma close_detached_detach:
  "close_detached P p e s = (fd_detach P p e s)\<lparr>live_inodes := live_inodes s - 1\<rparr>"
  by (rule proc.equality) (simp_all add: close_detached_def fd_detach_def)

lemma close_mapped:
  assumes "can_lock s" and "find_fd P fd s = Some p" and "fd_heap s p = Some e"
    and "sys_call (close fd) (gap (close_detached P p e s)) = (ret, t)"
  shows "\<exists>m. sqfs_close_impl P gap func fd (Some close) s = (ret, (log_hook P (Some func) m t)\<lparr>errno := errno t\<rparr>)"
  using assms by (auto simp: sqfs_close_impl_def find_fd_def free_inode_def close_detached_def Let_def)

lemma close_impl_contract:
  assumes ok: "platform_ok P H budget left" and inv: "mgr_ok P H s" and lk: "can_lock s"
    and cl: "\<And>fd. closes H (Descriptor fd) (close fd)"
  shows "hook_post P H s (snd (sqfs_close_impl P (\<lambda>t. t) func fd (Some close) s))"
proof (cases "find_fd P fd s")
  case None
  then have "mgr_ok P H (snd (sys_call (close fd) s))"
    using mgr_ok_close [OF inv sys_call.core closes_call(1) [OF cl]] find_fd_table [OF inv] by auto
  then show ?thesis
    using unmapped_calls(6) [OF lk None] by (simp add: hook_post_def)
next
  case (Some p)
  then obtain e r where e: "fd_heap s p = Some e" "fd_key e = fd" by (rule find_fd_entry [OF inv])
  define u where "u = close_detached P p e s"
  obtain ret t where c: "sys_call (close fd) u = (ret, t)" by (cases "sys_call (close fd) u")
  have "mgr_ok P H u" and gone: "fd_table P u fd = None"
    using mgr_ok_fd_detach [OF platform_okD(1) [OF ok] inv e(1)] e(2)
    by (simp_all add: u_def close_detached_detach fd_table_def fd_detach_def)
  then have "mgr_ok P H t"
    using mgr_ok_close [OF _ sys_call_core [OF c]] closes_call(1) [OF cl, of u fd] c by auto
  then have "hook_post P H s t"
    using sys_call_core [OF c] sys_call_trapped [OF c]
    by (simp add: hook_post_def core_eq_def u_def close_detached_def fd_detach_def)
  then have "hook_post P H s (log_hook P (Some func) m t)" for m
    by (rule hook_post_steady) (rule steady_log_hook [OF platform_okD(2) [OF ok]])
  with close_mapped [OF lk Some e(1), of close "\<lambda>t. t" ret t func] c show ?thesis by (auto simp: u_def)
qed

lemma close_contract:
  assumes "platform_ok P H budget left" and "mgr_ok P H s" and "can_lock s"
  shows "hook_post P H s (snd (sqfs_close P fd s))" and "hook_post P H s (snd (sqfs_close_nocancel P fd s))"
proof -
  note K = platform_okD(2) [OF assms(1)]
  obtain close where close: "libc_close (libc P) = Some close" using kernel_okD(2) [OF K] by blast
  have 1: "hook_post P H s (snd (sqfs_close_impl P (\<lambda>t. t) func fd (Some close) s))" for func
    using assms kernel_okD(6) [OF K close] by (intro close_impl_contract)
  then show "hook_post P H s (snd (sqfs_close P fd s))" by (simp add: sqfs_close_def close)
  have "hook_post P H s (snd (sqfs_close_impl P (\<lambda>t. t) func fd (Some close') s))"
    if "libc_close_nocancel (libc P) = Some close'" for func close'
    using assms kernel_okD(7) [OF K that] by (intro close_impl_contract)
  with 1 show "hook_post P H s (snd (sqfs_close_nocancel P fd s))"
    by (cases "libc_close_nocancel (libc P)") (simp_all add: sqfs_close_nocancel_def close)
qed

interpretation close: hook "\<lambda>P s. snd (sqfs_close P fd s)" for fd
  by unfold_locales (rule close_contract)

interpretation close_nocancel: hook "\<lambda>P s. snd (sqfs_close_nocancel P fd s)" for fd
  by unfold_locales (rule close_contract)

section \<open>Opening\<close>

lemma steady_free_inode:
  "steady H (s\<lparr>live_inodes := live_inodes s + 1\<rparr>) t \<Longrightarrow> steady H s (free_inode (Some i) t)"
  by (simp add: steady_def core_eq_def calm_def free_inode_def)

definition open_effect :: "('w, 'h) env \<Rightarrow> ('w \<Rightarrow> handle set) \<Rightarrow> string \<Rightarrow> ('w, 'h) proc \<Rightarrow> int \<times> ('w, 'h) proc \<Rightarrow> bool" where
  "open_effect P H relative s r \<longleftrightarrow>
     hook_post P H s (snd r) \<and> dir_table P (snd r) = dir_table P s \<and> H (os s) \<subseteq> H (os (snd r)) \<and>
     (if fst r < 0
      then fst r = -1 \<and> fd_table P (snd r) = fd_table P s \<and> live_inodes (snd r) = live_inodes s
      else \<exists>inode s1. sqfs_find_inode P (Some relative) (sqfs_lock s) = (Some inode, s1) \<and>
        fd_table P s (fst r) = None \<and> Descriptor (fst r) \<notin> H (os s) \<and>
        live_inodes (snd r) = live_inodes s + 1 \<and>
        fd_table P (snd r) =
          (fd_table P s)(fst r \<mapsto> \<lparr>fd_key = fst r, fd_inode = inode, fd_offset = 0\<rparr>))"

lemma open_effect_failed:
  assumes "platform_ok P H budget left" and "can_lock s" and "mgr_ok P H s" and "steady H (sqfs_lock s) t"
  shows "open_effect P H relative s (-1, (log_hook P (Some f) m (sqfs_unlock t)))"
proof -
  have st: "steady H s (log_hook P (Some f) m (sqfs_unlock t))"
    using steady_trans [OF steady_unlock [OF assms(2,4)] steady_log_hook [OF platform_okD(2) [OF assms(1)]]] .
  then show ?thesis
    using steady_hook_post [OF st assms(3)] steadyD(12,16) [OF st] steady_tables [OF st]
    by (simp add: open_effect_def)
qed

lemma open_effect_errno: "open_effect P H relative s (r, t\<lparr>errno := e\<rparr>) = open_effect P H relative s (r, t)"
  by (simp add: open_effect_def table_defs)

lemma open_free_inode_effect:
  assumes "platform_ok P H budget left" and "can_lock s" and "mgr_ok P H s"
    and "steady H ((sqfs_lock s)\<lparr>live_inodes := live_inodes (sqfs_lock s) + 1\<rparr>) t"
  shows "open_effect P H relative s (open_free_inode P relative flags i t)"
  using open_effect_failed [OF assms(1-3) steady_free_inode [OF assms(4)]]
  by (simp only: open_free_inode_def Let_def)

lemma open_attach_effect:
  assumes ok: "platform_ok P H budget left" and lk: "can_lock s" and inv: "mgr_ok P H s"
    and f: "sqfs_find_inode P (Some relative) (sqfs_lock s) = (Some i, s1)"
    and st: "steady H ((sqfs_lock s)\<lparr>next_ptr := Suc (next_ptr s), live_inodes := live_inodes s + 1\<rparr>) t"
    and new: "Descriptor fd \<notin> H (os s)" "Descriptor fd \<in> H (os t)" and fd: "0 \<le> fd"
  shows "open_effect P H relative s
    (fd, log_hook P g m (sqfs_unlock ((open_add_entry P (next_ptr s) fd i t)\<lparr>errno := 0\<rparr>)))"
proof -
  let ?e = "\<lparr>fd_key = fd, fd_inode = i, fd_offset = 0\<rparr>"
  define u where "u = fd_attach P (next_ptr s) ?e t"
  have none: "fd_table P s fd = None" using mgr_okD(3) [OF inv] new(1) by blast
  have tab: "fd_table P (sqfs_lock s) = fd_table P s" using lk by (simp add: fd_table_def)
  have "sqfs_mgr_loaded_locked s" using find_inode_loaded [OF f] lk by (simp add: sqfs_mgr_loaded_locked_def)
  then have "mgr_ok P H u" and t: "fd_table P u = (fd_table P s)(fd \<mapsto> ?e)"
    using mgr_ok_fd_attach_after [OF platform_okD(1) [OF ok], of H "sqfs_lock s" t ?e] inv lk st none new(2) tab
    by (simp_all add: u_def sqfs_mgr_loaded_locked_def)
  then have "hook_post P H (sqfs_lock s) u"
    using steadyD [OF st] by (simp add: hook_post_def u_def fd_attach_def)
  then have "hook_post P H s (sqfs_unlock (u\<lparr>errno := 0\<rparr>))"
    using lk by (intro hook_post_unlock) simp_all
  note post = hook_post_steady [OF this steady_log_hook [OF platform_okD(2) [OF ok]]]
  have "0 < mutex_depth u" using steadyD(2) [OF st] lk by (simp add: u_def fd_attach_def)
  from this have "fd_table P (log_hook P g m (sqfs_unlock (u\<lparr>errno := 0\<rparr>))) = fd_table P u"
    "live_inodes (log_hook P g m (sqfs_unlock (u\<lparr>errno := 0\<rparr>))) = live_inodes s + 1"
    "dir_table P (log_hook P g m (sqfs_unlock (u\<lparr>errno := 0\<rparr>))) = dir_table P s"
    using steadyD(7,11,12) [OF st] lk by (simp_all add: table_defs u_def fd_attach_def)
  moreover have "H (os s) \<subseteq> H (os (log_hook P g m (sqfs_unlock (u\<lparr>errno := 0\<rparr>))))"
    using steadyD(16) [OF st] steadyD(16) [OF steady_log_hook [OF platform_okD(2) [OF ok]], of "sqfs_unlock (u\<lparr>errno := 0\<rparr>)" g m]
      lk \<open>0 < mutex_depth u\<close> by (auto simp: u_def fd_attach_def)
  ultimately show ?thesis
    using post t none f new(1) fd by (auto simp: open_effect_def open_add_entry_def u_def)
qed

lemma open_in_image_effect:
  assumes ok: "platform_ok P H budget left" and lk: "can_lock s" and inv: "mgr_ok P H s"
  shows "open_effect P H relative s (open_in_image P relative flags s)"
proof -
  note K = platform_okD(2) [OF ok] and Q = platform_okD(3) [OF ok]
  let ?s0 = "sqfs_lock s"
  obtain i s1 where f: "sqfs_find_inode P (Some relative) ?s0 = (i, s1)"
    by (cases "sqfs_find_inode P (Some relative) ?s0")
  note f1 = steady_find [OF Q f]
  show ?thesis
  proof (cases i)
    case None
    then have "steady H ?s0 s1" using f1 by simp
    from open_effect_failed [OF ok lk inv this] show ?thesis
      by (simp only: open_in_image_def f None Let_def prod.case option.case open_effect_errno)
  next
    case (Some inode)
    obtain fd s2 where b: "create_backing_fd P flags s1 = (fd, s2)" by (cases "create_backing_fd P flags s1")
    have s1: "steady H (?s0\<lparr>live_inodes := live_inodes ?s0 + 1\<rparr>) s1" using f1 Some by simp
    note s2 = steady_trans [OF s1 steady_backing_fd [OF K b]]
    obtain mp s3 where ml: "malloc P s2 = (mp, s3)" by (cases "malloc P s2")
    have fresh: "Descriptor fd \<notin> H (os s)" "Descriptor fd \<in> H (os s2)" if "0 \<le> fd"
      using create_backing_fd_fresh(2) [OF K b that] steadyD(16) [OF s1] lk by auto
    show ?thesis
    proof (cases "fd < 0")
      case True
      then show ?thesis
        using open_free_inode_effect [OF ok lk inv s2] f Some b by (simp add: open_in_image_def)
    next
      case False
      show ?thesis
      proof (cases mp)
        case None
        obtain close where close: "libc_close (libc P) = Some close" using kernel_okD(2) [OF K] by blast
        have "steady H (?s0\<lparr>live_inodes := live_inodes ?s0 + 1\<rparr>) (s3\<lparr>errno := ENOMEM\<rparr>)"
          using steady_trans [OF s2 steady_malloc(1) [OF K ml None]] by simp
        then have "steady H (?s0\<lparr>live_inodes := live_inodes ?s0 + 1\<rparr>)
            (snd (sys_call (close fd) (s3\<lparr>errno := ENOMEM\<rparr>)))"
          using fresh(1) False lk kernel_okD(6) [OF K close] by (intro steady_closed) simp_all
        from open_free_inode_effect [OF ok lk inv this] show ?thesis
          using f Some b ml None False close by (simp add: open_in_image_def open_free_fd_def)
      next
        case (Some p)
        have p: "p = next_ptr s" and s3: "steady H (s2\<lparr>next_ptr := Suc (next_ptr s2)\<rparr>) s3"
          using steady_malloc(2) [OF K ml Some] steadyD(9) [OF s2] lk by simp_all
        have "steady H (?s0\<lparr>next_ptr := Suc (next_ptr s), live_inodes := live_inodes s + 1\<rparr>) s3"
          using s2 s3 steadyD(9) [OF s2] lk by (simp add: steady_def core_eq_def calm_def) blast
        from open_attach_effect [OF ok lk inv f [unfolded \<open>i = Some inode\<close>] this] show ?thesis
          using f \<open>i = Some inode\<close> b ml Some p False fresh steadyD(16) [OF s3]
          by (auto simp: open_in_image_def Let_def)
      qed
    qed
  qed
qed

lemma open_contract:
  assumes ok: "platform_ok P H budget left" and inv: "mgr_ok P H s" and lk: "can_lock s"
  shows "hook_post P H s (snd (sqfs_open P pathname flags mode s))"
proof -
  note K = platform_okD(2) [OF ok]
  obtain fd s1 where c: "sys_call (libc_open (libc P) pathname flags
      (if open_flags_need_mode flags then Some mode else None)) s = (fd, s1)"
    by (metis surj_pair)
  have s1: "steady H s s1" using kernel_keeps(1) [OF K] c by (rule steady_call')
  note post1 = steady_hook_post [OF s1 inv]
  have "can_lock s1" using lk hook_post_can_lock [OF post1] by simp
  then have "hook_post P H s1 (snd (open_in_image P rel flags s1))" for rel
    using open_in_image_effect [OF ok, of s1 rel flags] steady_mgr_ok [OF s1 inv] by (simp add: open_effect_def)
  then have "hook_post P H s (snd (open_in_image P rel flags s1))" for rel
    using hook_post_trans [OF post1] by blast
  then show ?thesis
    using c post1 by (simp add: sqfs_open_defs Let_def split: sum.split)
qed

interpretation open_file: hook "\<lambda>P s. snd (sqfs_open P pathname flags mode s)" for pathname flags mode
  by unfold_locales (rule open_contract)

section \<open>Properties of the hooks on files\<close>

text \<open>
  C21. A descriptor that the overlay did not hand out is never intercepted: on it each of the seven
  hooks on descriptors is the real function, with the same arguments, the same result, the same
  \<open>errno\<close> and no other effect on the process. The closing hook of the C library itself,
  \<open>__close_nocancel\<close>, is the real one where the C library has it and \<open>close\<close> otherwise, and a hook whose
  real function was not found fails with \<open>ENOSYS\<close>. This holds with the recursive lock already held, so
  libsquashfs may call the hooked functions from inside a hook.
\<close>

theorem unmapped_descriptor_untouched:
  assumes "can_lock s" and "find_fd P fd s = None"
  shows "sqfs_read P fd count s = sys_call (libc_read (libc P) fd count) s \<and>
    sqfs_pread P fd count off s = sys_call (libc_pread (libc P) fd count off) s \<and>
    sqfs_pread64 P fd count off s =
      (case libc_pread64 (libc P) of
         Some real_pread64 \<Rightarrow> sys_call (real_pread64 fd count off) s
       | None \<Rightarrow> ((-1, []), s\<lparr>errno := ENOSYS\<rparr>)) \<and>
    sqfs_lseek P fd off whence s = sys_call (libc_lseek (libc P) fd off whence) s \<and>
    sqfs_lseek64 P fd off whence s =
      (case libc_lseek64 (libc P) of
         Some real_lseek64 \<Rightarrow> sys_call (real_lseek64 fd off whence) s
       | None \<Rightarrow> (-1, s\<lparr>errno := ENOSYS\<rparr>)) \<and>
    sqfs_close P fd s =
      (case libc_close (libc P) of
         Some real_close \<Rightarrow> sys_call (real_close fd) s
       | None \<Rightarrow> (-1, s\<lparr>errno := ENOSYS\<rparr>)) \<and>
    sqfs_close_nocancel P fd s =
      (case libc_close_nocancel (libc P) of
         Some real_close_nocancel \<Rightarrow> sys_call (real_close_nocancel fd) s
       | None \<Rightarrow>
           (case libc_close (libc P) of
              Some real_close \<Rightarrow> sys_call (real_close fd) s
            | None \<Rightarrow> (-1, s\<lparr>errno := ENOSYS\<rparr>)))"
  using unmapped_calls [OF assms]
  by (simp add: sqfs_close_def sqfs_close_nocancel_def split: option.split)

definition sample_nested :: "(machine, (int \<times> ptr) list) proc" where
  "sample_nested = sample_proc\<lparr>mutex_recursive := True, mutex_depth := 2\<rparr>"

theorem unmapped_descriptor_untouched_witness:
  "sqfs_read sample_env 5 10 sample_nested = sys_call (libc_read (libc sample_env) 5 10) sample_nested \<and>
    sqfs_pread sample_env 5 10 3 sample_nested = sys_call (libc_pread (libc sample_env) 5 10 3) sample_nested \<and>
    sqfs_pread64 sample_env 5 10 3 sample_nested =
      (case libc_pread64 (libc sample_env) of
         Some real_pread64 \<Rightarrow> sys_call (real_pread64 5 10 3) sample_nested
       | None \<Rightarrow> ((-1, []), sample_nested\<lparr>errno := ENOSYS\<rparr>)) \<and>
    sqfs_lseek sample_env 5 3 SEEK_SET sample_nested = sys_call (libc_lseek (libc sample_env) 5 3 SEEK_SET) sample_nested \<and>
    sqfs_lseek64 sample_env 5 3 SEEK_SET sample_nested =
      (case libc_lseek64 (libc sample_env) of
         Some real_lseek64 \<Rightarrow> sys_call (real_lseek64 5 3 SEEK_SET) sample_nested
       | None \<Rightarrow> (-1, sample_nested\<lparr>errno := ENOSYS\<rparr>)) \<and>
    sqfs_close sample_env 5 sample_nested =
      (case libc_close (libc sample_env) of
         Some real_close \<Rightarrow> sys_call (real_close 5) sample_nested
       | None \<Rightarrow> (-1, sample_nested\<lparr>errno := ENOSYS\<rparr>)) \<and>
    sqfs_close_nocancel sample_env 5 sample_nested =
      (case libc_close_nocancel (libc sample_env) of
         Some real_close_nocancel \<Rightarrow> sys_call (real_close_nocancel 5) sample_nested
       | None \<Rightarrow>
           (case libc_close (libc sample_env) of
              Some real_close \<Rightarrow> sys_call (real_close 5) sample_nested
            | None \<Rightarrow> (-1, sample_nested\<lparr>errno := ENOSYS\<rparr>)))"
proof (rule unmapped_descriptor_untouched)
  show "can_lock sample_nested" by (simp add: can_lock_def sample_nested_def)
  show "find_fd sample_env 5 sample_nested = None"
    by (simp add: find_fd_def sample_nested_def sample_proc_def fresh_proc_def sample_uthash_def)
qed

text \<open>
  C22. The real file system comes first: when the real \<open>open\<close> succeeds its descriptor is returned
  and nothing else happens, and for a path that the overlay does not serve its failure, with its
  \<open>errno\<close>, is passed on unchanged.
\<close>

theorem open_prefers_real:
  assumes "good_config P"
    and "sys_call (libc_open (libc P) (Some path) flags
      (if open_flags_need_mode flags then Some mode else None)) s = (fd, t)"
    and "0 \<le> fd \<or> \<not> served P path"
  shows "sqfs_open P (Some path) flags mode s = (if 0 \<le> fd then fd else -1, t)"
  using assms by (auto simp: sqfs_open_defs Let_def check_path_served)

theorem open_prefers_real_witness:
  "sqfs_open sample_env (Some ''/etc/motd'') 0 0 sample_proc =
    (if (0 :: int) \<le> 3 then 3 else -1,
     snd (sys_call (libc_open (libc sample_env) (Some ''/etc/motd'') 0 None) sample_proc))"
proof -
  have call: "sys_call (libc_open (libc sample_env) (Some ''/etc/motd'') 0
      (if open_flags_need_mode 0 then Some 0 else None)) sample_proc =
    (3, snd (sys_call (libc_open (libc sample_env) (Some ''/etc/motd'') 0 None) sample_proc))"
    by (simp add: sys_call_def sample_libc_def m_alloc_fd_def sample_proc_def fresh_proc_def
        sample_machine_def open_flags_need_mode_def)
  show ?thesis by (rule open_prefers_real [OF sample_good_config call]) simp
qed

text \<open>
  C10. Opening a path of the image: a success returns a descriptor that was not open before, and
  the table gains exactly one record, for that descriptor, at offset 0, with the inode that the
  lookup of the relative path found; every failure returns -1 and leaves the table and the
  number of inodes held as they were.
\<close>

theorem open_in_image_correct:
  assumes "platform_ok P H budget left" and "mgr_ok P H s" and "can_lock s"
    and "open_in_image P relative flags s = (fd, t)"
  shows "if fd < 0
    then fd = -1 \<and> fd_table P t = fd_table P s \<and> live_inodes t = live_inodes s
    else \<exists>inode s1. sqfs_find_inode P (Some relative) (sqfs_lock s) = (Some inode, s1) \<and>
      fd_table P s fd = None \<and> Descriptor fd \<notin> H (os s) \<and> live_inodes t = live_inodes s + 1 \<and>
      fd_table P t = (fd_table P s)(fd \<mapsto> \<lparr>fd_key = fd, fd_inode = inode, fd_offset = 0\<rparr>)"
  using open_in_image_effect [OF assms(1,3,2), of relative flags]
  unfolding open_effect_def assms(4) fst_conv snd_conv by blast

lemma sample_mgr_ok: "mgr_ok sample_env m_open sample_proc"
  using mgr_ok_fresh_proc [of sample_env m_open sample_machine]
  by (simp add: sample_proc_def sample_uthash_ok)

lemma sample_can_lock: "can_lock sample_proc"
  by (simp add: sample_proc_def fresh_proc_def can_lock_def)

theorem open_in_image_correct_witness:
  "let (fd, t) = open_in_image sample_env ''a'' 0 sample_proc
   in if fd < 0
    then fd = -1 \<and> fd_table sample_env t = fd_table sample_env sample_proc \<and>
      live_inodes t = live_inodes sample_proc
    else \<exists>inode s1. sqfs_find_inode sample_env (Some ''a'') (sqfs_lock sample_proc) = (Some inode, s1) \<and>
      fd_table sample_env sample_proc fd = None \<and> Descriptor fd \<notin> m_open (os sample_proc) \<and>
      live_inodes t = live_inodes sample_proc + 1 \<and>
      fd_table sample_env t =
        (fd_table sample_env sample_proc)(fd \<mapsto> \<lparr>fd_key = fd, fd_inode = inode, fd_offset = 0\<rparr>)"
  using open_in_image_correct [OF sample_platform_ok sample_mgr_ok sample_can_lock, of "''a''" 0]
  by (cases "open_in_image sample_env ''a'' 0 sample_proc") simp

text \<open>The sample process with one file of the image open.\<close>

definition sample_entry :: FDMapEntry where
  "sample_entry = \<lparr>fd_key = 3, fd_inode = sample_file, fd_offset = 1\<rparr>"

definition sample_opened :: "(machine, (int \<times> ptr) list) proc" where
  "sample_opened = sample_loaded\<lparr>fd_map := [(3, 0)], fd_heap := [0 \<mapsto> sample_entry], next_ptr := 1,
     live_inodes := 1, os := sample_machine\<lparr>m_next := 4, m_handles := [Descriptor 3]\<rparr>\<rparr>"

lemma sample_opened_ok:
  "mgr_ok sample_env m_open sample_opened" "can_lock sample_opened"
  "fd_table sample_env sample_opened 3 = Some sample_entry" "mgr_data_reader sample_opened = Some 3"
  "find_fd sample_env 3 sample_opened = Some 0"
  by (simp_all add: sample_opened_def sample_loaded_def sample_proc_def fresh_proc_def sample_uthash_def
      mgr_ok_def table_ok_def table_defs entry_at_def holdings_ok_def listed_nodes_def
      can_lock_def m_open_def sample_entry_def find_fd_def)

lemma read_effect:
  assumes ok: "platform_ok P H budget left" and inv: "mgr_ok P H s" and lk: "can_lock s"
    and e: "fd_table P s fd = Some e" and r: "mgr_data_reader s = Some r"
    and call: "sqfs_data_reader_read (lib P) r (fd_inode e) (fd_offset e) (word_of_nat count) (os s) =
      ((ret, bytes), err, w)"
    and eq: "sqfs_read P fd count s = (res, t)"
  shows "dir_table P t = dir_table P s \<and>
    (if 0 \<le> ret
     then res = (ret, bytes) \<and> errno t = 0 \<and>
       fd_table P t = (fd_table P s)(fd \<mapsto> e\<lparr>fd_offset := fd_offset e + word_of_int ret\<rparr>)
     else res = (-1, bytes) \<and> errno t = errno_from_sqfs (lib P) ret \<and> fd_table P t = fd_table P s)"
proof -
  obtain p where p: "find_fd P fd s = Some p" using find_fd_table [OF inv, of fd] e by fastforce
  then have h: "fd_heap s p = Some e" "fd_key e = fd"
    using e by (auto elim: find_fd_entry [OF inv])
  obtain u where c: "sys_call (sqfs_data_reader_read (lib P) r (fd_inode e) (fd_offset e)
      (word_of_nat count)) (sqfs_lock s) = ((ret, bytes), u)"
    using call lk by (simp add: sys_call_def)
  obtain m where rd: "sqfs_read P fd count s =
    (if ret \<ge> 0
     then ((ret, bytes), sqfs_unlock ((fd_store p (e\<lparr>fd_offset := fd_offset e + word_of_int ret\<rparr>)
            (log_hook P (Some ''sqfs_read'') m u))\<lparr>errno := 0\<rparr>))
     else ((-1, bytes), sqfs_unlock ((log_hook P (Some ''sqfs_read'') m u)\<lparr>errno := errno_from_sqfs (lib P) ret\<rparr>)))"
    using read_mapped [OF lk p h(1) r c] by blast
  define v where "v = log_hook P (Some ''sqfs_read'') m u"
  have v: "steady H (sqfs_lock s) v"
    unfolding v_def using steady_trans [OF data_call_steady [OF ok c] steady_log_hook [OF platform_okD(2) [OF ok]]] .
  then have vok: "mgr_ok P H v" "fd_heap v p = Some e" "0 < mutex_depth v"
    "fd_table P v = fd_table P s" "dir_table P v = dir_table P s"
    using steady_mgr_ok [OF v] inv lk h(1) steadyD(2,10) [OF v] steady_tables [OF v]
    by (simp_all add: table_defs)
  have st: "fd_table P (fd_store p (e\<lparr>fd_offset := n\<rparr>) v) = (fd_table P s)(fd \<mapsto> e\<lparr>fd_offset := n\<rparr>)" for n
    using mgr_ok_fd_store(2) [OF vok(1,2), of "e\<lparr>fd_offset := n\<rparr>"] vok(4) h(2) by simp
  have d: "fd_table P (sqfs_unlock (x\<lparr>errno := n\<rparr>)) = fd_table P x"
    "dir_table P (sqfs_unlock (x\<lparr>errno := n\<rparr>)) = dir_table P x"
    "errno (sqfs_unlock (x\<lparr>errno := n\<rparr>)) = n" if "0 < mutex_depth x" for x n
    using that by (simp_all add: table_defs)
  have "dir_table P (fd_store p e' v) = dir_table P s" "0 < mutex_depth (fd_store p e' v)" for e'
    using vok(3,5) by (simp_all add: fd_store_def dir_table_def)
  then show ?thesis
    using eq rd d vok(3-5) st by (auto simp: v_def [symmetric])
qed

text \<open>
  C4. A read of an open file of the image: the result and the bytes are those of the data reader
  at the current offset, and exactly the offset of this descriptor moves, by the number of bytes
  read; when the reader fails, the result is -1, \<open>errno\<close> is the translated error and no offset
  moves. The other records and all directories stay as they are.
\<close>

theorem read_refines:
  assumes ok: "platform_ok P H budget left" and inv: "mgr_ok P H s" and lk: "can_lock s"
    and e: "fd_table P s fd = Some e" and r: "mgr_data_reader s = Some r"
    and call: "sqfs_data_reader_read (lib P) r (fd_inode e) (fd_offset e) (word_of_nat count) (os s) =
      ((ret, bytes), err, w)"
    and eq: "sqfs_read P fd count s = (res, t)"
  shows "dir_table P t = dir_table P s \<and>
    (if 0 \<le> ret
     then res = (ret, bytes) \<and> errno t = 0 \<and>
       fd_table P t = (fd_table P s)(fd \<mapsto> e\<lparr>fd_offset := fd_offset e + word_of_int ret\<rparr>)
     else res = (-1, bytes) \<and> errno t = errno_from_sqfs (lib P) ret \<and> fd_table P t = fd_table P s)"
  using assms by (rule read_effect)

theorem read_refines_witness:
  "let (res, t) = sqfs_read sample_env 3 2 sample_opened
   in dir_table sample_env t = dir_table sample_env sample_opened \<and>
    (if 0 \<le> (2 :: int)
     then res = (2, [101, 108]) \<and> errno t = 0 \<and>
       fd_table sample_env t = (fd_table sample_env sample_opened)
         (3 \<mapsto> sample_entry\<lparr>fd_offset := fd_offset sample_entry + word_of_int 2\<rparr>)
     else res = (-1, [101, 108]) \<and> errno t = errno_from_sqfs (lib sample_env) 2 \<and>
       fd_table sample_env t = fd_table sample_env sample_opened)"
proof -
  have call: "sqfs_data_reader_read (lib sample_env) 3 (fd_inode sample_entry) (fd_offset sample_entry)
      (word_of_nat 2) (os sample_opened) = ((2, [101, 108]), None, os sample_opened)"
    by (simp add: sample_lib_def m_data_read_def sample_entry_def sample_bytes_def Let_def)
  obtain res t where eq: "sqfs_read sample_env 3 2 sample_opened = (res, t)"
    by (cases "sqfs_read sample_env 3 2 sample_opened")
  from read_refines [OF sample_platform_ok sample_opened_ok(1-4) call eq] show ?thesis
    by (simp add: eq)
qed

lemma pread_effect:
  assumes ok: "platform_ok P H budget left" and inv: "mgr_ok P H s" and lk: "can_lock s"
    and e: "fd_table P s fd = Some e" and r: "mgr_data_reader s = Some r" and off: "0 \<le> off"
    and call: "sqfs_data_reader_read (lib P) r (fd_inode e) (word_of_int off) (word_of_nat count) (os s) =
      ((ret, bytes), err, w)"
  shows "fst (sqfs_pread P fd count off s) = (if 0 \<le> ret then ret else -1, bytes)"
    and "errno (snd (sqfs_pread P fd count off s)) = (if 0 \<le> ret then 0 else errno_from_sqfs (lib P) ret)"
    and "fd_table P (snd (sqfs_pread P fd count off s)) = fd_table P s"
proof -
  obtain p where p: "find_fd P fd s = Some p" using find_fd_table [OF inv, of fd] e by fastforce
  then have h: "fd_heap s p = Some e"
    using e by (auto elim: find_fd_entry [OF inv])
  obtain u where c: "sys_call (sqfs_data_reader_read (lib P) r (fd_inode e) (word_of_int off)
      (word_of_nat count)) (sqfs_lock s) = ((ret, bytes), u)"
    using call lk by (simp add: sys_call_def)
  have r': "mgr_data_reader (sqfs_lock s) = Some r" using r lk by simp
  obtain m where eq: "sqfs_pread_mapped P ''sqfs_pread'' e count off (sqfs_lock s) =
    (if ret \<ge> 0 then ((ret, bytes), (log_hook P (Some ''sqfs_pread'') m u)\<lparr>errno := 0\<rparr>)
     else ((-1, bytes), (log_hook P (Some ''sqfs_pread'') m u)\<lparr>errno := errno_from_sqfs (lib P) ret\<rparr>))"
    using pread_mapped_eq [OF r' off c] by blast
  have pr: "sqfs_pread P fd count off s =
      (case sqfs_pread_mapped P ''sqfs_pread'' e count off (sqfs_lock s) of (res, s2) \<Rightarrow> (res, sqfs_unlock s2))"
    using p h lk by (simp add: sqfs_pread_def find_fd_def)
  have d: "0 < mutex_depth (log_hook P (Some ''sqfs_pread'') m u)"
    using steadyD(2) [OF data_call_steady [OF ok c]] lk by simp
  show "fst (sqfs_pread P fd count off s) = (if 0 \<le> ret then ret else -1, bytes)"
    by (simp add: pr eq)
  show "errno (snd (sqfs_pread P fd count off s)) = (if 0 \<le> ret then 0 else errno_from_sqfs (lib P) ret)"
    using d by (simp add: pr eq)
  show "fd_table P (snd (sqfs_pread P fd count off s)) = fd_table P s"
    using steady_tables(1) [OF pread_steady(1) [OF ok inv lk]] .
qed

text \<open>
  C23. \<open>pread\<close> is \<open>read\<close> without the move: at the current offset it returns the same result, the
  same bytes and the same \<open>errno\<close> as \<open>read\<close> would, and it leaves every offset where it was.
\<close>

theorem pread_agrees_with_read:
  assumes "platform_ok P H budget left" and "mgr_ok P H s" and "can_lock s"
    and "fd_table P s fd = Some e"
  shows "fst (sqfs_pread P fd count (uint (fd_offset e)) s) = fst (sqfs_read P fd count s) \<and>
    errno (snd (sqfs_pread P fd count (uint (fd_offset e)) s)) = errno (snd (sqfs_read P fd count s)) \<and>
    fd_table P (snd (sqfs_pread P fd count (uint (fd_offset e)) s)) = fd_table P s"
proof -
  obtain p where p: "find_fd P fd s = Some p" using find_fd_table [OF assms(2), of fd] assms(4) by fastforce
  then obtain r where r: "mgr_data_reader s = Some r" by (rule find_fd_entry [OF assms(2)])
  obtain ret bytes err w where call: "sqfs_data_reader_read (lib P) r (fd_inode e) (fd_offset e)
      (word_of_nat count) (os s) = ((ret, bytes), err, w)" by (metis surj_pair)
  obtain res t where rd: "sqfs_read P fd count s = (res, t)" by (cases "sqfs_read P fd count s")
  have call': "sqfs_data_reader_read (lib P) r (fd_inode e) (word_of_int (uint (fd_offset e)))
      (word_of_nat count) (os s) = ((ret, bytes), err, w)" using call by simp
  note pr = pread_effect [OF assms r uint64_bounds(1) call']
  from read_effect [OF assms r call rd] show ?thesis
    unfolding pr by (auto simp: rd split: if_splits)
qed

theorem pread_agrees_with_read_witness:
  "fst (sqfs_pread sample_env 3 2 (uint (fd_offset sample_entry)) sample_opened) =
     fst (sqfs_read sample_env 3 2 sample_opened) \<and>
   errno (snd (sqfs_pread sample_env 3 2 (uint (fd_offset sample_entry)) sample_opened)) =
     errno (snd (sqfs_read sample_env 3 2 sample_opened)) \<and>
   fd_table sample_env (snd (sqfs_pread sample_env 3 2 (uint (fd_offset sample_entry)) sample_opened)) =
     fd_table sample_env sample_opened"
  by (rule pread_agrees_with_read [OF sample_platform_ok sample_opened_ok(1-3)])

text \<open>
  What the data reader of libsquashfs documents: it returns the bytes of the file from the given
  offset on, as many as asked for or as there are. The result is a signed 32-bit number.
\<close>

definition serves :: "'w libsquashfs \<Rightarrow> sqfs_inode \<Rightarrow> byte list \<Rightarrow> bool" where
  "serves Q i content \<longleftrightarrow>
     (\<forall>r off n w. unat n < 2 ^ 31 \<longrightarrow>
        fst (sqfs_data_reader_read Q r i off n w) =
          (int (length (take (unat n) (drop (unat off) content))), take (unat n) (drop (unat off) content)))"

lemma sys_call_fst: "fst (sys_call f s) = fst (f (os s))"
  by (simp add: sys_call_def split_beta)

text \<open>Both variants of \<open>pread\<close> deliver the bytes at the offset.\<close>

lemma pread_one:
  assumes ok: "platform_ok P H budget left" and inv: "mgr_ok P H s" and lk: "can_lock s"
    and e: "fd_table P s fd = Some e" and sv: "serves (lib P) (fd_inode e) content"
    and off: "0 \<le> off" "off < 2 ^ 64" and c: "count < 2 ^ 31"
    and b: "b = take count (drop (nat off) content)"
  shows "fst (sqfs_pread P fd count off s) = (int (length b), b)"
    and "fst (sqfs_pread64 P fd count off s) = (int (length b), b)"
proof -
  obtain p where p: "find_fd P fd s = Some p" using find_fd_table [OF inv, of fd] e by fastforce
  then have h: "fd_heap s p = Some e" using e by (auto elim: find_fd_entry [OF inv])
  obtain r where r: "mgr_data_reader s = Some r" using p by (rule find_fd_entry [OF inv])
  obtain n where n: "off = int n" using off(1) by (rule nonneg_int_cases)
  have "unat (word_of_nat count :: u32) = count" "unat (word_of_int off :: u64) = nat off"
    using c off(2) by (simp_all add: unat_of_nat n)
  then have "fst (sqfs_data_reader_read (lib P) r (fd_inode e) (word_of_int off) (word_of_nat count) (os (sqfs_lock s))) =
      (int (length b), b)"
    using sv c b unfolding serves_def by metis
  then obtain u where call: "sys_call (sqfs_data_reader_read (lib P) r (fd_inode e) (word_of_int off) (word_of_nat count))
      (sqfs_lock s) = ((int (length b), b), u)"
    by (metis sys_call_fst prod.collapse)
  have "mgr_data_reader (sqfs_lock s) = Some r" using r lk by simp
  then have "fst (sqfs_pread_mapped P func e count off (sqfs_lock s)) = (int (length b), b)" for func
    using pread_mapped_eq [OF _ off(1) call, of func] by auto
  then show "fst (sqfs_pread P fd count off s) = (int (length b), b)"
    and "fst (sqfs_pread64 P fd count off s) = (int (length b), b)"
    using p h lk by (simp_all add: sqfs_pread_def sqfs_pread64_def find_fd_def Let_def split_beta)
qed

text \<open>Consecutive reads with the given counts: the bytes they deliver, in order.\<close>

fun read_seq :: "('w, 'h) env \<Rightarrow> int \<Rightarrow> nat list \<Rightarrow> ('w, 'h) proc \<Rightarrow> byte list \<times> ('w, 'h) proc" where
  "read_seq P fd [] s = ([], s)"
| "read_seq P fd (count # counts) s =
     (case sqfs_read P fd count s of
        ((ret, bytes), s1) \<Rightarrow>
          (case read_seq P fd counts s1 of (rest, s2) \<Rightarrow> (bytes @ rest, s2)))"

lemma read_one:
  assumes ok: "platform_ok P H budget left" and inv: "mgr_ok P H s" and lk: "can_lock s"
    and e: "fd_table P s fd = Some e" and sv: "serves (lib P) (fd_inode e) content"
    and len: "length content < 2 ^ 63" and c: "count < 2 ^ 31"
    and b: "b = take count (drop (unat (fd_offset e)) content)"
  shows "\<exists>t off. sqfs_read P fd count s = ((int (length b), b), t) \<and> mgr_ok P H t \<and> can_lock t \<and>
    fd_table P t fd = Some (e\<lparr>fd_offset := off\<rparr>) \<and> unat off = unat (fd_offset e) + length b"
proof -
  obtain p where p: "find_fd P fd s = Some p" using find_fd_table [OF inv, of fd] e by fastforce
  then obtain r where r: "mgr_data_reader s = Some r" by (rule find_fd_entry [OF inv])
  have un: "unat (word_of_nat count :: u32) = count" using c by (simp add: unat_of_nat)
  have "fst (sqfs_data_reader_read (lib P) r (fd_inode e) (fd_offset e) (word_of_nat count) (os s)) =
      (int (length b), b)"
    using sv un c b unfolding serves_def by metis
  then obtain err w where call: "sqfs_data_reader_read (lib P) r (fd_inode e) (fd_offset e)
      (word_of_nat count) (os s) = ((int (length b), b), err, w)" by (metis fst_conv surj_pair)
  obtain res t where rd: "sqfs_read P fd count s = (res, t)" by (cases "sqfs_read P fd count s")
  define off where "off = fd_offset e + word_of_int (int (length b))"
  have eff: "res = (int (length b), b)" "fd_table P t fd = Some (e\<lparr>fd_offset := off\<rparr>)"
    using read_effect [OF ok inv lk e r call rd] by (simp_all add: off_def)
  have post: "hook_post P H s t" using read_contract [OF ok inv lk, of fd count] rd by simp
  have "unat (fd_offset e) + length b < 2 ^ 64"
  proof (cases "b = []")
    case True
    then show ?thesis using unsigned_less [of "fd_offset e"] by simp
  next
    case False
    then have "unat (fd_offset e) + length b \<le> length content" using b by auto
    with len show ?thesis by simp
  qed
  then have "unat off = unat (fd_offset e) + length b"
    unfolding off_def by (subst unat_add_lem [THEN iffD1]) (simp_all add: unat_of_nat)
  with post eff rd lk hook_post_can_lock [OF post] show ?thesis by (auto simp: hook_post_def)
qed

lemma take_split: "take (m + n) xs = take m xs @ take n (drop (length (take m xs)) xs)"
  by (cases "m \<le> length xs") (simp_all add: take_add)

lemma reads_deliver:
  assumes "platform_ok P H budget left" and "mgr_ok P H s" and "can_lock s"
    and "fd_table P s fd = Some e" and "serves (lib P) (fd_inode e) content"
    and "length content < 2 ^ 63" and "\<forall>count \<in> set counts. count < 2 ^ 31"
  shows "fst (read_seq P fd counts s) = take (sum_list counts) (drop (unat (fd_offset e)) content)"
  using assms
proof (induction counts arbitrary: s e)
  case (Cons count counts)
  define b where "b = take count (drop (unat (fd_offset e)) content)"
  have "count < 2 ^ 31" using Cons.prems(7) by simp
  then obtain t off where t: "sqfs_read P fd count s = ((int (length b), b), t)"
      "mgr_ok P H t" "can_lock t" "fd_table P t fd = Some (e\<lparr>fd_offset := off\<rparr>)"
      "unat off = unat (fd_offset e) + length b"
    using read_one [OF Cons.prems(1-6) _ b_def] by blast
  have "fst (read_seq P fd counts t) = take (sum_list counts) (drop (unat off) content)"
    using Cons.IH [OF Cons.prems(1) t(2,3,4)] Cons.prems(5-7) by simp
  also have "drop (unat off) content = drop (length b) (drop (unat (fd_offset e)) content)"
    using t(5) by (simp add: add.commute)
  finally have "b @ fst (read_seq P fd counts t) = take (count + sum_list counts) (drop (unat (fd_offset e)) content)"
    unfolding b_def by (simp only: take_split)
  then show ?case using t(1) by (simp add: split_beta)
qed simp

lemma sample_serves: "serves sample_lib sample_file sample_bytes"
  by (simp add: serves_def sample_lib_def m_data_read_def Let_def)

lemma log_hook_off: "\<not> log_enabled P f \<Longrightarrow> log_hook P f m s = s"
  by (simp add: log_hook_def)

lemma lseek_effect:
  assumes ok: "platform_ok P H budget left" and inv: "mgr_ok P H s" and lk: "can_lock s"
    and e: "fd_table P s fd = Some e" and w: "sizeof_long (cfg P) = 4 \<or> sizeof_long (cfg P) = 8"
    and eq: "sqfs_lseek P fd off whence s = (res, t)"
  shows "case seek_target (lib P) e (word_of_int off) whence (max_signed_value_for_size (sizeof_long (cfg P))) of
      Inl err \<Rightarrow> res = -1 \<and> fd_table P t = fd_table P s \<and>
        (\<not> log_enabled P (Some ''sqfs_lseek'') \<longrightarrow> errno t = err)
    | Inr n \<Rightarrow> res = uint n \<and> fd_table P t = (fd_table P s)(fd \<mapsto> e\<lparr>fd_offset := n\<rparr>)"
proof -
  let ?lim = "max_signed_value_for_size (sizeof_long (cfg P))"
  obtain p where p: "find_fd P fd s = Some p" using find_fd_table [OF inv, of fd] e by fastforce
  then have h: "fd_heap s p = Some e" "fd_key e = fd" using e by (auto elim: find_fd_entry [OF inv])
  have ls: "sqfs_lseek P fd off whence s =
      (case sqfs_lseek_mapped P ''sqfs_lseek'' p e off whence ?lim (sqfs_lock s) of
         ((ret, n), s2) \<Rightarrow> if ret \<noteq> 0 then (-1, sqfs_unlock s2)
           else (long_cast (cfg P) (uint n), sqfs_unlock s2))"
    using p h lk by (simp add: sqfs_lseek_def find_fd_def Let_def)
  show ?thesis
  proof (cases "seek_target (lib P) e (word_of_int off) whence ?lim")
    case (Inl err)
    obtain m x where "sqfs_lseek_mapped P ''sqfs_lseek'' p e off whence ?lim (sqfs_lock s) =
        ((-1, x), log_hook P (Some ''sqfs_lseek'') m ((sqfs_lock s)\<lparr>errno := err\<rparr>))"
      using lseek_mapped_fails [OF Inl] by blast
    then show ?thesis using eq ls Inl lk by (auto simp: fd_table_def log_hook_off)
  next
    case (Inr n)
    define u where "u = fd_store p (e\<lparr>fd_offset := n\<rparr>) (sqfs_lock s)"
    have "fd_table P u = (fd_table P (sqfs_lock s))(fd \<mapsto> e\<lparr>fd_offset := n\<rparr>)"
      using mgr_ok_fd_store(2) [of P H "sqfs_lock s" p e "e\<lparr>fd_offset := n\<rparr>"] inv lk h by (simp add: u_def)
    then have tab: "fd_table P u = (fd_table P s)(fd \<mapsto> e\<lparr>fd_offset := n\<rparr>)" using lk by (simp add: fd_table_def)
    obtain m where mv: "sqfs_lseek_mapped P ''sqfs_lseek'' p e off whence ?lim (sqfs_lock s) =
        ((0, n), log_hook P (Some ''sqfs_lseek'') m (u\<lparr>errno := 0\<rparr>))"
      using lseek_mapped_moves [OF Inr] unfolding u_def by blast
    have "0 < mutex_depth u" using lk by (simp add: u_def fd_store_def)
    then have "fd_table P t = fd_table P u" using eq ls mv by (auto simp: fd_table_def)
    moreover have "n \<le> ?lim" using Inr by (auto simp: seek_target_def split: sum.splits if_splits)
    then have "uint n < 2 ^ (8 * sizeof_long (cfg P) - 1)"
      using max_signed_uint [of "sizeof_long (cfg P)"] w by (auto simp: word_le_def)
    then have "long_cast (cfg P) (uint n) = uint n"
      using long_cast_eq_iff [OF w uint64_bounds(1) [of n]] by simp
    ultimately show ?thesis using eq ls mv tab Inr by auto
  qed
qed

lemma lseek_spec_effect:
  assumes "platform_ok P H budget left" and "mgr_ok P H s" and "can_lock s"
    and "fd_table P s fd = Some e" and "sizeof_long (cfg P) = 4 \<or> sizeof_long (cfg P) = 8"
    and "- (2 ^ 63) \<le> off" and "off < 2 ^ 63"
    and "sqfs_lseek P fd off whence s = (res, t)"
  shows "case seek_spec (2 ^ (8 * sizeof_long (cfg P) - 1) - 1) (uint (fd_offset e))
      (uint (sqfs_inode_size (lib P) (fd_inode e))) off whence of
      Inl err \<Rightarrow> res = -1 \<and> fd_table P t = fd_table P s \<and>
        (\<not> log_enabled P (Some ''sqfs_lseek'') \<longrightarrow> errno t = err)
    | Inr n \<Rightarrow> res = n \<and> fd_table P t = (fd_table P s)(fd \<mapsto> e\<lparr>fd_offset := word_of_int n\<rparr>)"
proof -
  have "0 < sizeof_long (cfg P)" "min (sizeof_long (cfg P)) 8 = sizeof_long (cfg P)" using assms(5) by auto
  then have lim: "uint (max_signed_value_for_size (sizeof_long (cfg P))) = 2 ^ (8 * sizeof_long (cfg P) - 1) - 1"
    using max_signed_uint [of "sizeof_long (cfg P)"] by simp
  have spec: "seek_spec (2 ^ (8 * sizeof_long (cfg P) - 1) - 1) (uint (fd_offset e))
      (uint (sqfs_inode_size (lib P) (fd_inode e))) off whence =
    map_sum id uint (seek_target (lib P) e (word_of_int off) whence (max_signed_value_for_size (sizeof_long (cfg P))))"
    using seek_target_spec [of "lib P" e "word_of_int off" whence "max_signed_value_for_size (sizeof_long (cfg P))"]
      lim sint_of_int64 [OF assms(6,7)] by simp
  show ?thesis
    using lseek_effect [OF assms(1-5,8)] unfolding spec by (auto split: sum.splits)
qed

text \<open>
  C5. \<open>lseek\<close> on a file of the image refines the specification on unbounded integers: for every
  \<open>whence\<close>, valid or not, it moves to the position that \<open>lseek(2)\<close> asks for and returns it, or
  fails with the error the specification names (\<open>EINVAL\<close>, \<open>EOVERFLOW\<close>, \<open>ENXIO\<close>) and moves nothing.
  The bound is the largest \<open>off_t\<close> of the build. (A log line may overwrite \<open>errno\<close>.)
\<close>

theorem lseek_refines:
  assumes "platform_ok P H budget left" and "mgr_ok P H s" and "can_lock s"
    and "fd_table P s fd = Some e" and "sizeof_long (cfg P) = 4 \<or> sizeof_long (cfg P) = 8"
    and "- (2 ^ 63) \<le> off" and "off < 2 ^ 63"
    and "sqfs_lseek P fd off whence s = (res, t)"
  shows "case seek_spec (2 ^ (8 * sizeof_long (cfg P) - 1) - 1) (uint (fd_offset e))
      (uint (sqfs_inode_size (lib P) (fd_inode e))) off whence of
      Inl err \<Rightarrow> res = -1 \<and> fd_table P t = fd_table P s \<and>
        (\<not> log_enabled P (Some ''sqfs_lseek'') \<longrightarrow> errno t = err)
    | Inr n \<Rightarrow> res = n \<and> fd_table P t = (fd_table P s)(fd \<mapsto> e\<lparr>fd_offset := word_of_int n\<rparr>)"
  using assms by (rule lseek_spec_effect)

theorem lseek_refines_witness:
  "let (res, t) = sqfs_lseek sample_env 3 (-2) SEEK_END sample_opened
   in case seek_spec (2 ^ (8 * sizeof_long (cfg sample_env) - 1) - 1) (uint (fd_offset sample_entry))
      (uint (sqfs_inode_size (lib sample_env) (fd_inode sample_entry))) (-2) SEEK_END of
      Inl err \<Rightarrow> res = -1 \<and> fd_table sample_env t = fd_table sample_env sample_opened \<and>
        (\<not> log_enabled sample_env (Some ''sqfs_lseek'') \<longrightarrow> errno t = err)
    | Inr n \<Rightarrow> res = n \<and> fd_table sample_env t =
        (fd_table sample_env sample_opened)(3 \<mapsto> sample_entry\<lparr>fd_offset := word_of_int n\<rparr>)"
  using lseek_refines [OF sample_platform_ok sample_opened_ok(1-3), of "-2" SEEK_END]
  by (cases "sqfs_lseek sample_env 3 (-2) SEEK_END sample_opened") simp

lemma close_effect:
  assumes ok: "platform_ok P H budget left" and inv: "mgr_ok P H s" and lk: "can_lock s"
    and e: "fd_table P s fd = Some e"
  shows "\<exists>u. os u = os s \<and> mutex_depth u = mutex_depth s \<and> fd_table P u = (fd_table P s)(fd := None) \<and>
    dir_table P u = dir_table P s \<and> live_inodes u = live_inodes s - 1 \<and>
    (\<forall>gap func close. \<exists>t. sqfs_close_impl P gap func fd (Some close) s = (fst (sys_call (close fd) (gap u)), t) \<and>
       errno t = errno (snd (sys_call (close fd) (gap u))) \<and> core_eq (gap u) t)"
proof -
  obtain p where p: "find_fd P fd s = Some p" using find_fd_table [OF inv, of fd] e by fastforce
  then have h: "fd_heap s p = Some e" "fd_key e = fd" using e by (auto elim: find_fd_entry [OF inv])
  define u where "u = close_detached P p e s"
  have u: "fd_table P u = (fd_table P s)(fd := None)" "os u = os s" "mutex_depth u = mutex_depth s"
    "live_inodes u = live_inodes s - 1" "dir_table P u = dir_table P s"
    using mgr_ok_fd_detach(2) [OF platform_okD(1) [OF ok] inv h(1)] h(2)
    by (simp_all add: u_def close_detached_detach table_defs fd_detach_def)
  have "\<exists>t. sqfs_close_impl P gap func fd (Some close) s = (fst (sys_call (close fd) (gap u)), t) \<and>
      errno t = errno (snd (sys_call (close fd) (gap u))) \<and> core_eq (gap u) t" for gap func close
  proof -
    obtain ret v where c: "sys_call (close fd) (gap u) = (ret, v)" by (cases "sys_call (close fd) (gap u)")
    then obtain m where
      "sqfs_close_impl P gap func fd (Some close) s = (ret, (log_hook P (Some func) m v)\<lparr>errno := errno v\<rparr>)"
      using close_mapped [OF lk p h(1), of close gap ret v func] by (auto simp: u_def)
    moreover have "core_eq (gap u) ((log_hook P (Some func) m v)\<lparr>errno := errno v\<rparr>)"
      using core_eq_trans [OF sys_call_core [OF c] log_hook.core [of v P "Some func" m]]
      by (simp add: core_eq_def)
    ultimately show ?thesis using c by simp
  qed
  then show ?thesis using u by (intro exI [of _ u]) blast
qed

text \<open>
  C12. Closing a file of the image forgets the record first and closes the descriptor after it,
  outside the lock. The state \<open>u\<close> is the one in which \<open>close\<close> leaves the lock: nothing has been
  asked of the kernel yet, the lock is held as often as before, the record is gone from the table,
  and its inode is released. Whatever other threads do in the gap after it, turning \<open>u\<close> into
  \<open>gap u\<close>, the real \<open>close\<close> runs behind that, in the state they left: its result and \<open>errno\<close> are
  those of the hook, and nothing but the log follows. So a descriptor that the kernel hands out
  again can never meet a stale record. Without other threads, exactly the record and one inode are
  gone in the end.
\<close>

theorem close_forgets_first:
  assumes "platform_ok P H budget left" and "mgr_ok P H s" and "can_lock s"
    and "fd_table P s fd = Some e" and "libc_close (libc P) = Some real_close"
    and "sqfs_close P fd s = (ret, t)"
  shows "(\<exists>u. os u = os s \<and> mutex_depth u = mutex_depth s \<and> fd_table P u = (fd_table P s)(fd := None) \<and>
      dir_table P u = dir_table P s \<and> live_inodes u = live_inodes s - 1 \<and>
      (\<forall>gap. \<exists>v. sqfs_close_impl P gap ''sqfs_close'' fd (Some real_close) s =
            (fst (sys_call (real_close fd) (gap u)), v) \<and>
         errno v = errno (snd (sys_call (real_close fd) (gap u))) \<and> core_eq (gap u) v) \<and>
      ret = fst (sys_call (real_close fd) u) \<and> errno t = errno (snd (sys_call (real_close fd) u))) \<and>
    fd_table P t = (fd_table P s)(fd := None) \<and> live_inodes t = live_inodes s - 1 \<and>
    dir_table P t = dir_table P s \<and> mutex_depth t = mutex_depth s"
proof -
  from close_effect [OF assms(1-4)] obtain u where u: "os u = os s" "mutex_depth u = mutex_depth s"
    "fd_table P u = (fd_table P s)(fd := None)" "dir_table P u = dir_table P s" "live_inodes u = live_inodes s - 1"
    and all: "\<And>gap func close. \<exists>t. sqfs_close_impl P gap func fd (Some close) s = (fst (sys_call (close fd) (gap u)), t) \<and>
       errno t = errno (snd (sys_call (close fd) (gap u))) \<and> core_eq (gap u) t"
    by blast
  have "ret = fst (sys_call (real_close fd) u)" "errno t = errno (snd (sys_call (real_close fd) u))" "core_eq u t"
    using all [of "\<lambda>t. t" "''sqfs_close''" real_close] assms(5,6) by (auto simp: sqfs_close_def)
  moreover from this(3) have "fd_table P t = fd_table P u" "live_inodes t = live_inodes u"
    "dir_table P t = dir_table P u" "mutex_depth t = mutex_depth u"
    by (simp_all add: core_eq_def table_defs)
  moreover have "\<forall>gap. \<exists>v. sqfs_close_impl P gap ''sqfs_close'' fd (Some real_close) s =
        (fst (sys_call (real_close fd) (gap u)), v) \<and>
      errno v = errno (snd (sys_call (real_close fd) (gap u))) \<and> core_eq (gap u) v"
    using all by blast
  ultimately show ?thesis using u by (intro conjI exI [of _ u]) simp_all
qed

theorem close_forgets_first_witness:
  "let (ret, t) = sqfs_close sample_env 3 sample_opened
   in (\<exists>u. os u = os sample_opened \<and> mutex_depth u = mutex_depth sample_opened \<and>
      fd_table sample_env u = (fd_table sample_env sample_opened)(3 := None) \<and>
      dir_table sample_env u = dir_table sample_env sample_opened \<and>
      live_inodes u = live_inodes sample_opened - 1 \<and>
      (\<forall>gap. \<exists>v. sqfs_close_impl sample_env gap ''sqfs_close'' 3 (Some (\<lambda>fd. m_close (Descriptor fd))) sample_opened =
            (fst (sys_call (m_close (Descriptor 3)) (gap u)), v) \<and>
         errno v = errno (snd (sys_call (m_close (Descriptor 3)) (gap u))) \<and> core_eq (gap u) v) \<and>
      ret = fst (sys_call (m_close (Descriptor 3)) u) \<and>
      errno t = errno (snd (sys_call (m_close (Descriptor 3)) u))) \<and>
    fd_table sample_env t = (fd_table sample_env sample_opened)(3 := None) \<and>
    live_inodes t = live_inodes sample_opened - 1 \<and>
    dir_table sample_env t = dir_table sample_env sample_opened \<and>
    mutex_depth t = mutex_depth sample_opened"
proof -
  have "libc_close (libc sample_env) = Some (\<lambda>fd. m_close (Descriptor fd))" by (simp add: sample_libc_def)
  from close_forgets_first [OF sample_platform_ok sample_opened_ok(1-3) this] show ?thesis
    by (cases "sqfs_close sample_env 3 sample_opened") simp
qed

text \<open>
  Opening a file of the image and closing it again gives everything back: the table is what
  it was before, and no inode is leaked.
\<close>

lemma open_close_roundtrip:
  assumes "platform_ok P H budget left" and "mgr_ok P H s" and "can_lock s"
    and "open_in_image P relative flags s = (fd, t)" and "0 \<le> fd"
    and "sqfs_close P fd t = (ret, u)"
  shows "fd_table P u = fd_table P s \<and> live_inodes u = live_inodes s"
proof -
  note eff = open_in_image_effect [OF assms(1,3,2), of relative flags, unfolded assms(4) open_effect_def fst_conv snd_conv]
  then have post: "hook_post P H s t" by blast
  obtain inode where o: "fd_table P s fd = None" "live_inodes t = live_inodes s + 1"
    "fd_table P t = (fd_table P s)(fd \<mapsto> \<lparr>fd_key = fd, fd_inode = inode, fd_offset = 0\<rparr>)"
    using eff assms(5) by auto
  obtain close where close: "libc_close (libc P) = Some close"
    using kernel_okD(2) [OF platform_okD(2) [OF assms(1)]] by blast
  have "mgr_ok P H t" "can_lock t" using post assms(3) hook_post_can_lock [OF post] by (simp_all add: hook_post_def)
  from close_effect [OF assms(1) this, of fd] o(3) obtain v where v: "fd_table P v = (fd_table P t)(fd := None)"
    "live_inodes v = live_inodes t - 1"
    "\<exists>x. sqfs_close_impl P (\<lambda>t. t) ''sqfs_close'' fd (Some close) t = (fst (sys_call (close fd) v), x) \<and> core_eq v x"
    by fastforce
  then have "core_eq v u" using assms(6) close by (auto simp: sqfs_close_def)
  then have "fd_table P u = fd_table P v" "live_inodes u = live_inodes v" by (simp_all add: core_eq_def table_defs)
  then show ?thesis using o v(1,2) by (auto simp: fun_eq_iff)
qed

lemma sample_loaded_ok: "mgr_ok sample_env m_open sample_loaded" "can_lock sample_loaded"
  using sample_mgr_ok
  by (simp_all add: sample_loaded_def mgr_ok_def table_defs holdings_ok_def can_lock_def)

section \<open>stat and access of a path in the image\<close>

lemma check_path_no_buffer:
  assumes "good_config P" and "served P path"
  shows "\<exists>rel. sqfs_check_path_then_convert P (Some path) False 0 = Inr rel"
proof -
  have rel: "path_relative_to_root (Some (sqfs_mgr_get_prefix P)) (Some path) True PATH_MAX \<noteq> None"
    using check_path_served [OF assms(1), of path] assms(2)
    by (auto simp: sqfs_check_path_then_convert_def Let_def split: option.splits if_splits)
  then have "path_relative_to_root (Some (sqfs_mgr_get_prefix P)) (Some path) False 0 \<noteq> None"
    by (auto simp: path_relative_to_root_def Let_def split: option.splits if_splits)
  then show ?thesis
    using check_path_served [OF assms(1), of path] assms(2)
    by (auto simp: sqfs_check_path_then_convert_def Let_def split: option.splits if_splits)
qed

text \<open>
  C24. \<open>stat\<close> of a path that the overlay serves and the real file system does not have: it succeeds
  exactly when the lookup of the relative path finds an inode, with the data of that inode in
  the buffer, and otherwise fails with the \<open>errno\<close> of the lookup.
\<close>

theorem xstat_reports_inode:
  assumes "good_config P" and "served P path" and "can_lock s"
    and "sys_call (libc_xstat (libc P) 3 (Some path) True) s = ((r, buf), s1)" and "r \<noteq> 0"
    and "sqfs_find_inode P (Some (join_with (CHR ''/'') (relative_components (sqfs_mgr_get_prefix P) path)))
      (sqfs_lock s1) = (found, s2)"
  shows "case found of
      None \<Rightarrow> fst (sqfs_xstat P 3 (Some path) True s) = (-1, buf) \<and>
        errno (snd (sqfs_xstat P 3 (Some path) True s)) = errno s2
    | Some inode \<Rightarrow> fst (sqfs_xstat P 3 (Some path) True s) =
        (0, Some (sqfs_fill_stat P (mgr_super s) inode))"
proof -
  have "mutex_recursive s1 = mutex_recursive s" "mutex_depth s1 = mutex_depth s" "mgr_super s1 = mgr_super s"
    using sys_call_core [OF assms(4)] by (simp_all add: core_eq_def)
  then have "mgr_super (sqfs_lock s1) = mgr_super s" using assms(3) by (simp add: can_lock_def)
  then have "mgr_super s2 = mgr_super s" using find_inode_frame [OF assms(6)] by auto
  then show ?thesis
    using assms by (auto simp: sqfs_xstat_defs check_path_served sqfs_stat_impl_def Let_def split: option.split)
qed

definition sample_denied :: "(machine, (int \<times> ptr) list) proc" where
  "sample_denied = sample_loaded\<lparr>errno := ENOENT\<rparr>"

lemma sample_found:
  "sqfs_find_inode sample_env (Some (join_with (CHR ''/'')
      (relative_components (sqfs_mgr_get_prefix sample_env) ''/hook/d/a''))) (sqfs_lock sample_denied) =
    (Some sample_file, snd (sqfs_find_inode sample_env (Some ''d/a'') (sqfs_lock sample_denied)))"
proof -
  have "fst (sqfs_find_inode sample_env (Some ''d/a'') (sqfs_lock sample_denied)) = Some sample_file"
    by (simp add: run_defs sample_denied_def Let_def)
  then show ?thesis unfolding sample_path(2) by (simp add: prod_eq_iff)
qed

theorem xstat_reports_inode_witness:
  "case (Some sample_file) of
      None \<Rightarrow> fst (sqfs_xstat sample_env 3 (Some ''/hook/d/a'') True sample_loaded) = (-1, None) \<and>
        errno (snd (sqfs_xstat sample_env 3 (Some ''/hook/d/a'') True sample_loaded)) = 0
    | Some inode \<Rightarrow> fst (sqfs_xstat sample_env 3 (Some ''/hook/d/a'') True sample_loaded) =
        (0, Some (sqfs_fill_stat sample_env (mgr_super sample_loaded) inode))"
proof -
  have call: "sys_call (libc_xstat (libc sample_env) 3 (Some ''/hook/d/a'') True) sample_loaded =
      ((-1, None), sample_denied)"
    by (simp add: sys_call_def sample_libc_def sample_denied_def)
  from xstat_reports_inode [OF sample_good_config sample_path(1) sample_loaded_lock call _ sample_found]
  show ?thesis by simp
qed

text \<open>
  C26. \<open>access\<close> on a path that the overlay serves and the real file system denies: asking for write
  permission is always refused, with \<open>EROFS\<close>; reading and executing are granted when any of the
  three read or execute bits of the inode is set, and refused with \<open>EACCES\<close> otherwise. (A log
  line may overwrite \<open>errno\<close>.)
\<close>

theorem access_decides:
  assumes "good_config P" and "served P path" and "can_lock s"
    and "sys_call (libc_access (libc P) (Some path) mode) s = (r, s1)" and "r \<noteq> 0"
    and "sqfs_find_inode P (Some (join_with (CHR ''/'') (relative_components (sqfs_mgr_get_prefix P) path)))
      (sqfs_lock s1) = (Some inode, s2)"
    and "\<not> log_enabled P (Some ''sqfs_access'')"
  shows "let result = sqfs_access P (Some path) mode s
    in if mode AND W_OK \<noteq> 0 then fst result = -1 \<and> errno (snd result) = EROFS
       else if mode AND R_OK \<noteq> 0 \<and> base_mode inode AND 0x124 = 0 \<or>
               mode AND X_OK \<noteq> 0 \<and> base_mode inode AND 0x49 = 0
       then fst result = -1 \<and> errno (snd result) = EACCES
       else fst result = 0"
proof -
  obtain rel where rel: "sqfs_check_path_then_convert P (Some path) False 0 = Inr rel"
    using check_path_no_buffer [OF assms(1,2)] by blast
  show ?thesis
    using assms rel inode_mode_permission [of inode]
    by (auto simp: sqfs_access_defs access_denied_def check_path_served sqfs_stat_impl_def Let_def log_hook_off
        access_decision_def sqfs_fill_stat_def)
qed

theorem access_decides_witness:
  "let result = sqfs_access sample_env (Some ''/hook/d/a'') R_OK sample_loaded
    in if R_OK AND W_OK \<noteq> 0 then fst result = -1 \<and> errno (snd result) = EROFS
       else if R_OK AND R_OK \<noteq> 0 \<and> base_mode sample_file AND 0x124 = 0 \<or>
               R_OK AND X_OK \<noteq> 0 \<and> base_mode sample_file AND 0x49 = 0
       then fst result = -1 \<and> errno (snd result) = EACCES
       else fst result = 0"
proof -
  have call: "sys_call (libc_access (libc sample_env) (Some ''/hook/d/a'') R_OK) sample_loaded =
      (-1, sample_denied)"
    by (simp add: sys_call_def sample_libc_def sample_denied_def)
  have off: "\<not> log_enabled sample_env (Some ''sqfs_access'')"
    by (simp add: log_enabled_def sample_getenv_def log_enabled_loop.simps token_matches_def rstrip_def is_blank_def)
  show ?thesis
    by (rule access_decides [OF sample_good_config sample_path(1) sample_loaded_lock call _ sample_found off]) simp
qed

end
