(* ===== verification/Dir_Ops.thy ===== *)
theory Dir_Ops
  imports Tables
begin

text \<open>
  The hooks of \<open>src/sqfs_mgr.c\<close> on directories: \<open>opendir\<close>, \<open>readdir\<close>, \<open>closedir\<close> and the
  listing of an image directory that \<open>opendir\<close> keeps for \<open>readdir\<close>.
\<close>

section \<open>The listing\<close>

fun free_sqfs_dir_entry_list :: "SqfsDirEntryNode list \<Rightarrow> ('w, 'h) proc \<Rightarrow> ('w, 'h) proc" where
  "free_sqfs_dir_entry_list [] s = s"
| "free_sqfs_dir_entry_list (current # rest) s =
     (let s1 = free_inode (node_inode current) s
      in free_sqfs_dir_entry_list rest (s1\<lparr>live_nodes := live_nodes s1 - 1\<rparr>))"

definition entry_free :: "('w, 'h) proc \<Rightarrow> ('w, 'h) proc" where
  "entry_free s = s\<lparr>live_dir_entries := live_dir_entries s - 1\<rparr>"

text \<open>\<open>sizeof(((struct dirent *)0)->d_name)\<close> of the C library.\<close>

abbreviation (input) D_NAME_SIZE :: nat where "D_NAME_SIZE \<equiv> 256"

definition make_node :: "('w, 'h) env \<Rightarrow> sqfs_dir_entry \<Rightarrow> sqfs_inode \<Rightarrow> SqfsDirEntryNode" where
  "make_node P dir_entry inode =
     \<lparr>node_inode = Some inode,
      node_dirent =
        \<lparr>d_ino = unat (base_inode_number inode),
         d_off = 114514,
         d_reclen = sizeof_dirent (cfg P),
         d_type = (if base_type inode = SQFS_INODE_DIR \<or> base_type inode = SQFS_INODE_EXT_DIR
                   then DT_DIR else DT_REG),
         d_name = take (entry_size dir_entry + 1) (entry_name dir_entry)\<rparr>\<rparr>"

text \<open>
  The loop of \<open>enumerate_dir\<close>: \<^term>\<open>None\<close> if it never ends. The list is what
  \<open>*dir_entry_list\<close> stands for. Writing the name and its terminator behind the end of
  \<open>d_name\<close> is undefined behaviour.
\<close>

partial_function (option) enumerate_dir ::
    "('w, 'h) env \<Rightarrow> ptr \<Rightarrow> SqfsDirEntryNode list \<Rightarrow> ('w, 'h) proc
      \<Rightarrow> (SqfsDirEntryNode list \<times> ('w, 'h) proc) option" where
  "enumerate_dir E r ns s =
     (case sys_call (sqfs_dir_reader_read (lib E) r) s of
        ((ret, entry), s1) \<Rightarrow>
          if ret > 0 then Some (ns, s1)
          else if ret < 0 then
            Some ([], free_sqfs_dir_entry_list ns (sqfs_util_log_failure E ''sqfs_dir_reader_read'' ret s1))
          else
            (case entry of
               None \<Rightarrow> Some (ns, set_trap Faulted s1)
             | Some dir_entry \<Rightarrow>
                 let s2 = s1\<lparr>live_dir_entries := live_dir_entries s1 + 1\<rparr>
                 in (case malloc E s2 of
                       (None, s3) \<Rightarrow>
                         Some ([], free_sqfs_dir_entry_list ns
                           (entry_free (log_msg E (''  malloc failed for dir entry'' @ nl) s3)))
                     | (Some p, s3) \<Rightarrow>
                         let s4 = s3\<lparr>live_nodes := live_nodes s3 + 1\<rparr>
                         in (case sys_call (sqfs_dir_reader_get_inode (lib E) r) s4 of
                               ((ret2, inode), s5) \<Rightarrow>
                                 if ret2 \<noteq> 0 then
                                   Some ([], free_sqfs_dir_entry_list ns
                                     (entry_free (log_msg E (''  '' @
                                        take (entry_size dir_entry + 1) (entry_name dir_entry) @
                                        '' size=? head16=<inode error '' @ show_int ret2 @ ''>'' @ nl) s5)))
                                 else
                                   (case inode of
                                      None \<Rightarrow> Some (ns, set_trap Faulted s5)
                                    | Some i \<Rightarrow>
                                        if entry_size dir_entry + 1 \<ge> D_NAME_SIZE
                                        then Some (ns, set_trap Faulted s5)
                                        else enumerate_dir E r
                                               (LL_APPEND (ut E) ns (make_node E dir_entry i))
                                               (got_inode inode s5))))))"

section \<open>opendir\<close>

text \<open>The labels \<open>out_unlock_only\<close> and \<open>out\<close>.\<close>

definition opendir_unlock ::
    "('w, 'h) env \<Rightarrow> int option \<Rightarrow> int option \<Rightarrow> ('w, 'h) proc \<Rightarrow> int option \<times> ('w, 'h) proc" where
  "opendir_unlock P underlying_dir result s =
     (let saved_errno = errno s;
          s1 = sqfs_unlock s
      in case (underlying_dir, result) of
           (Some d, None) \<Rightarrow>
             (None, (snd (sys_call (libc_closedir (libc P) d) s1))\<lparr>errno := saved_errno\<rparr>)
         | _ \<Rightarrow> (result, s1))"

definition opendir_out ::
    "('w, 'h) env \<Rightarrow> int option \<Rightarrow> sqfs_inode option \<Rightarrow> ptr \<Rightarrow> ('w, 'h) proc \<Rightarrow> int option \<times> ('w, 'h) proc" where
  "opendir_out P underlying_dir inode r s =
     (let saved_errno = errno s;
          s1 = destroy_reader P r (free_inode inode s)
      in opendir_unlock P underlying_dir None (s1\<lparr>errno := saved_errno\<rparr>))"

definition dir_add_entry ::
    "('w, 'h) env \<Rightarrow> ptr \<Rightarrow> int \<Rightarrow> ptr \<Rightarrow> bool \<Rightarrow> ('w, 'h) proc \<Rightarrow> ('w, 'h) proc" where
  "dir_add_entry P p d r is_real s =
     dir_attach P p
       \<lparr>dir_key = d, dir_reader = r, is_real_dir = is_real, dir_entry_list = [],
        dir_entry_current = [], dir_entry_list_reached_end = False\<rparr> s"

text \<open>From the directory inode found in the image on.\<close>

definition opendir_merge ::
    "('w, 'h) env \<Rightarrow> int option \<Rightarrow> ptr \<Rightarrow> sqfs_inode \<Rightarrow> ('w, 'h) proc \<Rightarrow> int option \<times> ('w, 'h) proc" where
  "opendir_merge P real_dir r inode s =
     (case sys_call (sqfs_dir_reader_open_dir (lib P) r inode) s of
        (ret, s1) \<Rightarrow>
          if ret \<noteq> 0 then
            opendir_out P real_dir (Some inode) r
              ((sqfs_util_log_failure P ''sqfs_dir_reader_open_dir'' ret s1)
                 \<lparr>errno := errno_from_sqfs (lib P) ret\<rparr>)
          else
            (case (if real_dir = None then create_backing_dir P s1 else (real_dir, s1)) of
               (None, s2) \<Rightarrow> opendir_out P None (Some inode) r s2
             | (Some d, s2) \<Rightarrow>
                 (case malloc P s2 of
                    (None, s3) \<Rightarrow> opendir_out P (Some d) (Some inode) r (s3\<lparr>errno := ENOMEM\<rparr>)
                  | (Some p, s3) \<Rightarrow>
                      let s4 = dir_add_entry P p d r (real_dir \<noteq> None) s3
                      in (case enumerate_dir P r [] s4 of
                            None \<Rightarrow> (None, set_trap Hung s4)
                          | Some (ns, s5) \<Rightarrow>
                              let s6 = s5\<lparr>dir_heap := (dir_heap s5)(p := map_option
                                            (\<lambda>e. e\<lparr>dir_entry_list := ns\<rparr>) (dir_heap s5 p))\<rparr>
                              in opendir_unlock P (Some d) (Some d) (free_inode (Some inode) s6)))))"

definition opendir_locked ::
    "('w, 'h) env \<Rightarrow> int option \<Rightarrow> string \<Rightarrow> ('w, 'h) proc \<Rightarrow> int option \<times> ('w, 'h) proc" where
  "opendir_locked P real_dir relative s =
     (if \<not> sqfs_mgr_loaded_locked s then
        (if real_dir \<noteq> None then opendir_unlock P real_dir real_dir (s\<lparr>errno := 0\<rparr>)
         else opendir_unlock P None None (s\<lparr>errno := ENOENT\<rparr>))
      else
        (case create_dir_reader P s of
           (None, s1) \<Rightarrow> opendir_unlock P real_dir None (s1\<lparr>errno := ENOMEM\<rparr>)
         | (Some r, s1) \<Rightarrow>
             (case sqfs_find_inode P (Some relative) s1 of
                (None, s2) \<Rightarrow>
                  let saved_errno = errno s2
                  in if real_dir \<noteq> None then
                       let s3 = log_hook P (Some ''sqfs_opendir'')
                                  (dquote @ relative @ dquote @ '' belong to the upper layer'' @ nl) s2;
                           s4 = destroy_reader P r s3
                       in opendir_unlock P real_dir real_dir (s4\<lparr>errno := 0\<rparr>)
                     else
                       let s3 = log_hook P (Some ''sqfs_opendir'')
                                  (''sqfs_find_inode('' @ dquote @ relative @ dquote @ '') failed: '' @
                                   show_int saved_errno @ nl) s2
                       in opendir_out P None None r (s3\<lparr>errno := saved_errno\<rparr>)
              | (Some inode, s2) \<Rightarrow>
                  if base_type inode \<noteq> SQFS_INODE_DIR \<and> base_type inode \<noteq> SQFS_INODE_EXT_DIR
                  then opendir_out P real_dir (Some inode) r (s2\<lparr>errno := ENOTDIR\<rparr>)
                  else opendir_merge P real_dir r inode s2)))"

text \<open>
  As in \<open>File_Ops\<close>, \<open>gap\<close> is what other threads do between the real call and the locked part.
\<close>

definition opendir_amid ::
    "('w, 'h) env \<Rightarrow> (('w, 'h) proc \<Rightarrow> ('w, 'h) proc) \<Rightarrow> string option \<Rightarrow> ('w, 'h) proc
      \<Rightarrow> int option \<times> ('w, 'h) proc" where
  "opendir_amid P gap name s =
     (case sys_call (libc_opendir (libc P) name) s of
        (underlying_dir, s1) \<Rightarrow>
          (case sqfs_check_path_then_convert P name True PATH_MAX of
             Inl ret \<Rightarrow>
               if underlying_dir \<noteq> None then (underlying_dir, s1\<lparr>errno := 0\<rparr>)
               else (None, s1\<lparr>errno := ENOENT\<rparr>)
           | Inr relative \<Rightarrow>
               let s2 = log_hook P (Some ''sqfs_opendir'')
                          ((case name of Some path \<Rightarrow> path | None \<Rightarrow> ''(null)'') @ '' -> '' @ relative @ nl) s1
               in opendir_locked P underlying_dir relative (sqfs_lock (gap s2))))"

definition sqfs_opendir ::
    "('w, 'h) env \<Rightarrow> string option \<Rightarrow> ('w, 'h) proc \<Rightarrow> int option \<times> ('w, 'h) proc" where
  "sqfs_opendir P name s = opendir_amid P (\<lambda>t. t) name s"

lemmas sqfs_opendir_defs = sqfs_opendir_def opendir_amid_def

section \<open>readdir and closedir\<close>

definition find_dir :: "('w, 'h) env \<Rightarrow> int \<Rightarrow> ('w, 'h) proc \<Rightarrow> ptr option" where
  "find_dir P d s = HASH_FIND (ut P) (dir_map s) d"

definition dump_dirent :: "('w, 'h) env \<Rightarrow> string \<Rightarrow> dirent option \<Rightarrow> ('w, 'h) proc \<Rightarrow> ('w, 'h) proc" where
  "dump_dirent P pre entry s =
     (case entry of
        None \<Rightarrow> log_msg P (''  '' @ pre @ '' (null)'' @ nl) s
      | Some e \<Rightarrow>
          log_msg P (''  '' @ pre @ '' ino='' @ show_nat (d_ino e) @ '' off='' @ show_int (d_off e) @
            '' reclen='' @ show_nat (d_reclen e) @ '' type='' @ show_nat (d_type e) @ '' name='' @
            dquote @ d_name e @ dquote @ nl) s)"

definition dump_if :: "('w, 'h) env \<Rightarrow> bool \<Rightarrow> string \<Rightarrow> dirent option \<Rightarrow> ('w, 'h) proc \<Rightarrow> ('w, 'h) proc" where
  "dump_if P log_readdir pre entry s = (if log_readdir then dump_dirent P pre entry s else s)"

text \<open>The part of \<open>sqfs_readdir\<close> that serves the image's entries, on the record at \<open>p\<close>.\<close>

definition readdir_image ::
    "('w, 'h) env \<Rightarrow> bool \<Rightarrow> ptr \<Rightarrow> DirMapEntry \<Rightarrow> ('w, 'h) proc \<Rightarrow> dirent option \<times> ('w, 'h) proc" where
  "readdir_image P log_readdir p found s =
     (if dir_entry_list_reached_end found then
        (None, sqfs_unlock (dump_if P log_readdir ''sqfs_dir:'' None s))
      else
        let current = (if dir_entry_current found = [] then dir_entry_list found
                       else dir_entry_current found)
        in case current of
             [] \<Rightarrow> (None, sqfs_unlock s)
           | node # rest \<Rightarrow>
               let found' = found\<lparr>dir_entry_current := rest,
                                  dir_entry_list_reached_end := (rest = [])\<rparr>;
                   s1 = s\<lparr>dir_heap := (dir_heap s)(p \<mapsto> found')\<rparr>;
                   result = Some (node_dirent node);
                   s2 = dump_if P log_readdir ''sqfs_dir:'' result s1
               in (result, sqfs_unlock s2))"

definition sqfs_readdir :: "('w, 'h) env \<Rightarrow> int \<Rightarrow> ('w, 'h) proc \<Rightarrow> dirent option \<times> ('w, 'h) proc" where
  "sqfs_readdir P dirp s =
     (let log_readdir = log_enabled P (Some ''sqfs_readdir'');
          s1 = sqfs_lock s
      in case find_dir P dirp s1 of
           None \<Rightarrow> sys_call (libc_readdir (libc P) dirp) (sqfs_unlock s1)
         | Some p \<Rightarrow>
             (case dir_heap s1 p of
                None \<Rightarrow> (None, set_trap Faulted s1)
              | Some found \<Rightarrow>
                  if is_real_dir found then
                    (case sys_call (libc_readdir (libc P) dirp) s1 of
                       (Some result, s2) \<Rightarrow>
                         (Some result, sqfs_unlock (dump_if P log_readdir ''real_dir:'' (Some result) s2))
                     | (None, s2) \<Rightarrow> readdir_image P log_readdir p found s2)
                  else readdir_image P log_readdir p found s1))"

definition closedir_amid ::
    "('w, 'h) env \<Rightarrow> (('w, 'h) proc \<Rightarrow> ('w, 'h) proc) \<Rightarrow> int \<Rightarrow> ('w, 'h) proc \<Rightarrow> int \<times> ('w, 'h) proc" where
  "closedir_amid P gap dir s =
     (let s1 = sqfs_lock s
      in case find_dir P dir s1 of
           None \<Rightarrow> sys_call (libc_closedir (libc P) dir) (gap (sqfs_unlock s1))
         | Some p \<Rightarrow>
             (case dir_heap s1 p of
                None \<Rightarrow> (-1, set_trap Faulted s1)
              | Some found \<Rightarrow>
                  let s2 = s1\<lparr>dir_map := HASH_DEL (ut P) (dir_key found) p (dir_map s1)\<rparr>;
                      s3 = destroy_reader P (dir_reader found) s2;
                      s4 = free_sqfs_dir_entry_list (dir_entry_list found) s3;
                      s5 = s4\<lparr>dir_heap := (dir_heap s4)(p := None)\<rparr>;
                      s6 = log_hook P (Some ''sqfs_closedir'') (''dir=0x'' @ show_base 16 (nat dir) @ nl) s5
                  in sys_call (libc_closedir (libc P) (dir_key found)) (gap (sqfs_unlock s6))))"

definition sqfs_closedir :: "('w, 'h) env \<Rightarrow> int \<Rightarrow> ('w, 'h) proc \<Rightarrow> int \<times> ('w, 'h) proc" where
  "sqfs_closedir P dir s = closedir_amid P (\<lambda>t. t) dir s"

lemmas sqfs_closedir_defs = sqfs_closedir_def closedir_amid_def

end
