(* ===== verification/Dir_Spec.thy ===== *)
theory Dir_Spec
  imports Dir_Ops
begin

text \<open>
  What the hooks on directories do: the listing that \<open>opendir\<close> takes from the image is complete
  and in order, \<open>readdir\<close> delivers the real entries, then that listing, then the end for ever,
  and \<open>closedir\<close> gives everything back. Each hook fulfils the contract of \<open>Tables\<close>.
\<close>

section \<open>The listing\<close>

lemma free_list_simps [simp]:
  "mutex_recursive (free_sqfs_dir_entry_list ns s) = mutex_recursive s"
  "mutex_depth (free_sqfs_dir_entry_list ns s) = mutex_depth s"
  "mgr_file (free_sqfs_dir_entry_list ns s) = mgr_file s"
  "mgr_compressor (free_sqfs_dir_entry_list ns s) = mgr_compressor s"
  "mgr_data_reader (free_sqfs_dir_entry_list ns s) = mgr_data_reader s"
  "dir_map (free_sqfs_dir_entry_list ns s) = dir_map s" "fd_map (free_sqfs_dir_entry_list ns s) = fd_map s"
  "dir_heap (free_sqfs_dir_entry_list ns s) = dir_heap s" "fd_heap (free_sqfs_dir_entry_list ns s) = fd_heap s"
  "next_ptr (free_sqfs_dir_entry_list ns s) = next_ptr s" "os (free_sqfs_dir_entry_list ns s) = os s"
  "trapped (free_sqfs_dir_entry_list ns s) = trapped s" "errno (free_sqfs_dir_entry_list ns s) = errno s"
  "live_readers (free_sqfs_dir_entry_list ns s) = live_readers s"
  "live_parts (free_sqfs_dir_entry_list ns s) = live_parts s"
  "live_nodes (free_sqfs_dir_entry_list ns s) = live_nodes s - int (length ns)"
  by (induction ns arbitrary: s) (simp_all add: free_inode_def)

lemma free_list_inodes [simp]:
  "(\<And>n. n \<in> set ns \<Longrightarrow> node_inode n \<noteq> None) \<Longrightarrow>
     live_inodes (free_sqfs_dir_entry_list ns s) = live_inodes s - int (length ns)"
  by (induction ns arbitrary: s) (simp_all add: free_inode_def)

text \<open>
  What taking the listing keeps: everything but the allocator and the counters of what is held. It
  faults only for a name that is too long.
\<close>

definition enum_frame :: "'w libsquashfs \<Rightarrow> ('w \<Rightarrow> handle set) \<Rightarrow> ('w, 'h) proc \<Rightarrow> ('w, 'h) proc \<Rightarrow> bool" where
  "enum_frame Q H s t \<longleftrightarrow>
     mutex_recursive t = mutex_recursive s \<and> mutex_depth t = mutex_depth s \<and>
     mgr_file t = mgr_file s \<and> mgr_compressor t = mgr_compressor s \<and>
     mgr_data_reader t = mgr_data_reader s \<and> dir_map t = dir_map s \<and> fd_map t = fd_map s \<and>
     fd_heap t = fd_heap s \<and> dir_heap t = dir_heap s \<and> live_readers t = live_readers s \<and>
     live_parts t = live_parts s \<and> next_ptr s \<le> next_ptr t \<and> H (os s) \<subseteq> H (os t) \<and> trap_kept Q s t"

lemma enum_frame_trans: "enum_frame Q H s t \<Longrightarrow> enum_frame Q H t u \<Longrightarrow> enum_frame Q H s u"
  using trap_kept_trans [of Q s t u] by (auto simp: enum_frame_def)

lemma enum_frame_steady: "steady H s t \<Longrightarrow> enum_frame Q H s t"
  by (simp add: enum_frame_def steadyD)

lemma enum_frame_updates [simp]:
  "enum_frame Q H s (t\<lparr>live_dir_entries := n\<rparr>) = enum_frame Q H s t"
  "enum_frame Q H s (t\<lparr>live_nodes := n\<rparr>) = enum_frame Q H s t"
  "enum_frame Q H s (t\<lparr>live_inodes := n\<rparr>) = enum_frame Q H s t"
  "enum_frame Q H s (free_sqfs_dir_entry_list ns t) = enum_frame Q H s t"
  "enum_frame Q H s (entry_free t) = enum_frame Q H s t"
  by (simp_all add: enum_frame_def trap_kept_def entry_free_def)

lemma enum_frame_fault: "enum_frame Q H s t \<Longrightarrow> long_names Q \<Longrightarrow> enum_frame Q H s (set_trap Faulted t)"
  by (simp add: enum_frame_def trap_kept_def set_trap_def)

lemma enum_frame_malloc:
  assumes "kernel_ok (libc P) H budget" and "malloc P s = (r, t)"
  shows "enum_frame Q H s t" and "live_inodes t = live_inodes s"
  using steady_malloc [OF assms] by (cases r; auto simp: enum_frame_def steady_def core_eq_def calm_def)+

lemma listing_okD:
  assumes "listing_ok L Q left"
  shows "sqfs_dir_reader_read Q r w = ((0, entry), e, w') \<Longrightarrow>
      left r w' < left r w \<and> (\<exists>d. entry = Some d)"
    and "sqfs_dir_reader_get_inode Q r w = ((ret, i), e, w') \<Longrightarrow>
      left r w' \<le> left r w \<and> (ret = 0 \<longrightarrow> i \<noteq> None)"
    and "left r (snd (snd (libc_malloc_ok L w))) \<le> left r w"
proof -
  show "left r w' < left r w \<and> (\<exists>d. entry = Some d)"
    if "sqfs_dir_reader_read Q r w = ((0, entry), e, w')"
    using assms [unfolded listing_ok_def, THEN conjunct1, THEN spec, THEN spec, of r w] that by auto
  show "left r w' \<le> left r w \<and> (ret = 0 \<longrightarrow> i \<noteq> None)"
    if "sqfs_dir_reader_get_inode Q r w = ((ret, i), e, w')"
    using assms [unfolded listing_ok_def, THEN conjunct2, THEN conjunct1, THEN spec, THEN spec, of r w] that by simp
  show "left r (snd (snd (libc_malloc_ok L w))) \<le> left r w"
    using assms by (simp add: listing_ok_def)
qed

lemma sys_call_os: "sys_call f s = (a, t) \<Longrightarrow> \<exists>e. f (os s) = (a, e, os t)"
  by (auto simp: sys_call_def split: prod.splits)

text \<open>
  One round of the loop: it ends, holding only the inodes of the nodes it returns, or it goes on
  with one more node and fewer entries left.
\<close>

definition all_held :: "SqfsDirEntryNode list \<Rightarrow> bool" where
  "all_held ns \<longleftrightarrow> (\<forall>n \<in> set ns. node_inode n \<noteq> None)"

definition enum_done :: "'w libsquashfs \<Rightarrow> ('w \<Rightarrow> handle set) \<Rightarrow> SqfsDirEntryNode list \<Rightarrow> ('w, 'h) proc \<Rightarrow>
    (SqfsDirEntryNode list \<times> ('w, 'h) proc) option \<Rightarrow> bool" where
  "enum_done Q H ns s r \<longleftrightarrow>
     (\<exists>ns' t. r = Some (ns', t) \<and> enum_frame Q H s t \<and> all_held ns' \<and>
        live_inodes t - int (length ns') = live_inodes s - int (length ns))"

lemma enum_done_freed:
  assumes "enum_frame Q H s t" and "live_inodes t = live_inodes s" and "all_held ns"
  shows "enum_done Q H ns s (Some ([], free_sqfs_dir_entry_list ns t))"
  using assms by (auto simp: enum_done_def all_held_def)

lemma enum_frame_log:
  assumes "kernel_ok (libc P) H budget" and "enum_frame Q H s t"
  shows "enum_frame Q H s (log_msg P m t)"
  using enum_frame_trans [OF assms(2) enum_frame_steady [OF steady_log_msg [OF assms(1)]]] .

lemma enum_round_inode:
  assumes ok: "platform_ok P H budget left" and held: "all_held ns"
    and rd: "sys_call (sqfs_dir_reader_read (lib P) r) s = ((0, Some d), s1)"
    and ml: "malloc P (s1\<lparr>live_dir_entries := live_dir_entries s1 + 1\<rparr>) = (Some p, s3)"
    and f3: "enum_frame (lib P) H s s3" "live_inodes s3 = live_inodes s"
  shows "enum_done (lib P) H ns s (enumerate_dir P r ns s) \<or>
    (\<exists>i u. enumerate_dir P r ns s = enumerate_dir P r (ns @ [make_node P d i]) u \<and> enum_frame (lib P) H s u \<and>
       live_inodes u = live_inodes s + 1 \<and> left r (os u) \<le> left r (os s3))"
proof -
  note K = platform_okD(2) [OF ok] and Q = platform_okD(3) [OF ok] and L = platform_okD(4) [OF ok]
  define s4 where "s4 = s3\<lparr>live_nodes := live_nodes s3 + 1\<rparr>"
  obtain ret i s5 where c5: "sys_call (sqfs_dir_reader_get_inode (lib P) r) s4 = ((ret, i), s5)"
    by (metis surj_pair)
  have f5: "enum_frame (lib P) H s s5" "live_inodes s5 = live_inodes s"
    using steady_call' [OF lib_keepsD(13) [OF Q] c5] f3
      enum_frame_trans [of "lib P" H s s4 s5] enum_frame_steady [of H s4 s5]
    by (simp_all add: s4_def steadyD)
  obtain e2 where "sqfs_dir_reader_get_inode (lib P) r (os s4) = ((ret, i), e2, os s5)"
    using sys_call_os [OF c5] by blast
  then have l5: "left r (os s5) \<le> left r (os s3)" "ret = 0 \<Longrightarrow> i \<noteq> None"
    using listing_okD(2) [OF L] by (auto simp: s4_def)
  show ?thesis
  proof (cases "ret = 0")
    case False
    have "\<exists>m. enumerate_dir P r ns s = Some ([], free_sqfs_dir_entry_list ns (entry_free (log_msg P m s5)))"
      using rd ml c5 False
      by (subst enumerate_dir.simps) (auto simp: s4_def [symmetric])
    then show ?thesis
      using enum_done_freed [OF _ _ held, of "lib P" H s] enum_frame_log [OF K f5(1)] f5(2)
      by (auto simp: entry_free_def)
  next
    case True
    with l5 obtain inode where i: "i = Some inode" by blast
    show ?thesis
    proof (cases "entry_size d + 1 < 256")
      case fits: True
      have "enumerate_dir P r ns s = enumerate_dir P r (ns @ [make_node P d inode]) (got_inode i s5)"
        using rd fits ml c5 True i platform_okD(1) [OF ok]
        by (subst enumerate_dir.simps) (simp add: s4_def [symmetric] uthash_ok_def)
      then show ?thesis
        using f5 l5(1) i by (intro disjI2 exI [of _ inode] exI [of _ "got_inode i s5"]) (simp add: got_inode_def)
    next
      case long: False
      obtain e1 w1 where "sqfs_dir_reader_read (lib P) r (os s) = ((0, Some d), e1, w1)"
        using sys_call_os [OF rd] by blast
      then have "long_names (lib P)" using long by (auto simp: long_names_def intro!: exI [of _ r] exI [of _ "os s"])
      moreover have "enumerate_dir P r ns s = Some (ns, set_trap Faulted s5)"
        using rd long ml c5 True i by (subst enumerate_dir.simps) (simp add: s4_def [symmetric])
      ultimately show ?thesis using enum_frame_fault [OF f5(1)] f5(2) held by (simp add: enum_done_def)
    qed
  qed
qed

lemma enum_round:
  assumes ok: "platform_ok P H budget left" and held: "all_held ns"
  shows "enum_done (lib P) H ns s (enumerate_dir P r ns s) \<or>
    (\<exists>d i u. enumerate_dir P r ns s = enumerate_dir P r (ns @ [make_node P d i]) u \<and> enum_frame (lib P) H s u \<and>
       live_inodes u = live_inodes s + 1 \<and> left r (os u) < left r (os s))"
proof -
  note K = platform_okD(2) [OF ok] and Q = platform_okD(3) [OF ok] and L = platform_okD(4) [OF ok]
  obtain ret entry s1 where c1: "sys_call (sqfs_dir_reader_read (lib P) r) s = ((ret, entry), s1)"
    by (metis surj_pair)
  have f1: "enum_frame (lib P) H s s1" "live_inodes s1 = live_inodes s"
    using steady_call' [OF lib_keepsD(12) [OF Q] c1] by (simp_all add: enum_frame_steady steadyD)
  show ?thesis
  proof (cases "ret = 0")
    case False
    have "enum_done (lib P) H ns s (Some (ns, s1))" using f1 held by (simp add: enum_done_def)
    moreover have "enum_done (lib P) H ns s (Some ([], free_sqfs_dir_entry_list ns (sqfs_util_log_failure P f e s1)))" for f e
      using enum_frame_log [OF K f1(1)] f1(2) held by (intro enum_done_freed) (simp_all add: sqfs_util_log_failure_def)
    ultimately show ?thesis
      using False c1 by (subst enumerate_dir.simps) (simp add: not_less)
  next
    case True
    obtain e where "sqfs_dir_reader_read (lib P) r (os s) = ((0, entry), e, os s1)"
      using sys_call_os [OF c1] True by blast
    then obtain d where d: "entry = Some d" and l1: "left r (os s1) < left r (os s)"
      using listing_okD(1) [OF L] by blast
    define s2 where "s2 = s1\<lparr>live_dir_entries := live_dir_entries s1 + 1\<rparr>"
    obtain mp s3 where ml: "malloc P s2 = (mp, s3)" by (cases "malloc P s2")
    have f3: "enum_frame (lib P) H s s3" "live_inodes s3 = live_inodes s"
      using enum_frame_trans [OF _ enum_frame_malloc(1) [OF K ml], of "lib P" s] enum_frame_malloc(2) [OF K ml] f1
      by (simp_all add: s2_def)
    have l3: "left r (os s3) \<le> left r (os s1)"
      using ml listing_okD(3) [OF L, of r "os s1"]
      by (auto simp: malloc_def sys_call_def s2_def split: prod.splits if_splits)
    show ?thesis
    proof (cases mp)
      case None
      have "\<exists>m. enumerate_dir P r ns s = Some ([], free_sqfs_dir_entry_list ns (entry_free (log_msg P m s3)))"
        using c1 True d ml None by (subst enumerate_dir.simps) (auto simp: s2_def [symmetric])
      then show ?thesis
        using enum_done_freed [OF _ _ held, of "lib P" H s] enum_frame_log [OF K f3(1)] f3(2)
        by (auto simp: entry_free_def)
    next
      case (Some p)
      from enum_round_inode [where r = r and ?s1.0 = s1 and p = p, OF ok held _ _ f3] c1 True d ml Some l1 l3
      show ?thesis by (fastforce simp: s2_def)
    qed
  qed
qed

lemma enumerate_dir_done:
  assumes ok: "platform_ok P H budget left" and "all_held ns"
  shows "enum_done (lib P) H ns s (enumerate_dir P r ns s)"
  using assms(2)
proof (induction "left r (os s)" arbitrary: ns s rule: less_induct)
  case less
  from enum_round [OF ok less.prems, of s r] show ?case
  proof (elim disjE exE conjE)
    fix d i u
    assume eq: "enumerate_dir P r ns s = enumerate_dir P r (ns @ [make_node P d i]) u"
      and u: "enum_frame (lib P) H s u" "live_inodes u = live_inodes s + 1" "left r (os u) < left r (os s)"
    have "all_held (ns @ [make_node P d i])" using less.prems by (auto simp: all_held_def make_node_def)
    from less.hyps [OF u(3) this] u(1,2) show ?thesis
      unfolding eq enum_done_def by (auto intro: enum_frame_trans)
  qed
qed

section \<open>readdir\<close>

lemma find_dir_table:
  assumes "mgr_ok P H s"
  shows "find_dir P d s = None \<longleftrightarrow> dir_table P s d = None"
  using entry_at_None [OF mgr_okD(2) [OF assms]] by (simp add: find_dir_def dir_table_def)

lemma find_dir_entry:
  assumes "mgr_ok P H s" and "find_dir P d s = Some p"
  obtains e where "dir_heap s p = Some e" "dir_key e = d" "dir_table P s d = Some e" "dir_entry_ok e"
proof -
  obtain e where e: "dir_heap s p = Some e" "dir_key e = d" "dir_table P s d = Some e"
    using table_ok_find [OF mgr_okD(2) [OF assms(1)]] assms(2) by (metis dir_table_def find_dir_def)
  with mgr_okD(5) [OF assms(1) e(1)] show thesis using that by blast
qed

text \<open>What the image part of a directory stream has still to deliver.\<close>

definition remaining :: "DirMapEntry \<Rightarrow> SqfsDirEntryNode list" where
  "remaining e =
     (if dir_entry_list_reached_end e then []
      else if dir_entry_current e = [] then dir_entry_list e else dir_entry_current e)"

definition advanced :: "DirMapEntry \<Rightarrow> DirMapEntry" where
  "advanced e =
     e\<lparr>dir_entry_current := tl (remaining e), dir_entry_list_reached_end := (tl (remaining e) = [])\<rparr>"

lemma remaining_advanced: "remaining e \<noteq> [] \<Longrightarrow> remaining (advanced e) = tl (remaining e)"
  by (simp add: remaining_def advanced_def)

lemma advanced_ok:
  assumes "dir_entry_ok e"
  shows "dir_entry_ok (advanced e)" "dir_key (advanced e) = dir_key e"
    "dir_entry_list (advanced e) = dir_entry_list e" "is_real_dir (advanced e) = is_real_dir e"
    "dir_reader (advanced e) = dir_reader e"
proof -
  have "suffix (remaining e) (dir_entry_list e)"
    using assms by (auto simp: remaining_def dir_entry_ok_def)
  then have "suffix (tl (remaining e)) (dir_entry_list e)"
    using suffix_tl suffix_order.trans by blast
  then show "dir_entry_ok (advanced e)"
    using assms by (simp add: dir_entry_ok_def advanced_def)
qed (simp_all add: advanced_def)

lemma dump_if_steady: "kernel_ok (libc P) H budget \<Longrightarrow> steady H s (dump_if P b pre e s)"
  using steady_log_msg [of P H budget s]
  by (auto simp: dump_if_def dump_dirent_def split: option.split)

lemma readdir_image_eq:
  "readdir_image P b p e s =
     (case remaining e of
        [] \<Rightarrow> (None, sqfs_unlock (dump_if P (b \<and> dir_entry_list_reached_end e) ''sqfs_dir:'' None s))
      | n # ns \<Rightarrow> (Some (node_dirent n),
          sqfs_unlock (dump_if P b ''sqfs_dir:'' (Some (node_dirent n)) (dir_store p (advanced e) s))))"
  by (auto simp: readdir_image_def remaining_def advanced_def dir_store_def dump_if_def Let_def
      split: list.split)

lemma hook_post_dir_store:
  assumes "hook_post P H s t" and "dir_heap t p = Some e" and "dir_entry_ok e"
  shows "hook_post P H s (dir_store p (advanced e) t)"
proof -
  have "mgr_ok P H t" using assms(1) by (simp add: hook_post_def)
  from mgr_ok_dir_store(1) [OF this assms(2), of "advanced e"] advanced_ok [OF assms(3)] assms(1)
  show ?thesis by (simp add: hook_post_def trap_kept_def dir_store_def)
qed

lemma find_dir_locked [simp]: "find_dir P d (s\<lparr>mutex_depth := n\<rparr>) = find_dir P d s"
  by (simp add: find_dir_def)

lemma readdir_image_contract:
  assumes ok: "platform_ok P H budget left" and lk: "can_lock s" and post: "hook_post P H (sqfs_lock s) t"
    and e: "dir_heap t p = Some e" "dir_entry_ok e"
  shows "hook_post P H s (snd (readdir_image P b p e t))"
proof -
  note dump = dump_if_steady [OF platform_okD(2) [OF ok]]
  have "hook_post P H s (sqfs_unlock (dump_if P b' pre x t))" for b' pre x
    using hook_post_unlock [OF lk hook_post_steady [OF post dump]] .
  moreover have "hook_post P H s (sqfs_unlock (dump_if P b' pre x (dir_store p (advanced e) t)))" for b' pre x
    using hook_post_unlock [OF lk hook_post_steady [OF hook_post_dir_store [OF post e] dump]] .
  ultimately show ?thesis
    by (auto simp: readdir_image_eq split: list.split)
qed

lemma readdir_mapped:
  assumes "can_lock s" and "find_dir P d s = Some p" and "dir_heap s p = Some e"
    and "sys_call (libc_readdir (libc P) d) (sqfs_lock s) = (x, s2)"
  shows "sqfs_readdir P d s =
      (let b = log_enabled P (Some ''sqfs_readdir'')
       in if is_real_dir e
          then (case x of Some y \<Rightarrow> (Some y, sqfs_unlock (dump_if P b ''real_dir:'' (Some y) s2))
                  | None \<Rightarrow> readdir_image P b p e s2)
          else readdir_image P b p e (sqfs_lock s))"
  using assms by (simp add: sqfs_readdir_def Let_def)

lemma readdir_contract:
  assumes ok: "platform_ok P H budget left" and inv: "mgr_ok P H s" and lk: "can_lock s"
  shows "hook_post P H s (snd (sqfs_readdir P d s))"
proof (cases "find_dir P d s")
  note K = platform_okD(2) [OF ok]
  case None
  then show ?thesis
    using lk inv steady_hook_post [OF steady_call [OF kernel_keeps(5) [OF K]] inv]
    by (simp add: sqfs_readdir_def find_dir_def)
next
  note K = platform_okD(2) [OF ok]
  case (Some p)
  then obtain e where e: "dir_heap s p = Some e" "dir_entry_ok e" by (rule find_dir_entry [OF inv])
  let ?b = "log_enabled P (Some ''sqfs_readdir'')"
  have locked: "hook_post P H (sqfs_lock s) (sqfs_lock s)" using inv lk by (simp add: hook_post_def)
  obtain x s2 where c: "sys_call (libc_readdir (libc P) d) (sqfs_lock s) = (x, s2)"
    by (cases "sys_call (libc_readdir (libc P) d) (sqfs_lock s)")
  have s2: "hook_post P H (sqfs_lock s) s2" "dir_heap s2 p = Some e"
    using hook_post_steady [OF locked] steady_call' [OF kernel_keeps(5) [OF K] c] e(1) lk
    by (simp_all add: steadyD(11))
  have dir: "dir_heap (sqfs_lock s) p = Some e" using e(1) lk by simp
  show ?thesis
    unfolding readdir_mapped [OF lk Some e(1) c] Let_def
    using readdir_image_contract [OF ok lk locked dir e(2)] readdir_image_contract [OF ok lk s2 e(2)]
      hook_post_unlock [OF lk hook_post_steady [OF s2(1) dump_if_steady [OF K]]]
    by (auto split: option.split)
qed

interpretation readdir: hook "\<lambda>P s. snd (sqfs_readdir P d s)" for d
  by unfold_locales (rule readdir_contract)

section \<open>closedir\<close>

definition closedir_detached :: "('w, 'h) env \<Rightarrow> ptr \<Rightarrow> DirMapEntry \<Rightarrow> ('w, 'h) proc \<Rightarrow> ('w, 'h) proc" where
  "closedir_detached P p e s =
     (let s1 = s\<lparr>dir_map := HASH_DEL (ut P) (dir_key e) p (dir_map s)\<rparr>;
          s2 = free_sqfs_dir_entry_list (dir_entry_list e) (destroy_reader P (dir_reader e) s1)
      in s2\<lparr>dir_heap := (dir_heap s2)(p := None)\<rparr>)"

lemma closedir_detached_post:
  assumes ok: "platform_ok P H budget left" and inv: "mgr_ok P H s" and e: "dir_heap s p = Some e"
  shows "hook_post P H s (closedir_detached P p e s)"
    and "dir_table P (closedir_detached P p e s) = (dir_table P s)(dir_key e := None)"
    and "fd_table P (closedir_detached P p e s) = fd_table P s"
    and "live_inodes (closedir_detached P p e s) = live_inodes s - int (length (dir_entry_list e))"
    and "live_readers (closedir_detached P p e s) = live_readers s - 1"
    and "H (os s) \<subseteq> H (os (closedir_detached P p e s))"
proof -
  have held: "\<And>n. n \<in> set (dir_entry_list e) \<Longrightarrow> node_inode n \<noteq> None"
    using mgr_okD(5) [OF inv e] by (simp add: dir_entry_ok_def)
  define u where "u = closedir_detached P p e s"
  define v where "v = (dir_detach P p e s)\<lparr>live_readers := live_readers s - 1,
      live_inodes := live_inodes s - int (length (dir_entry_list e))\<rparr>"
  note d = mgr_ok_dir_detach [OF platform_okD(1) [OF ok] inv e]
  have k: "H (os s) \<subseteq> H (os u)"
    using destroy_reader_keeps [OF platform_okD(3) [OF ok], of "s\<lparr>dir_map := HASH_DEL (ut P) (dir_key e) p (dir_map s)\<rparr>"]
    by (simp add: u_def closedir_detached_def Let_def)
  have f: "fd_map u = fd_map v" "fd_heap u = fd_heap v" "dir_map u = dir_map v" "dir_heap u = dir_heap v"
    "next_ptr u = next_ptr v" "live_readers u = live_readers v" "live_inodes u = live_inodes v"
    "mgr_data_reader u = mgr_data_reader v" "os v = os s"
    using held by (simp_all add: u_def v_def closedir_detached_def dir_detach_def destroy_reader_def Let_def)
  have "mgr_ok P H u"
    using d(1) f k unfolding v_def [symmetric]
    by (simp add: mgr_ok_def table_defs holdings_ok_def) blast
  then show "hook_post P H s (closedir_detached P p e s)"
    by (simp add: hook_post_def u_def closedir_detached_def destroy_reader_def Let_def)
  show "dir_table P (closedir_detached P p e s) = (dir_table P s)(dir_key e := None)"
    using d(2) f(3,4) by (simp add: u_def [symmetric] dir_table_def v_def)
  show "fd_table P (closedir_detached P p e s) = fd_table P s"
    "live_inodes (closedir_detached P p e s) = live_inodes s - int (length (dir_entry_list e))"
    "live_readers (closedir_detached P p e s) = live_readers s - 1"
    "H (os s) \<subseteq> H (os (closedir_detached P p e s))"
    using f k by (simp_all add: u_def [symmetric] fd_table_def v_def dir_detach_def)
qed

lemma closedir_mapped:
  assumes "can_lock s" and "find_dir P d s = Some p" and "dir_heap s p = Some e" and "dir_key e = d"
  shows "\<exists>m. \<forall>gap. closedir_amid P gap d s =
    sys_call (libc_closedir (libc P) d)
      (gap (sqfs_unlock (log_hook P (Some ''sqfs_closedir'') m (closedir_detached P p e (sqfs_lock s)))))"
  using assms by (auto simp: sqfs_closedir_defs closedir_detached_def Let_def)

lemma closedir_contract:
  assumes ok: "platform_ok P H budget left" and inv: "mgr_ok P H s" and lk: "can_lock s"
  shows "hook_post P H s (snd (sqfs_closedir P d s))"
proof (cases "find_dir P d s")
  note K = platform_okD(2) [OF ok]
  case None
  then have "mgr_ok P H (snd (sys_call (libc_closedir (libc P) d) s))"
    using mgr_ok_close [OF inv sys_call.core closes_call(1) [OF kernel_okD(8) [OF K]]] find_dir_table [OF inv] by auto
  then show ?thesis using None lk by (simp add: sqfs_closedir_defs hook_post_def)
next
  note K = platform_okD(2) [OF ok]
  case (Some p)
  then obtain e where e: "dir_heap s p = Some e" "dir_key e = d" by (rule find_dir_entry [OF inv])
  define u where "u = closedir_detached P p e (sqfs_lock s)"
  have dp: "hook_post P H (sqfs_lock s) u" "dir_table P u = (dir_table P (sqfs_lock s))(d := None)"
    using closedir_detached_post(1,2) [OF ok mgr_ok_locked [OF lk inv], of p e] e lk by (simp_all add: u_def)
  obtain m where eq: "sqfs_closedir P d s = sys_call (libc_closedir (libc P) d)
      (sqfs_unlock (log_hook P (Some ''sqfs_closedir'') m u))"
    using closedir_mapped [OF lk Some e] unfolding u_def sqfs_closedir_def by blast
  define v where "v = sqfs_unlock (log_hook P (Some ''sqfs_closedir'') m u)"
  have v: "hook_post P H s v"
    unfolding v_def using hook_post_unlock [OF lk hook_post_steady [OF dp(1) steady_log_hook [OF K]]] .
  have "0 < mutex_depth u" using dp(1) lk by (simp add: hook_post_def)
  then have "dir_table P v d = None" using dp(2) by (simp add: v_def dir_table_def)
  then have "mgr_ok P H (snd (sys_call (libc_closedir (libc P) d) v))"
    using mgr_ok_close [OF _ sys_call.core closes_call(1) [OF kernel_okD(8) [OF K]], of P v d] v
    by (simp add: hook_post_def)
  then show ?thesis
    using v eq by (simp add: hook_post_def trap_kept_def v_def)
qed

interpretation closedir: hook "\<lambda>P s. snd (sqfs_closedir P d s)" for d
  by unfold_locales (rule closedir_contract)

section \<open>opendir\<close>

lemma steady_destroy_reader:
  assumes "lib_keeps (lib P) H" and "steady H (s\<lparr>live_readers := live_readers s + 1\<rparr>) t"
  shows "steady H s (destroy_reader P r t)"
  using assms(2) steady_call [OF lib_keepsD(14) [OF assms(1)], of t r]
  by (auto simp: steady_def core_eq_def calm_def destroy_reader_def Let_def)

lemma steady_create_reader:
  assumes "lib_keeps (lib P) H" and "create_dir_reader P s = (r, t)"
  shows "steady H (s\<lparr>live_readers := live_readers s + (if r = None then 0 else 1)\<rparr>) t"
  using assms(2) steady_call [OF lib_keepsD(8) [OF assms(1), of "mgr_super s" "the (mgr_compressor s)" "the (mgr_file s)"], of s]
  by (auto simp: create_dir_reader_def split_beta steady_def core_eq_def calm_def split: if_split_asm)

text \<open>
  Everything the manager keeps is as before, and the handles in \<open>A\<close> are open: the frame of a
  section that may close a handle of its own.
\<close>

definition keeps_open :: "('w \<Rightarrow> handle set) \<Rightarrow> handle set \<Rightarrow> ('w, 'h) proc \<Rightarrow> ('w, 'h) proc \<Rightarrow> bool" where
  "keeps_open H A s t \<longleftrightarrow> core_eq s t \<and> trapped t = trapped s \<and> A \<subseteq> H (os t)"

lemma keeps_open_steady: "steady H s t \<Longrightarrow> A \<subseteq> H (os s) \<Longrightarrow> keeps_open H A s t"
  by (auto simp: keeps_open_def steady_def calm_def)

lemma keeps_open_closed:
  assumes "steady H s t" and "A \<subseteq> H (os s)" and "h \<notin> A" and "closes H h f"
  shows "keeps_open H A s (snd (sys_call f t))"
proof -
  have "A \<subseteq> H (os (snd (sys_call f t)))"
    using steadyD(16) [OF assms(1)] closes_call(1) [OF assms(4), of t] assms(2,3) by blast
  moreover have "core_eq s (snd (sys_call f t))"
    using assms(1) core_eq_trans [OF _ sys_call.core [of t f], of s] by (simp add: steady_def)
  ultimately show ?thesis using steadyD(15) [OF assms(1)] by (simp add: keeps_open_def)
qed

text \<open>
  Leaving without a result: what was opened on the way is closed again, so the state is as
  before. \<open>opened\<close> is the stream the hook has at this point, if any, and \<open>A\<close> are the handles of
  everybody else. The real \<open>closedir\<close> of that stream is the last call.
\<close>

definition closed_last :: "('w, 'h) env \<Rightarrow> int option \<Rightarrow> ('w, 'h) proc \<Rightarrow> bool" where
  "closed_last P opened t \<longleftrightarrow> (\<forall>d. opened = Some d \<longrightarrow> (\<exists>w. os t = snd (snd (libc_closedir (libc P) d w))))"

lemma closed_last_None [simp]: "closed_last P None t"
  by (simp add: closed_last_def)

lemma opendir_unlock_closes: "closed_last P opened (snd (opendir_unlock P opened None t))"
  by (auto simp: closed_last_def opendir_unlock_def sys_call_def Let_def split: option.split prod.split)
    (metis snd_conv)

lemma opendir_out_closes: "closed_last P opened (snd (opendir_out P opened i r t))"
  by (simp add: opendir_out_def Let_def opendir_unlock_closes)

lemma opendir_unlock_None:
  assumes "kernel_ok (libc P) H budget" and "can_lock s" and "A \<subseteq> H (os s)" and "steady H (sqfs_lock s) t"
    and "\<And>d. opened = Some d \<Longrightarrow> Stream d \<notin> A"
  shows "keeps_open H A s (snd (opendir_unlock P opened None t))" and "fst (opendir_unlock P opened None t) = None"
proof -
  have u: "steady H s (sqfs_unlock t)" using steady_unlock [OF assms(2,4)] .
  have "keeps_open H A s ((snd (sys_call (libc_closedir (libc P) d) (sqfs_unlock t)))\<lparr>errno := e\<rparr>)"
    if "opened = Some d" for d e
    using keeps_open_closed [OF u assms(3) assms(5) [OF that] kernel_okD(8) [OF assms(1)]]
    by (simp add: keeps_open_def)
  with keeps_open_steady [OF u assms(3)]
  show "keeps_open H A s (snd (opendir_unlock P opened None t))" and "fst (opendir_unlock P opened None t) = None"
    by (auto simp: opendir_unlock_def Let_def split: option.split)
qed

lemma opendir_unlock_Some [simp]: "opendir_unlock P opened (Some d) t = (Some d, sqfs_unlock t)"
  by (simp add: opendir_unlock_def Let_def split: option.split)

lemma opendir_out_None:
  assumes K: "kernel_ok (libc P) H budget" and Q: "lib_keeps (lib P) H" and lk: "can_lock s"
    and A: "A \<subseteq> H (os s)"
    and t: "steady H ((sqfs_lock s)\<lparr>live_readers := live_readers (sqfs_lock s) + 1,
        live_inodes := live_inodes (sqfs_lock s) + (if i = None then 0 else 1)\<rparr>) t"
    and d: "\<And>d. opened = Some d \<Longrightarrow> Stream d \<notin> A"
  shows "keeps_open H A s (snd (opendir_out P opened i r t))" and "fst (opendir_out P opened i r t) = None"
proof -
  have "steady H ((sqfs_lock s)\<lparr>live_readers := live_readers (sqfs_lock s) + 1\<rparr>) (free_inode i t)"
    using t by (auto simp: steady_def core_eq_def calm_def free_inode_def)
  then have "steady H (sqfs_lock s) ((destroy_reader P r (free_inode i t))\<lparr>errno := e\<rparr>)" for e
    using steady_destroy_reader [OF Q] by simp
  from opendir_unlock_None [OF K lk A this d]
  show "keeps_open H A s (snd (opendir_out P opened i r t))" and "fst (opendir_out P opened i r t) = None"
    by (simp_all add: opendir_out_def Let_def)
qed

text \<open>
  Where the listing of a new record comes from: the lookup found a directory, its reader was opened
  on it, and nothing but the backing stream and the allocation of the record came between that
  and the enumeration.
\<close>

definition enumerated :: "('w, 'h) env \<Rightarrow> sqfs_inode \<Rightarrow> DirMapEntry \<Rightarrow> bool" where
  "enumerated P inode e \<longleftrightarrow>
     (\<exists>t0 t1 t2 t3 v. sys_call (sqfs_dir_reader_open_dir (lib P) (dir_reader e) inode) t0 = (0, t1) \<and>
        (t2 = t1 \<or> t2 = snd (create_backing_dir P t1)) \<and> os t3 = os (snd (malloc P t2)) \<and>
        enumerate_dir P (dir_reader e) [] t3 = Some (dir_entry_list e, v))"

definition listed :: "('w, 'h) env \<Rightarrow> string \<Rightarrow> DirMapEntry \<Rightarrow> bool" where
  "listed P relative e \<longleftrightarrow>
     (\<exists>inode t. fst (sqfs_find_inode P (Some relative) t) = Some inode \<and> is_dir_inode inode \<and> enumerated P inode e)"

text \<open>Why the real stream is returned alone: there is no image, or the path was not found in it.\<close>

definition unlisted :: "('w, 'h) env \<Rightarrow> string \<Rightarrow> ('w, 'h) proc \<Rightarrow> bool" where
  "unlisted P relative s \<longleftrightarrow>
     \<not> sqfs_mgr_loaded_locked s \<or>
     (\<exists>t. sqfs_mgr_loaded_locked t \<and> fst (sqfs_find_inode P (Some relative) t) = None)"

definition unlisted_path :: "('w, 'h) env \<Rightarrow> string option \<Rightarrow> ('w, 'h) proc \<Rightarrow> bool" where
  "unlisted_path P name s \<longleftrightarrow>
     (\<forall>relative. sqfs_check_path_then_convert P name True PATH_MAX = Inr relative \<longrightarrow> unlisted P relative s)"

lemma unlisted_steady: "steady H s t \<Longrightarrow> unlisted P relative t = unlisted P relative s"
  using steadyD(3-5) [of H s t] by (simp add: unlisted_def sqfs_mgr_loaded_locked_def)

text \<open>
  The three ways out of the locked section of \<open>opendir\<close>: no directory and the state as before, the
  real stream closed; the real stream alone, open and not in the table; or a stream with a new
  record that holds the listing, its cursor at the start.
\<close>

definition opendir_step :: "('w, 'h) env \<Rightarrow> ('w \<Rightarrow> handle set) \<Rightarrow> handle set \<Rightarrow> int option \<Rightarrow> bool \<Rightarrow>
    (DirMapEntry \<Rightarrow> bool) \<Rightarrow> ('w, 'h) proc \<Rightarrow> int option \<times> ('w, 'h) proc \<Rightarrow> bool" where
  "opendir_step P H A real alone good s r \<longleftrightarrow>
     (fst r = None \<and> closed_last P real (snd r) \<or>
      (\<exists>d. fst r = Some d \<and> real = Some d \<and> Stream d \<in> H (os (snd r)) \<and> alone)) \<and> keeps_open H A s (snd r) \<or>
     (\<exists>d e. fst r = Some d \<and> (real = None \<and> Stream d \<notin> H (os s) \<or> real = Some d) \<and> hook_post P H s (snd r) \<and>
        H (os s) \<subseteq> H (os (snd r)) \<and>
        dir_table P s d = None \<and> dir_table P (snd r) = (dir_table P s)(d \<mapsto> e) \<and>
        fd_table P (snd r) = fd_table P s \<and> dir_key e = d \<and> is_real_dir e = (real \<noteq> None) \<and>
        remaining e = dir_entry_list e \<and> good e \<and>
        live_inodes (snd r) = live_inodes s + int (length (dir_entry_list e)) \<and>
        live_readers (snd r) = live_readers s + 1)"

lemma opendir_step_None:
  "keeps_open H A s (snd r) \<Longrightarrow> fst r = None \<Longrightarrow> closed_last P real (snd r) \<Longrightarrow> opendir_step P H A real alone good s r"
  by (simp add: opendir_step_def)

text \<open>The part of \<open>opendir\<close> that makes the record, from the malloc on.\<close>

lemma opendir_record_step:
  assumes ok: "platform_ok P H budget left" and lk: "can_lock s" and inv: "mgr_ok P H s"
    and real: "real = None \<and> Stream d \<notin> H (os s) \<or> real = Some d"
    and new: "dir_table P s d = None" "Stream d \<in> H (os s2)"
    and s2: "steady H ((sqfs_lock s)\<lparr>live_readers := live_readers (sqfs_lock s) + 1,
        live_inodes := live_inodes (sqfs_lock s) + 1\<rparr>) s2"
    and ml: "malloc P s2 = (Some p, s3)"
    and en: "enumerate_dir P r [] (dir_add_entry P p d r (real \<noteq> None) s3) = Some (ns, s5)"
    and good: "\<And>e. dir_reader e = r \<Longrightarrow> dir_entry_list e = ns \<Longrightarrow> good e"
  shows "opendir_step P H A real alone good s (opendir_unlock P (Some d) (Some d) (free_inode (Some inode)
    (s5\<lparr>dir_heap := (dir_heap s5)(p := map_option (\<lambda>e. e\<lparr>dir_entry_list := ns\<rparr>) (dir_heap s5 p))\<rparr>)))"
proof -
  note K = platform_okD(2) [OF ok]
  define e where "e = \<lparr>dir_key = d, dir_reader = r, is_real_dir = (real \<noteq> None), dir_entry_list = ns,
      dir_entry_current = [], dir_entry_list_reached_end = False\<rparr>"
  define s4 where "s4 = dir_add_entry P p d r (real \<noteq> None) s3"
  define u where "u = sqfs_unlock (free_inode (Some inode)
    (s5\<lparr>dir_heap := (dir_heap s5)(p := map_option (\<lambda>e. e\<lparr>dir_entry_list := ns\<rparr>) (dir_heap s5 p))\<rparr>))"
  have p: "p = next_ptr s" and s3: "steady H (s2\<lparr>next_ptr := Suc (next_ptr s2)\<rparr>) s3"
    using steady_malloc(2) [OF K ml refl] steadyD(9) [OF s2] lk by simp_all
  have held: "enum_frame (lib P) H s4 s5" "all_held ns" "live_inodes s5 = live_inodes s4 + int (length ns)"
    using enumerate_dir_done [where ns = "[]" and r = r and s = s4, OF ok] en by (auto simp: enum_done_def all_held_def s4_def)
  note all = steadyD [OF s2] steadyD [OF s3] held(1) [unfolded enum_frame_def]
  have f: "dir_heap u = (dir_heap s)(p \<mapsto> e)" "dir_map u = HASH_ADD (ut P) d p (dir_map s)"
    "fd_heap u = fd_heap s" "fd_map u = fd_map s" "next_ptr s < next_ptr u"
    "live_inodes u = live_inodes s + int (length ns)" "live_readers u = live_readers s + 1"
    "mgr_data_reader u = mgr_data_reader s" "mgr_file u = mgr_file s" "mgr_compressor u = mgr_compressor s"
    "mutex_depth u = mutex_depth s" "mutex_recursive u = mutex_recursive s"
    "live_parts u = live_parts s"
    using all held(3) lk p
    by (simp_all add: u_def s4_def dir_add_entry_def dir_attach_def free_inode_def e_def)
  have H: "H (os s) \<subseteq> H (os u)" "Stream d \<in> H (os u)" and trap: "trap_kept (lib P) s u"
    using all new(2) lk
    by (auto simp: u_def s4_def dir_add_entry_def dir_attach_def free_inode_def trap_kept_def)
  have eok: "dir_entry_ok e" using held(2) by (simp add: e_def dir_entry_ok_def all_held_def)
  have "mgr_ok P H u" "dir_table P u = (dir_table P s)(d \<mapsto> e)"
    using mgr_ok_dir_new [OF platform_okD(1) [OF ok] inv, of e u] new(1) eok H f p by (simp_all add: e_def)
  then have "hook_post P H s u" "dir_table P u = (dir_table P s)(d \<mapsto> e)" "fd_table P u = fd_table P s"
    using f trap by (simp_all add: hook_post_def fd_table_def)
  then show ?thesis
    using new(1) f(6,7) real H(1) good [of e] unfolding opendir_step_def opendir_unlock_Some u_def [symmetric] fst_conv snd_conv
    by (intro disjI2 exI [of _ d] exI [of _ e]) (simp add: e_def remaining_def)
qed

text \<open>
  The real stream that a thread brings into its locked section: it is open, no record names it,
  and it is nobody else's.
\<close>

definition brings :: "('w, 'h) env \<Rightarrow> ('w \<Rightarrow> handle set) \<Rightarrow> handle set \<Rightarrow> int option \<Rightarrow> ('w, 'h) proc \<Rightarrow> bool" where
  "brings P H A real s \<longleftrightarrow> A \<subseteq> H (os s) \<and>
     (\<forall>d. real = Some d \<longrightarrow> Stream d \<notin> A \<and> Stream d \<in> H (os s) \<and> dir_table P s d = None)"

lemma opendir_merge_step:
  assumes ok: "platform_ok P H budget left" and lk: "can_lock s" and inv: "mgr_ok P H s"
    and real: "brings P H A real s"
    and t: "steady H ((sqfs_lock s)\<lparr>live_readers := live_readers (sqfs_lock s) + 1,
        live_inodes := live_inodes (sqfs_lock s) + 1\<rparr>) t"
    and good: "\<And>e. enumerated P inode e \<Longrightarrow> good e"
  shows "opendir_step P H A real alone good s (opendir_merge P real r inode t)"
proof -
  note K = platform_okD(2) [OF ok] and Q = platform_okD(3) [OF ok]
  let ?base = "(sqfs_lock s)\<lparr>live_readers := live_readers (sqfs_lock s) + 1,
        live_inodes := live_inodes (sqfs_lock s) + 1\<rparr>"
  have A: "A \<subseteq> H (os s)" using real by (simp add: brings_def)
  have out: "opendir_step P H A real alone good s (opendir_out P opened (Some inode) r u)"
    if "steady H ?base u" "\<And>d. opened = Some d \<Longrightarrow> Stream d \<notin> A" "real = None \<or> opened = real" for opened u
    using opendir_out_None [OF K Q lk A, of "Some inode" u opened r] that opendir_out_closes [of P opened]
    by (intro opendir_step_None) auto
  obtain ret t1 where c1: "sys_call (sqfs_dir_reader_open_dir (lib P) r inode) t = (ret, t1)"
    by (cases "sys_call (sqfs_dir_reader_open_dir (lib P) r inode) t")
  have t1: "steady H ?base t1" using steady_trans [OF t steady_call' [OF lib_keepsD(11) [OF Q] c1]] .
  obtain od t2 where c2: "(if real = None then create_backing_dir P t1 else (real, t1)) = (od, t2)"
    by (metis surj_pair)
  have t2: "steady H ?base t2"
    using c2 t1 steady_trans [OF t1 steady_backing_dir [OF K]] by (auto split: if_split_asm)
  have sub: "H (os s) \<subseteq> H (os t1)" using steadyD(16) [OF t1] lk by auto
  have fresh: "(real = None \<and> Stream d \<notin> H (os s) \<or> real = Some d) \<and> Stream d \<notin> A \<and> Stream d \<in> H (os t2) \<and>
      dir_table P s d = None" if "od = Some d" for d
  proof (cases real)
    case None
    then have "Stream d \<notin> H (os t1) \<and> Stream d \<in> H (os t2)"
      using c2 that create_backing_dir_fresh(2) [OF K, of t1 od t2 d] by simp
    then show ?thesis using None sub A mgr_okD(4) [OF inv, of d] by blast
  next
    case (Some d')
    then show ?thesis using c2 that real sub by (auto simp: brings_def)
  qed
  show ?thesis
  proof (cases "ret = 0")
    case False
    have "steady H ?base ((sqfs_util_log_failure P f x t1)\<lparr>errno := y\<rparr>)" for f x y
      using steady_trans [OF t1 steady_log_msg [OF K]] by (simp add: sqfs_util_log_failure_def)
    from out [OF this, of real] real False c1 show ?thesis by (simp add: opendir_merge_def brings_def)
  next
    case True
    show ?thesis
    proof (cases od)
      case None
      then show ?thesis using out [OF t2, of None] True c1 c2 by (simp add: opendir_merge_def split: if_splits)
    next
      case (Some d)
      obtain mp t3 where ml: "malloc P t2 = (mp, t3)" by (cases "malloc P t2")
      show ?thesis
      proof (cases mp)
        case None
        have "steady H ?base (t3\<lparr>errno := ENOMEM\<rparr>)"
          using steady_trans [OF t2 steady_malloc(1) [OF K ml None]] by simp
        from out [OF this, of "Some d"] fresh [OF Some] show ?thesis
          using True c1 c2 Some ml None by (auto simp: opendir_merge_def)
      next
        case mp: (Some p)
        have "enum_done (lib P) H [] (dir_add_entry P p d r (real \<noteq> None) t3)
            (enumerate_dir P r [] (dir_add_entry P p d r (real \<noteq> None) t3))"
          by (rule enumerate_dir_done [OF ok]) (simp add: all_held_def)
        then obtain ns t5 where en: "enumerate_dir P r [] (dir_add_entry P p d r (real \<noteq> None) t3) = Some (ns, t5)"
          by (auto simp: enum_done_def)
        have "good e" if "dir_reader e = r" "dir_entry_list e = ns" for e
        proof (rule good, unfold enumerated_def that, intro exI conjI)
          show "sys_call (sqfs_dir_reader_open_dir (lib P) r inode) t = (0, t1)" using c1 True by simp
          show "t2 = t1 \<or> t2 = snd (create_backing_dir P t1)" using c2 by (auto split: if_split_asm)
          show "os (dir_add_entry P p d r (real \<noteq> None) t3) = os (snd (malloc P t2))"
            using ml by (simp add: dir_add_entry_def dir_attach_def)
          show "enumerate_dir P r [] (dir_add_entry P p d r (real \<noteq> None) t3) = Some (ns, t5)" using en .
        qed
        from opendir_record_step [where A = A and inode = inode, OF ok lk inv _ _ _ t2 ml [unfolded mp] en this] fresh [OF Some]
        show ?thesis using True c1 c2 Some ml mp en by (simp add: opendir_merge_def)
      qed
    qed
  qed
qed

lemma opendir_locked_step:
  assumes ok: "platform_ok P H budget left" and lk: "can_lock s" and inv: "mgr_ok P H s"
    and real: "brings P H A real s"
  shows "opendir_step P H A real (unlisted P relative s) (listed P relative) s (opendir_locked P real relative (sqfs_lock s))"
proof -
  note K = platform_okD(2) [OF ok] and Q = platform_okD(3) [OF ok]
  let ?l = "sqfs_lock s"
  have A: "A \<subseteq> H (os s)" using real by (simp add: brings_def)
  have none: "opendir_step P H A real (unlisted P relative s) (listed P relative) s (opendir_unlock P real None t)" if "steady H ?l t" for t
    using opendir_unlock_None [OF K lk A that, of real] real opendir_unlock_closes [of P real]
    by (intro opendir_step_None) (simp_all add: brings_def)
  have keep: "opendir_step P H A real (unlisted P relative s) (listed P relative) s (opendir_unlock P real real t)" if "steady H ?l t" "real \<noteq> None" "unlisted P relative s" for t
    using that(2,3) keeps_open_steady [OF steady_unlock [OF lk that(1)] A] real steadyD(16) [OF steady_unlock [OF lk that(1)]]
    by (auto simp: opendir_step_def brings_def)
  show ?thesis
  proof (cases "sqfs_mgr_loaded_locked ?l")
    case False
    then show ?thesis
      using none [of "?l\<lparr>errno := ENOENT\<rparr>"] lk keep [of "?l\<lparr>errno := 0\<rparr>"]
      by (cases real) (simp_all add: opendir_locked_def unlisted_def sqfs_mgr_loaded_locked_def)
  next
    case loaded: True
    obtain rd t1 where c1: "create_dir_reader P ?l = (rd, t1)" by (cases "create_dir_reader P ?l")
    note t1 = steady_create_reader [OF Q c1]
    show ?thesis
    proof (cases rd)
      case None
      then show ?thesis
        using none [of "t1\<lparr>errno := ENOMEM\<rparr>"] t1 loaded c1 by (simp add: opendir_locked_def)
    next
      case (Some r)
      let ?b = "?l\<lparr>live_readers := live_readers ?l + 1\<rparr>"
      have t1': "steady H ?b t1" using t1 Some by simp
      obtain i t2 where f: "sqfs_find_inode P (Some relative) t1 = (i, t2)"
        by (cases "sqfs_find_inode P (Some relative) t1")
      have t2: "steady H (?l\<lparr>live_readers := live_readers ?l + 1,
          live_inodes := live_inodes ?l + (if i = None then 0 else 1)\<rparr>) t2"
        using t1' steady_find [OF Q f] by (auto simp: steady_def core_eq_def calm_def)
      have out: "opendir_step P H A real (unlisted P relative s) (listed P relative) s (opendir_out P opened i r u)"
        if "steady H (?l\<lparr>live_readers := live_readers ?l + 1,
          live_inodes := live_inodes ?l + (if i = None then 0 else 1)\<rparr>) u" "opened = real" for opened u
        using opendir_out_None [OF K Q lk A that(1), of opened r] that(2) real opendir_out_closes [of P opened]
        by (intro opendir_step_None) (simp_all add: brings_def)
      show ?thesis
      proof (cases i)
        case None
        have "steady H ?l ((destroy_reader P r (log_hook P g m t2))\<lparr>errno := 0\<rparr>)" for g m
          using steady_destroy_reader [OF Q, of ?l] steady_trans [OF _ steady_log_hook [OF K], of _ t2] t2 None by simp
        moreover have "opendir_step P H A real (unlisted P relative s) (listed P relative) s (opendir_out P None None r ((log_hook P g m t2)\<lparr>errno := x\<rparr>))"
          if "real = None" for g m x
          using out [of _ None] that steady_trans [OF t2 steady_log_hook [OF K]] None by simp
        moreover have "sqfs_mgr_loaded_locked t1"
          using loaded steadyD(3-5) [OF t1'] by (simp add: sqfs_mgr_loaded_locked_def)
        then have "unlisted P relative s" using f None unfolding unlisted_def by (metis fst_conv)
        ultimately show ?thesis
          using keep loaded c1 Some f None by (cases real) (simp_all add: opendir_locked_def Let_def)
      next
        case inode: (Some inode)
        have "opendir_step P H A real (unlisted P relative s) (listed P relative) s (opendir_out P real (Some inode) r (t2\<lparr>errno := ENOTDIR\<rparr>))"
          using out [of _ real] t2 inode by simp
        moreover have "opendir_step P H A real (unlisted P relative s) (listed P relative) s (opendir_merge P real r inode t2)"
          if "is_dir_inode inode"
          using t2 inode f that
          by (intro opendir_merge_step [OF ok lk inv real]) (auto simp: listed_def intro!: exI [of _ inode] exI [of _ t1])
        ultimately show ?thesis
          using loaded c1 Some f inode by (simp add: opendir_locked_def is_dir_inode_def)
      qed
    qed
  qed
qed

text \<open>The same for the whole of \<open>opendir\<close>, from the state before the real call.\<close>

definition opendir_effect ::
    "('w, 'h) env \<Rightarrow> ('w \<Rightarrow> handle set) \<Rightarrow> int option \<Rightarrow> bool \<Rightarrow> (DirMapEntry \<Rightarrow> bool) \<Rightarrow>
      ('w, 'h) proc \<Rightarrow> int option \<times> ('w, 'h) proc \<Rightarrow> bool" where
  "opendir_effect P H real alone good s r \<longleftrightarrow>
     (fst r = None \<and> closed_last P real (snd r) \<or>
      (\<exists>d. fst r = Some d \<and> real = Some d \<and> Stream d \<in> H (os (snd r)) \<and> alone)) \<and> steady H s (snd r) \<or>
     (\<exists>d e. fst r = Some d \<and> (real = None \<or> real = Some d) \<and> hook_post P H s (snd r) \<and>
        H (os s) \<subseteq> H (os (snd r)) \<and> Stream d \<notin> H (os s) \<and>
        dir_table P s d = None \<and> dir_table P (snd r) = (dir_table P s)(d \<mapsto> e) \<and>
        fd_table P (snd r) = fd_table P s \<and> dir_key e = d \<and> is_real_dir e = (real \<noteq> None) \<and>
        remaining e = dir_entry_list e \<and> good e \<and>
        live_inodes (snd r) = live_inodes s + int (length (dir_entry_list e)) \<and>
        live_readers (snd r) = live_readers s + 1)"

lemma opendir_step_effect:
  assumes s1: "steady H s s1" and new: "\<And>d. real = Some d \<Longrightarrow> Stream d \<notin> H (os s)"
    and step: "opendir_step P H (H (os s)) real alone good s1 r"
  shows "opendir_effect P H real alone good s r"
  using step unfolding opendir_step_def
proof (elim disjE exE conjE)
  fix d e
  assume "real = None" "Stream d \<notin> H (os s1)"
  then have "Stream d \<notin> H (os s)" using steadyD(16) [OF s1] by blast
  moreover assume "fst r = Some d" "hook_post P H s1 (snd r)" "H (os s1) \<subseteq> H (os (snd r))" "dir_table P s1 d = None"
    "dir_table P (snd r) = (dir_table P s1)(d \<mapsto> e)" "fd_table P (snd r) = fd_table P s1" "dir_key e = d"
    "is_real_dir e = (real \<noteq> None)" "remaining e = dir_entry_list e" "good e"
    "live_inodes (snd r) = live_inodes s1 + int (length (dir_entry_list e))" "live_readers (snd r) = live_readers s1 + 1"
  ultimately show ?thesis
    using \<open>real = None\<close> steady_tables [OF s1, of P] steadyD [OF s1]
    unfolding opendir_effect_def hook_post_def by (intro disjI2 exI [of _ d] exI [of _ e]) (auto simp: trap_kept_def)
next
  fix d e
  assume "real = Some d" "fst r = Some d" "hook_post P H s1 (snd r)" "H (os s1) \<subseteq> H (os (snd r))" "dir_table P s1 d = None"
    "dir_table P (snd r) = (dir_table P s1)(d \<mapsto> e)" "fd_table P (snd r) = fd_table P s1" "dir_key e = d"
    "is_real_dir e = (real \<noteq> None)" "remaining e = dir_entry_list e" "good e"
    "live_inodes (snd r) = live_inodes s1 + int (length (dir_entry_list e))" "live_readers (snd r) = live_readers s1 + 1"
  then show ?thesis
    using new [of d] steady_tables [OF s1, of P] steadyD [OF s1]
    unfolding opendir_effect_def hook_post_def by (intro disjI2 exI [of _ d] exI [of _ e]) (auto simp: trap_kept_def)
qed (use s1 core_eq_trans [of s s1 "snd r"] in \<open>auto simp: opendir_effect_def keeps_open_def steady_def calm_def\<close>)

lemma opendir_sys_effect:
  assumes ok: "platform_ok P H budget left" and inv: "mgr_ok P H s" and lk: "can_lock s"
    and c: "sys_call (libc_opendir (libc P) name) s = (real, s1)"
  shows "opendir_effect P H real (unlisted_path P name s)
    (\<lambda>e. \<exists>relative. sqfs_check_path_then_convert P name True PATH_MAX = Inr relative \<and> listed P relative e)
    s (sqfs_opendir P name s)"
proof -
  note K = platform_okD(2) [OF ok]
  have s1: "steady H s s1" using kernel_keeps(15) [OF K] c by (rule steady_call')
  have real: "Stream d \<notin> H (os s)" "Stream d \<in> H (os s1)" if "real = Some d" for d
    using opens_fresh [OF kernel_okD(5) [OF K], of name s] c that by simp_all
  have unused: "dir_table P s d = None" if "real = Some d" for d
    using mgr_okD(4) [OF inv, of d] real(1) [OF that] by blast
  have locked: "opendir_effect P H real (unlisted P relative s) (listed P relative) s (opendir_locked P real relative (sqfs_lock (log_hook P f m s1)))"
    for relative f m
  proof -
    have s2: "steady H s (log_hook P f m s1)" using steady_trans [OF s1 steady_log_hook [OF K]] .
    show ?thesis
      unfolding unlisted_steady [OF s2, symmetric]
    proof (rule opendir_step_effect [OF s2 real(1) opendir_locked_step [OF ok]])
    show "can_lock (log_hook P f m s1)" using lk steadyD(1,2) [OF s1] by (simp add: can_lock_def)
    show "mgr_ok P H (log_hook P f m s1)" using steady_mgr_ok [OF s2 inv] .
    have "H (os s1) \<subseteq> H (os (log_hook P f m s1))" using steadyD(16) [OF steady_log_hook [OF K]] .
    then show "brings P H (H (os s)) real (log_hook P f m s1)"
      using real steadyD(16) [OF s2] unused steady_tables [OF s2, of P] by (auto simp: brings_def)
    qed
  qed
  have plain: "real = None \<Longrightarrow> opendir_effect P H real alone good s (None, s1\<lparr>errno := n\<rparr>)"
    "real \<noteq> None \<Longrightarrow> alone \<Longrightarrow> opendir_effect P H real alone good s (real, s1\<lparr>errno := n\<rparr>)" for n good alone
    using s1 real(2) by (auto simp: opendir_effect_def)
  show ?thesis
    using c locked plain by (cases real) (simp_all add: sqfs_opendir_defs unlisted_path_def Let_def split: sum.split)
qed

lemma opendir_contract:
  assumes "platform_ok P H budget left" and "mgr_ok P H s" and "can_lock s"
  shows "hook_post P H s (snd (sqfs_opendir P name s))"
proof -
  obtain real s1 where c: "sys_call (libc_opendir (libc P) name) s = (real, s1)"
    by (cases "sys_call (libc_opendir (libc P) name) s")
  from opendir_sys_effect [OF assms c] show ?thesis
    unfolding opendir_effect_def using steady_hook_post [OF _ assms(2)] by blast
qed

interpretation opendir: hook "\<lambda>P s. snd (sqfs_opendir P name s)" for name
  by unfold_locales (rule opendir_contract)

section \<open>Properties of the listing\<close>

text \<open>
  A reader of libsquashfs that is open on a directory: \<open>pending w\<close> are the entries it has not
  returned yet, with their inodes, and \<open>current w\<close> is the inode of the entry it returned last.
  Allocations succeed and do not disturb it.
\<close>

definition reader_ok :: "'w libc \<Rightarrow> 'w libsquashfs \<Rightarrow> ptr \<Rightarrow>
    ('w \<Rightarrow> (sqfs_dir_entry \<times> sqfs_inode) list) \<Rightarrow> ('w \<Rightarrow> sqfs_inode option) \<Rightarrow> bool" where
  "reader_ok L Q r pending current \<longleftrightarrow>
     (\<forall>w. case sqfs_dir_reader_read Q r w of
        ((ret, entry), e, w') \<Rightarrow>
          (case pending w of
             [] \<Rightarrow> ret > 0
           | (d, i) # ds \<Rightarrow> ret = 0 \<and> entry = Some d \<and> pending w' = ds \<and> current w' = Some i)) \<and>
     (\<forall>w i. current w = Some i \<longrightarrow>
        (case sqfs_dir_reader_get_inode Q r w of
           (res, e, w') \<Rightarrow> res = (0, Some i) \<and> pending w' = pending w)) \<and>
     (\<forall>w. case libc_malloc_ok L w of
        (ok, e, w') \<Rightarrow> ok \<and> pending w' = pending w \<and> current w' = current w)"

lemma reader_okD:
  assumes "reader_ok L Q r pending current"
  shows "case sqfs_dir_reader_read Q r w of
      ((ret, entry), e, w') \<Rightarrow>
        (case pending w of
           [] \<Rightarrow> ret > 0
         | (d, i) # ds \<Rightarrow> ret = 0 \<and> entry = Some d \<and> pending w' = ds \<and> current w' = Some i)"
    and "current w = Some i \<Longrightarrow>
      (case sqfs_dir_reader_get_inode Q r w of (res, e, w') \<Rightarrow> res = (0, Some i) \<and> pending w' = pending w)"
    and "case libc_malloc_ok L w of (ok, e, w') \<Rightarrow> ok \<and> pending w' = pending w \<and> current w' = current w"
proof -
  note c = assms [unfolded reader_ok_def]
  show "case sqfs_dir_reader_read Q r w of
      ((ret, entry), e, w') \<Rightarrow>
        (case pending w of
           [] \<Rightarrow> ret > 0
         | (d, i) # ds \<Rightarrow> ret = 0 \<and> entry = Some d \<and> pending w' = ds \<and> current w' = Some i)"
    using c [THEN conjunct1, THEN spec, of w] .
  show "case sqfs_dir_reader_get_inode Q r w of (res, e, w') \<Rightarrow> res = (0, Some i) \<and> pending w' = pending w"
    if "current w = Some i"
    using c [THEN conjunct2, THEN conjunct1, THEN spec, THEN spec, of w i] that by simp
  show "case libc_malloc_ok L w of (ok, e, w') \<Rightarrow> ok \<and> pending w' = pending w \<and> current w' = current w"
    using c [THEN conjunct2, THEN conjunct2, THEN spec, of w] .
qed

text \<open>A name that fits \<open>d_name\<close> with its terminator.\<close>

definition fits_d_name :: "sqfs_dir_entry \<times> sqfs_inode \<Rightarrow> bool" where
  "fits_d_name di \<longleftrightarrow> entry_size (fst di) + 1 < 256"

lemma enumerate_step:
  assumes U: "uthash_ok (ut P)" and R: "reader_ok (libc P) (lib P) r pending current"
    and pend: "pending (os s) = (d, i) # ds"
  shows "\<exists>u. enumerate_dir P r ns s =
      (if fits_d_name (d, i) then enumerate_dir P r (ns @ [make_node P d i]) (got_inode (Some i) u)
       else Some (ns, set_trap Faulted u)) \<and>
    pending (os u) = ds \<and> live_dir_entries u = live_dir_entries s + 1 \<and> live_nodes u = live_nodes s + 1 \<and>
    trapped u = trapped s"
proof -
  obtain s1 where c1: "sys_call (sqfs_dir_reader_read (lib P) r) s = ((0, Some d), s1)"
    and p1: "pending (os s1) = ds" "current (os s1) = Some i"
    and l1: "live_dir_entries s1 = live_dir_entries s" "live_nodes s1 = live_nodes s" "trapped s1 = trapped s"
    using reader_okD(1) [OF R, of "os s"] pend by (auto simp: sys_call_def split: prod.splits)
  define s2 where "s2 = s1\<lparr>live_dir_entries := live_dir_entries s1 + 1\<rparr>"
  obtain p s3 where ml: "malloc P s2 = (Some p, s3)" and p3: "pending (os s3) = ds" "current (os s3) = Some i"
    and l3: "live_dir_entries s3 = live_dir_entries s2" "live_nodes s3 = live_nodes s2" "trapped s3 = trapped s2"
    using reader_okD(3) [OF R, of "os s2"] p1 by (auto simp: malloc_def sys_call_def s2_def split: prod.splits)
  define s4 where "s4 = s3\<lparr>live_nodes := live_nodes s3 + 1\<rparr>"
  obtain s5 where c5: "sys_call (sqfs_dir_reader_get_inode (lib P) r) s4 = ((0, Some i), s5)"
    and p5: "pending (os s5) = ds"
    and l5: "live_dir_entries s5 = live_dir_entries s4" "live_nodes s5 = live_nodes s4" "trapped s5 = trapped s4"
    using reader_okD(2) [OF R, of "os s4" i] p3 by (auto simp: sys_call_def s4_def split: prod.splits)
  have "enumerate_dir P r ns s =
      (if fits_d_name (d, i) then enumerate_dir P r (ns @ [make_node P d i]) (got_inode (Some i) s5)
       else Some (ns, set_trap Faulted s5))"
    using c1 ml c5 U
    by (subst enumerate_dir.simps) (simp add: fits_d_name_def s2_def [symmetric] s4_def [symmetric] uthash_ok_def)
  then show ?thesis
    using p5 l1 l3 l5 by (intro exI [of _ s5]) (simp add: s2_def s4_def)
qed


lemma enumerate_dir_lists:
  assumes "uthash_ok (ut P)" and "reader_ok (libc P) (lib P) r pending current" and "trapped s = Running"
  shows "\<exists>t. enumerate_dir P r ns s =
      Some (ns @ map (\<lambda>(d, i). make_node P d i) (takeWhile fits_d_name (pending (os s))), t) \<and>
    (list_all fits_d_name (pending (os s)) \<longrightarrow>
       trapped t = Running \<and>
       live_dir_entries t = live_dir_entries s + int (length (pending (os s))) \<and>
       live_nodes t = live_nodes s + int (length (pending (os s)))) \<and>
    (\<not> list_all fits_d_name (pending (os s)) \<longrightarrow> trapped t = Faulted)"
  using assms(3)
proof (induction "pending (os s)" arbitrary: ns s)
  case Nil
  then show ?case
    using reader_okD(1) [OF assms(2), of "os s"]
    by (subst enumerate_dir.simps) (auto simp: sys_call_def split: prod.splits)
next
  case (Cons di ds)
  obtain d i where di: "di = (d, i)" by (cases di)
  obtain u where u: "enumerate_dir P r ns s =
      (if fits_d_name (d, i) then enumerate_dir P r (ns @ [make_node P d i]) (got_inode (Some i) u)
       else Some (ns, set_trap Faulted u))"
    "pending (os u) = ds" "live_dir_entries u = live_dir_entries s + 1" "live_nodes u = live_nodes s + 1"
    "trapped u = trapped s"
    using enumerate_step [OF assms(1,2), of s d i ds ns] Cons.hyps(2) di by auto
  show ?case
  proof (cases "fits_d_name (d, i)")
    case True
    have "trapped (got_inode (Some i) u) = Running" "pending (os (got_inode (Some i) u)) = ds"
      using u Cons.prems by (simp_all add: got_inode_def)
    from Cons.hyps(1) [OF this(2) [symmetric] this(1), of "ns @ [make_node P d i]"] True u di
    show ?thesis by (auto simp: got_inode_def simp flip: Cons.hyps(2))
  next
    case False
    then show ?thesis using u di Cons.prems by (simp add: set_trap_def flip: Cons.hyps(2))
  qed
qed

text \<open>
  C19. The listing of an image directory ends and is complete: \<open>enumerate_dir\<close> returns the nodes
  for exactly the entries of the directory, in the order of the image, behind what the list had
  already, when every name is shorter than \<open>d_name\<close>. It also shows a leak: every
  \<open>sqfs_dir_entry_t\<close> that the reader returned is still held when the listing is complete.
\<close>

theorem enumerate_dir_complete:
  assumes "uthash_ok (ut P)" and "reader_ok (libc P) (lib P) r pending current" and "trapped s = Running"
    and "list_all fits_d_name (pending (os s))"
  shows "\<exists>t. enumerate_dir P r ns s = Some (ns @ map (\<lambda>(d, i). make_node P d i) (pending (os s)), t) \<and>
    trapped t = Running \<and>
    live_dir_entries t = live_dir_entries s + int (length (pending (os s))) \<and>
    live_nodes t = live_nodes s + int (length (pending (os s)))"
proof -
  have "takeWhile fits_d_name (pending (os s)) = pending (os s)" using assms(4) by (simp add: list_all_iff takeWhile_eq_all_conv)
  with enumerate_dir_lists [OF assms(1-3), of ns] assms(4) show ?thesis by simp
qed

definition sample_pending :: "machine \<Rightarrow> (sqfs_dir_entry \<times> sqfs_inode) list" where
  "sample_pending w = replicate (m_listing w)
     (\<lparr>entry_type = SQFS_INODE_FILE, entry_size = 0, entry_name = ''a''\<rparr>, sample_file)"

lemma sample_reader_ok: "reader_ok sample_libc sample_lib r sample_pending (\<lambda>w. Some sample_file)"
proof -
  have "m_listing w \<noteq> 0 \<Longrightarrow> sample_pending w =
      (\<lparr>entry_type = SQFS_INODE_FILE, entry_size = 0, entry_name = ''a''\<rparr>, sample_file) #
      sample_pending (w\<lparr>m_listing := m_listing w - 1\<rparr>)" for w
    by (cases "m_listing w") (simp_all add: sample_pending_def)
  then show ?thesis
    by (auto simp: reader_ok_def sample_libc_def sample_lib_def m_dir_read_def) (simp add: sample_pending_def)
qed

lemma sample_names_fit: "list_all fits_d_name (sample_pending w)"
  by (simp add: sample_pending_def fits_d_name_def list_all_iff)

theorem enumerate_dir_complete_witness:
  "\<exists>t. enumerate_dir sample_env 4 [] (sample_proc\<lparr>os := sample_machine\<lparr>m_listing := 2\<rparr>\<rparr>) =
     Some ([] @ map (\<lambda>(d, i). make_node sample_env d i)
       (sample_pending (os (sample_proc\<lparr>os := sample_machine\<lparr>m_listing := 2\<rparr>\<rparr>))), t) \<and>
    trapped t = Running \<and>
    live_dir_entries t = live_dir_entries (sample_proc\<lparr>os := sample_machine\<lparr>m_listing := 2\<rparr>\<rparr>) +
      int (length (sample_pending (os (sample_proc\<lparr>os := sample_machine\<lparr>m_listing := 2\<rparr>\<rparr>)))) \<and>
    live_nodes t = live_nodes (sample_proc\<lparr>os := sample_machine\<lparr>m_listing := 2\<rparr>\<rparr>) +
      int (length (sample_pending (os (sample_proc\<lparr>os := sample_machine\<lparr>m_listing := 2\<rparr>\<rparr>))))"
  by (rule enumerate_dir_complete [where current = "\<lambda>w. Some sample_file"])
    (simp_all add: sample_uthash_ok sample_reader_ok sample_proc_def fresh_proc_def sample_names_fit)

text \<open>
  C40. The listing trusts the image with the length of a name: it writes behind the end of
  \<open>d_name\<close> exactly when the directory has an entry of 256 characters or more, which the format can
  express: the name fills the array and its terminator falls behind it. Otherwise the listing ends
  normally.
\<close>

theorem enumerate_dir_faults_iff:
  assumes "uthash_ok (ut P)" and "reader_ok (libc P) (lib P) r pending current" and "trapped s = Running"
  shows "\<exists>ms t. enumerate_dir P r ns s = Some (ms, t) \<and>
    (trapped t = Faulted \<longleftrightarrow> (\<exists>(d, i) \<in> set (pending (os s)). 256 \<le> entry_size d + 1))"
proof -
  have "list_all fits_d_name ds \<longleftrightarrow> \<not> (\<exists>(d, i) \<in> set ds. 256 \<le> entry_size d + 1)" for ds
    by (auto simp: list_all_iff fits_d_name_def not_less)
  with enumerate_dir_lists [OF assms, of ns] show ?thesis by (metis trap.distinct(1))
qed

text \<open>The sample with an image whose names have 256 characters.\<close>

definition long_entry :: sqfs_dir_entry where
  "long_entry = \<lparr>entry_type = SQFS_INODE_FILE, entry_size = 255, entry_name = replicate 256 (CHR ''a'')\<rparr>"

definition long_name_env :: "(machine, (int \<times> ptr) list) env" where
  "long_name_env = sample_env\<lparr>lib := sample_lib\<lparr>sqfs_dir_reader_read := \<lambda>r w.
     if m_listing w > 0 then ((0, Some long_entry), None, w\<lparr>m_listing := m_listing w - 1\<rparr>) else ((1, None), None, w)\<rparr>\<rparr>"

lemma long_reader_ok:
  "reader_ok (libc long_name_env) (lib long_name_env) r (\<lambda>w. replicate (m_listing w) (long_entry, sample_file))
    (\<lambda>w. Some sample_file)"
proof -
  have "replicate n e = (case n of 0 \<Rightarrow> [] | Suc m \<Rightarrow> e # replicate m e)"
    for n and e :: "sqfs_dir_entry \<times> sqfs_inode"
    by (cases n) simp_all
  then show ?thesis by (simp add: reader_ok_def long_name_env_def sample_libc_def sample_lib_def split: nat.split)
qed

theorem enumerate_dir_faults_iff_witness:
  "\<exists>ms t. enumerate_dir long_name_env 4 [] (sample_proc\<lparr>os := sample_machine\<lparr>m_listing := 1\<rparr>\<rparr>) = Some (ms, t) \<and>
    trapped t = Faulted"
  using enumerate_dir_faults_iff [OF _ long_reader_ok, where r = 4 and ns = "[]" and s = "sample_proc\<lparr>os := sample_machine\<lparr>m_listing := 1\<rparr>\<rparr>"]
  by (simp add: long_name_env_def sample_uthash_ok sample_proc_def fresh_proc_def long_entry_def)

section \<open>Properties of the hooks on directories\<close>


lemma sys_call_os_simps [simp]: "os (snd (sys_call f s)) = snd (snd (f (os s)))" "fst (sys_call f s) = fst (f (os s))"
  by (simp_all add: sys_call_def split_beta)












text \<open>
  C39. A directory of the image that collides with the real file system in type: the real path is a
  directory that was opened, but the image has something else than a directory under the same
  name. The hook then fails with \<open>ENOTDIR\<close> and closes the real stream, although the real file
  system is documented to come first.
\<close>

theorem opendir_conflict_hides_real:
  assumes "good_config P" and "served P name" and "can_lock s"
    and "sys_call (libc_opendir (libc P) (Some name)) s = (Some d, s1)"
    and "\<not> log_enabled P (Some ''sqfs_opendir'')" and "sqfs_mgr_loaded_locked s"
    and "create_dir_reader P (sqfs_lock s1) = (Some r, s2)"
    and "sqfs_find_inode P (Some (join_with (CHR ''/'') (relative_components (sqfs_mgr_get_prefix P) name))) s2 =
      (Some inode, s3)"
    and "\<not> is_dir_inode inode"
  shows "fst (sqfs_opendir P (Some name) s) = None \<and>
    errno (snd (sqfs_opendir P (Some name) s)) = ENOTDIR \<and>
    (\<exists>u. snd (sqfs_opendir P (Some name) s) =
      (snd (sys_call (libc_closedir (libc P) d) u))\<lparr>errno := ENOTDIR\<rparr>)"
proof -
  have core: "core_eq s s1" using sys_call_core [OF assms(4)] .
  then have "can_lock s1" "sqfs_mgr_loaded_locked (sqfs_lock s1)"
    using assms(3,6) by (simp_all add: can_lock_def core_eq_def sqfs_mgr_loaded_locked_def sqfs_lock_def)
  then have "sqfs_opendir P (Some name) s = opendir_out P (Some d) (Some inode) r (s3\<lparr>errno := ENOTDIR\<rparr>)"
    using assms
    by (simp add: sqfs_opendir_defs check_path_served log_hook_def opendir_locked_def is_dir_inode_def Let_def
        del: sqfs_lock_simps)
  then show ?thesis
    by (simp add: opendir_out_def opendir_unlock_def Let_def) (rule exI, rule refl)
qed

text \<open>The sample with a real directory where the image has a file.\<close>

definition conflict_env :: "(machine, (int \<times> ptr) list) env" where
  "conflict_env = sample_env\<lparr>libc := sample_libc\<lparr>libc_opendir := \<lambda>path. m_alloc_dir\<rparr>\<rparr>"

lemma conflict_path:
  "good_config conflict_env" "served conflict_env ''/hook/d/a''"
  "join_with (CHR ''/'') (relative_components (sqfs_mgr_get_prefix conflict_env) ''/hook/d/a'') = ''d/a''"
proof -
  have "cfg conflict_env = cfg sample_env" by (simp add: conflict_env_def)
  then show "good_config conflict_env" "served conflict_env ''/hook/d/a''"
    "join_with (CHR ''/'') (relative_components (sqfs_mgr_get_prefix conflict_env) ''/hook/d/a'') = ''d/a''"
    using sample_good_config sample_path
    by (simp_all add: good_config_def served_def sqfs_mgr_get_prefix_def)
qed

theorem opendir_conflict_hides_real_witness:
  "fst (sqfs_opendir conflict_env (Some ''/hook/d/a'') sample_loaded) = None \<and>
    errno (snd (sqfs_opendir conflict_env (Some ''/hook/d/a'') sample_loaded)) = ENOTDIR \<and>
    (\<exists>u. snd (sqfs_opendir conflict_env (Some ''/hook/d/a'') sample_loaded) =
      (snd (sys_call (libc_closedir (libc conflict_env) 3) u))\<lparr>errno := ENOTDIR\<rparr>)"
proof -
  let ?s1 = "snd (sys_call m_alloc_dir sample_loaded)"
  let ?s2 = "snd (create_dir_reader conflict_env (sqfs_lock ?s1))"
  have call: "sys_call (libc_opendir (libc conflict_env) (Some ''/hook/d/a'')) sample_loaded = (Some 3, ?s1)"
    by (simp add: conflict_env_def sys_call_def m_alloc_dir_def sample_loaded_def sample_proc_def fresh_proc_def
        sample_machine_def)
  have off: "\<not> log_enabled conflict_env (Some ''sqfs_opendir'')"
    by (simp add: conflict_env_def log_enabled_def sample_getenv_def log_enabled_loop.simps token_matches_def
        rstrip_def is_blank_def)
  have loaded: "sqfs_mgr_loaded_locked sample_loaded"
    by (simp add: sample_loaded_def sqfs_mgr_loaded_locked_def)
  have reader: "create_dir_reader conflict_env (sqfs_lock ?s1) = (Some 4, ?s2)"
    by (simp add: create_dir_reader_def conflict_env_def sys_call_def sample_lib_def split_beta Let_def)
  have "fst (sqfs_find_inode conflict_env (Some ''d/a'') ?s2) = Some sample_file"
    by (simp add: run_defs conflict_env_def m_alloc_dir_def Let_def)
  then have found: "sqfs_find_inode conflict_env (Some (join_with (CHR ''/'')
      (relative_components (sqfs_mgr_get_prefix conflict_env) ''/hook/d/a''))) ?s2 =
      (Some sample_file, snd (sqfs_find_inode conflict_env (Some ''d/a'') ?s2))"
    unfolding conflict_path(3) by (simp add: prod_eq_iff)
  show ?thesis
    by (rule opendir_conflict_hides_real [OF conflict_path(1,2) sample_loaded_lock call off loaded reader found])
      (simp add: is_dir_inode_def sample_file_def)
qed

text \<open>
  The entries that a directory stream has still to deliver: those of the real directory, if
  there is one, then those of the image. A stream of the C library is a list that \<open>readdir\<close>
  takes apart and that stays empty at its end.
\<close>

definition real_stream_ok :: "'w libc \<Rightarrow> int \<Rightarrow> ('w \<Rightarrow> dirent list) \<Rightarrow> bool" where
  "real_stream_ok L d pending \<longleftrightarrow>
     (\<forall>w. case libc_readdir L d w of
        (x, e, w') \<Rightarrow> x = (case pending w of [] \<Rightarrow> None | y # ys \<Rightarrow> Some y) \<and> pending w' = tl (pending w))"

definition merged :: "('w \<Rightarrow> dirent list) \<Rightarrow> DirMapEntry \<Rightarrow> 'w \<Rightarrow> dirent list" where
  "merged pending e w = (if is_real_dir e then pending w else []) @ map node_dirent (remaining e)"

primrec readdirs :: "('w, 'h) env \<Rightarrow> int \<Rightarrow> nat \<Rightarrow> ('w, 'h) proc \<Rightarrow> dirent option list \<times> ('w, 'h) proc" where
  "readdirs P d 0 s = ([], s)"
| "readdirs P d (Suc n) s =
     (let (x, t) = sqfs_readdir P d s; (xs, u) = readdirs P d n t in (x # xs, u))"

lemma dir_table_unlock [simp]: "dir_table P (sqfs_unlock s) = dir_table P s" "os (sqfs_unlock s) = os s"
  by (simp_all add: dir_table_def sqfs_unlock_def)

lemma readdir_image_step:
  assumes inv: "mgr_ok P H s" and e: "dir_heap s p = Some e" "dir_entry_ok e"
    and t: "dir_table P s (dir_key e) = Some e"
  shows "\<exists>e'. fst (readdir_image P False p e s) = map_option node_dirent (case remaining e of [] \<Rightarrow> None | n # _ \<Rightarrow> Some n) \<and>
    dir_table P (snd (readdir_image P False p e s)) (dir_key e) = Some e' \<and>
    remaining e' = tl (remaining e) \<and> is_real_dir e' = is_real_dir e \<and>
    os (snd (readdir_image P False p e s)) = os s"
proof (cases "remaining e")
  case Nil
  with t show ?thesis by (auto simp: readdir_image_eq dump_if_def)
next
  case (Cons n ns)
  from mgr_ok_dir_store(2) [OF inv e(1), of "advanced e"] advanced_ok [OF e(2)]
  have "dir_table P (dir_store p (advanced e) s) (dir_key e) = Some (advanced e)" by simp
  with Cons remaining_advanced [of e] advanced_ok(4) [OF e(2)] show ?thesis
    by (auto simp: readdir_image_eq dump_if_def dir_store_def)
qed

lemma readdir_step:
  assumes inv: "mgr_ok P H s" and lk: "can_lock s" and K: "kernel_ok (libc P) H budget"
    and e: "dir_table P s d = Some e" and str: "real_stream_ok (libc P) d pending"
    and off: "\<not> log_enabled P (Some ''sqfs_readdir'')" and eq: "sqfs_readdir P d s = (x, t)"
  shows "\<exists>e'. dir_table P t d = Some e' \<and> x = (case merged pending e (os s) of [] \<Rightarrow> None | y # _ \<Rightarrow> Some y) \<and>
    merged pending e' (os t) = tl (merged pending e (os s))"
proof -
  obtain p where p: "find_dir P d s = Some p" using find_dir_table [OF inv, of d] e by fastforce
  then have h: "dir_heap s p = Some e" "dir_key e = d" "dir_entry_ok e"
    using e by (auto elim: find_dir_entry [OF inv])
  obtain y s2 where c: "sys_call (libc_readdir (libc P) d) (sqfs_lock s) = (y, s2)"
    by (cases "sys_call (libc_readdir (libc P) d) (sqfs_lock s)")
  then have y: "y = (case pending (os s) of [] \<Rightarrow> None | z # zs \<Rightarrow> Some z)" "pending (os s2) = tl (pending (os s))"
    using spec [OF str [unfolded real_stream_ok_def], of "os s"] lk sys_call_os [OF c] by auto
  have st: "steady H (sqfs_lock s) s2" using steady_call' [OF kernel_keeps(5) [OF K] c] .
  have locked: "mgr_ok P H (sqfs_lock s)" "dir_heap (sqfs_lock s) p = Some e" "dir_table P (sqfs_lock s) d = Some e"
    using mgr_ok_locked [OF lk inv] lk h(1) e by (simp_all add: dir_table_def)
  have s2: "mgr_ok P H s2" "dir_heap s2 p = Some e" "dir_table P s2 d = Some e"
    using steady_mgr_ok [OF st locked(1)] steadyD(11) [OF st] steady_tables(2) [OF st] locked(2,3) by simp_all
  note rd = readdir_mapped [OF lk p h(1) c, unfolded eq Let_def]
  show ?thesis
  proof (cases "is_real_dir e \<and> pending (os s) \<noteq> []")
    case True
    then obtain z zs where "pending (os s) = z # zs" by (auto simp: neq_Nil_conv)
    with True rd off y s2(3) show ?thesis by (auto simp: merged_def dump_if_def)
  next
    case False
    then obtain u where u: "(x, t) = readdir_image P False p e u" "mgr_ok P H u" "dir_heap u p = Some e"
      "dir_table P u d = Some e" "is_real_dir e \<Longrightarrow> pending (os u) = []"
      using rd off y s2 locked by (cases "is_real_dir e") auto
    from readdir_image_step [OF u(2,3) h(3)] u(4) h(2) obtain e' where
      "x = map_option node_dirent (case remaining e of [] \<Rightarrow> None | n # _ \<Rightarrow> Some n)" "dir_table P t d = Some e'"
      "remaining e' = tl (remaining e)" "is_real_dir e' = is_real_dir e" "os t = os u"
      by (auto simp flip: u(1))
    then show ?thesis using False u(5) by (cases "remaining e") (auto simp: merged_def map_tl)
  qed
qed

lemma take_replicate_more: "m \<le> n \<Longrightarrow> take m (replicate n x) = replicate m x"
  by (simp add: min_def)

text \<open>
  C16. A client that reads a merged directory sees the entries of the real directory first, in its
  order, then every entry of the image that is left, in the order of the listing, and then the
  end of the directory at every further call. (Nothing removes a name that both layers have:
  it is delivered twice.)
\<close>

theorem readdir_merges:
  assumes "platform_ok P H budget left" and "mgr_ok P H s" and "can_lock s"
    and "dir_table P s d = Some e" and "real_stream_ok (libc P) d pending"
    and "\<not> log_enabled P (Some ''sqfs_readdir'')"
  shows "fst (readdirs P d n s) = take n (map Some (merged pending e (os s)) @ replicate n None)"
  using assms(2-4)
proof (induction n arbitrary: s e)
  case (Suc n)
  obtain x t where eq: "sqfs_readdir P d s = (x, t)" by (cases "sqfs_readdir P d s")
  have post: "hook_post P H s t" using readdir_contract [OF assms(1) Suc.prems(1,2), of d] eq by simp
  then have t: "mgr_ok P H t" "can_lock t"
    using hook_post_can_lock [OF post] Suc.prems(2) by (simp_all add: hook_post_def)
  obtain e' where e': "dir_table P t d = Some e'"
    "x = (case merged pending e (os s) of [] \<Rightarrow> None | y # _ \<Rightarrow> Some y)"
    "merged pending e' (os t) = tl (merged pending e (os s))"
    using readdir_step [OF Suc.prems(1,2) platform_okD(2) [OF assms(1)] Suc.prems(3) assms(5,6) eq] by blast
  from Suc.IH [OF t e'(1)] e'(2,3) eq show ?case
    by (cases "merged pending e (os s)") (auto simp: Let_def split_beta take_replicate_more simp del: replicate_Suc,
        simp)
qed simp

lemma sample_real_stream: "real_stream_ok sample_libc d m_real"
  by (simp add: real_stream_ok_def sample_libc_def m_readdir_def split: list.split)


lemma closedir_effect:
  assumes ok: "platform_ok P H budget left" and inv: "mgr_ok P H s" and lk: "can_lock s"
    and e: "dir_table P s d = Some e"
  shows "\<exists>u. dir_table P u = (dir_table P s)(d := None) \<and> fd_table P u = fd_table P s \<and>
    live_readers u = live_readers s - 1 \<and>
    live_inodes u = live_inodes s - int (length (dir_entry_list e)) \<and>
    mutex_depth u = mutex_depth s \<and> H (os s) \<subseteq> H (os u) \<and>
    (\<forall>gap. closedir_amid P gap d s = sys_call (libc_closedir (libc P) d) (gap u))"
proof -
  obtain p where p: "find_dir P d s = Some p" using find_dir_table [OF inv, of d] e by fastforce
  then have h: "dir_heap s p = Some e" "dir_key e = d" using e by (auto elim: find_dir_entry [OF inv])
  have h': "dir_heap (sqfs_lock s) p = Some e" using h(1) lk by simp
  define u where "u = closedir_detached P p e (sqfs_lock s)"
  note dp = closedir_detached_post [OF ok mgr_ok_locked [OF lk inv] h', folded u_def]
  have same: "dir_table P (sqfs_lock s) = dir_table P s" "fd_table P (sqfs_lock s) = fd_table P s"
    "live_inodes (sqfs_lock s) = live_inodes s" "live_readers (sqfs_lock s) = live_readers s"
    "mutex_depth (sqfs_lock s) = Suc (mutex_depth s)"
    using lk by (simp_all add: dir_table_def fd_table_def)
  obtain m where cl: "\<And>gap. closedir_amid P gap d s = sys_call (libc_closedir (libc P) d)
      (gap (sqfs_unlock (log_hook P (Some ''sqfs_closedir'') m u)))"
    using closedir_mapped [OF lk p h] unfolding u_def by blast
  define v where "v = sqfs_unlock (log_hook P (Some ''sqfs_closedir'') m u)"
  have "mutex_depth u = Suc (mutex_depth s)" using dp(1) same(5) by (simp add: hook_post_def)
  then have "dir_table P v = (dir_table P s)(d := None)" "fd_table P v = fd_table P s"
    "live_inodes v = live_inodes s - int (length (dir_entry_list e))" "live_readers v = live_readers s - 1"
    "mutex_depth v = mutex_depth s"
    using dp(2-5) same h(2) by (simp_all add: v_def dir_table_def fd_table_def)
  moreover have "H (os s) \<subseteq> H (os v)"
    using dp(6) steadyD(16) [OF steady_log_hook [OF platform_okD(2) [OF ok]], of u "Some ''sqfs_closedir''" m] lk
    by (auto simp: v_def)
  ultimately show ?thesis using cl by (intro exI [of _ v]) (simp add: v_def)
qed

text \<open>
  C18. Closing a directory stream of the overlay gives back everything the record held, and only then
  closes the stream. The state \<open>u\<close> is the one in which \<open>closedir\<close> leaves the lock: the record is gone
  from the table, its reader and the inode of every node of its listing are released, the lock is
  held as often as before, and every open handle is still open, the stream among them. Whatever other
  threads do in the gap after it, the hook ends with the real \<open>closedir\<close> in the state they left, with
  its result. Without other threads, the record and what it held are all that is gone.
\<close>

theorem closedir_releases:
  assumes ok: "platform_ok P H budget left" and inv: "mgr_ok P H s" and lk: "can_lock s"
    and e: "dir_table P s d = Some e" and eq: "sqfs_closedir P d s = (ret, t)"
  shows "(\<exists>u. dir_table P u = (dir_table P s)(d := None) \<and> fd_table P u = fd_table P s \<and>
      live_readers u = live_readers s - 1 \<and>
      live_inodes u = live_inodes s - int (length (dir_entry_list e)) \<and>
      mutex_depth u = mutex_depth s \<and> H (os s) \<subseteq> H (os u) \<and>
      (\<forall>gap. closedir_amid P gap d s = sys_call (libc_closedir (libc P) d) (gap u)) \<and>
      sys_call (libc_closedir (libc P) d) u = (ret, t)) \<and>
    dir_table P t = (dir_table P s)(d := None) \<and> fd_table P t = fd_table P s \<and>
    live_readers t = live_readers s - 1 \<and>
    live_inodes t = live_inodes s - int (length (dir_entry_list e)) \<and> mutex_depth t = mutex_depth s"
proof -
  from closedir_effect [OF ok inv lk e] obtain u where u: "dir_table P u = (dir_table P s)(d := None)"
    "fd_table P u = fd_table P s" "live_readers u = live_readers s - 1"
    "live_inodes u = live_inodes s - int (length (dir_entry_list e))" "mutex_depth u = mutex_depth s"
    "H (os s) \<subseteq> H (os u)" "\<And>gap. closedir_amid P gap d s = sys_call (libc_closedir (libc P) d) (gap u)"
    by blast
  have c: "sys_call (libc_closedir (libc P) d) u = (ret, t)" using u(7) [of "\<lambda>t. t"] eq by (simp add: sqfs_closedir_def)
  have "dir_table P t = dir_table P u" "fd_table P t = fd_table P u" "live_inodes t = live_inodes u"
    "live_readers t = live_readers u" "mutex_depth t = mutex_depth u"
    using sys_call_core [OF c] by (simp_all add: core_eq_def dir_table_def fd_table_def)
  then show ?thesis using u c by (intro conjI exI [of _ u] allI) simp_all
qed

text \<open>A directory of the image opened in the sample process, before its first entry.\<close>

definition sample_listing :: "SqfsDirEntryNode list" where
  "sample_listing = [make_node sample_env \<lparr>entry_type = SQFS_INODE_FILE, entry_size = 0, entry_name = ''a''\<rparr> sample_file]"

definition sample_direntry :: DirMapEntry where
  "sample_direntry = \<lparr>dir_key = 3, dir_reader = 4, is_real_dir = True, dir_entry_list = sample_listing,
     dir_entry_current = [], dir_entry_list_reached_end = False\<rparr>"

definition sample_diropen :: "(machine, (int \<times> ptr) list) proc" where
  "sample_diropen = sample_proc\<lparr>mutex_recursive := True, dir_map := [(3, 0)],
     dir_heap := [0 \<mapsto> sample_direntry], next_ptr := 2, live_inodes := 1, live_nodes := 1, live_readers := 1,
     os := sample_machine\<lparr>m_next := 4, m_handles := [Stream 3]\<rparr>\<rparr>"

lemma sample_diropen_ok:
  "mgr_ok sample_env m_open sample_diropen" "can_lock sample_diropen"
  "dir_table sample_env sample_diropen 3 = Some sample_direntry"
  by (simp_all add: sample_diropen_def sample_proc_def fresh_proc_def sample_uthash_def mgr_ok_def table_ok_def
      table_defs entry_at_def holdings_ok_def listed_nodes_def can_lock_def m_open_def
      sample_direntry_def sample_listing_def make_node_def dir_entry_ok_def)

theorem closedir_releases_witness:
  "let (ret, t) = sqfs_closedir sample_env 3 sample_diropen
   in (\<exists>u. dir_table sample_env u = (dir_table sample_env sample_diropen)(3 := None) \<and>
      fd_table sample_env u = fd_table sample_env sample_diropen \<and>
      live_readers u = live_readers sample_diropen - 1 \<and>
      live_inodes u = live_inodes sample_diropen - int (length (dir_entry_list sample_direntry)) \<and>
      mutex_depth u = mutex_depth sample_diropen \<and> m_open (os sample_diropen) \<subseteq> m_open (os u) \<and>
      (\<forall>gap. closedir_amid sample_env gap 3 sample_diropen = sys_call (libc_closedir (libc sample_env) 3) (gap u)) \<and>
      sys_call (libc_closedir (libc sample_env) 3) u = (ret, t)) \<and>
    dir_table sample_env t = (dir_table sample_env sample_diropen)(3 := None) \<and>
    fd_table sample_env t = fd_table sample_env sample_diropen \<and>
    live_readers t = live_readers sample_diropen - 1 \<and>
    live_inodes t = live_inodes sample_diropen - int (length (dir_entry_list sample_direntry)) \<and>
    mutex_depth t = mutex_depth sample_diropen"
  using closedir_releases [OF sample_platform_ok sample_diropen_ok]
  by (cases "sqfs_closedir sample_env 3 sample_diropen") simp

theorem readdir_merges_witness:
  "fst (readdirs sample_env 3 4 sample_diropen) =
    take 4 (map Some (merged m_real sample_direntry (os sample_diropen)) @ replicate 4 None)"
proof (rule readdir_merges [OF sample_platform_ok sample_diropen_ok])
  show "real_stream_ok (libc sample_env) 3 m_real" by (simp add: sample_real_stream)
  show "\<not> log_enabled sample_env (Some ''sqfs_readdir'')"
    by (simp add: log_enabled_def sample_getenv_def log_enabled_loop.simps token_matches_def rstrip_def is_blank_def)
qed

end
