(* ===== verification/Hooks.thy ===== *)
theory Hooks
  imports Sqfs_Mgr
begin

text \<open>
  \<open>src/hooksqfs.c\<close> and the table of \<open>src/real.h\<close>: looking the real entry points up, preparing and
  installing the hooks, and undoing it. An entry point is its address, 0 for \<open>NULL\<close>. The
  submodule \<open>funchook\<close> and \<open>dlsym\<close> are parameters.
\<close>

section \<open>The table of entry points\<close>

record LibcFunctions =
  f_open :: nat
  f_read :: nat
  f_pread :: nat
  f_pread64 :: nat
  f_lseek :: nat
  f_lseek64 :: nat
  f_close :: nat
  f_close_nocancel :: nat
  f_opendir :: nat
  f_readdir :: nat
  f_closedir :: nat
  f_access :: nat
  f_xstat :: nat

text \<open>The address of a field, as \<open>prepare_hook\<close> takes it.\<close>

datatype entry = E_open | E_read | E_pread | E_pread64 | E_lseek | E_lseek64 | E_close
  | E_close_nocancel | E_opendir | E_readdir | E_closedir | E_access | E_xstat

fun get_entry :: "entry \<Rightarrow> LibcFunctions \<Rightarrow> nat" where
  "get_entry E_open t = f_open t"
| "get_entry E_read t = f_read t"
| "get_entry E_pread t = f_pread t"
| "get_entry E_pread64 t = f_pread64 t"
| "get_entry E_lseek t = f_lseek t"
| "get_entry E_lseek64 t = f_lseek64 t"
| "get_entry E_close t = f_close t"
| "get_entry E_close_nocancel t = f_close_nocancel t"
| "get_entry E_opendir t = f_opendir t"
| "get_entry E_readdir t = f_readdir t"
| "get_entry E_closedir t = f_closedir t"
| "get_entry E_access t = f_access t"
| "get_entry E_xstat t = f_xstat t"

fun set_entry :: "entry \<Rightarrow> nat \<Rightarrow> LibcFunctions \<Rightarrow> LibcFunctions" where
  "set_entry E_open a t = t\<lparr>f_open := a\<rparr>"
| "set_entry E_read a t = t\<lparr>f_read := a\<rparr>"
| "set_entry E_pread a t = t\<lparr>f_pread := a\<rparr>"
| "set_entry E_pread64 a t = t\<lparr>f_pread64 := a\<rparr>"
| "set_entry E_lseek a t = t\<lparr>f_lseek := a\<rparr>"
| "set_entry E_lseek64 a t = t\<lparr>f_lseek64 := a\<rparr>"
| "set_entry E_close a t = t\<lparr>f_close := a\<rparr>"
| "set_entry E_close_nocancel a t = t\<lparr>f_close_nocancel := a\<rparr>"
| "set_entry E_opendir a t = t\<lparr>f_opendir := a\<rparr>"
| "set_entry E_readdir a t = t\<lparr>f_readdir := a\<rparr>"
| "set_entry E_closedir a t = t\<lparr>f_closedir := a\<rparr>"
| "set_entry E_access a t = t\<lparr>f_access := a\<rparr>"
| "set_entry E_xstat a t = t\<lparr>f_xstat := a\<rparr>"

text \<open>
  \<open>funchook_prepare\<close> takes the address to intercept and the hook, and stores the address of the
  trampoline through the pointer.
\<close>

record 'w loader =
  dlsym_next :: "string \<Rightarrow> nat"
  funchook_create :: "('w, ptr option) sys"
  funchook_prepare :: "ptr \<Rightarrow> nat \<Rightarrow> string \<Rightarrow> ('w, int \<times> nat) sys"
  funchook_install :: "ptr \<Rightarrow> ('w, int) sys"
  funchook_uninstall :: "ptr \<Rightarrow> ('w, int) sys"
  funchook_destroy :: "ptr \<Rightarrow> ('w, int) sys"
  funchook_error_message :: "ptr \<Rightarrow> string"

record ('w, 'h) library =
  proc :: "('w, 'h) proc"
  g_xLibcFuncs :: LibcFunctions
  g_xTrampoline :: LibcFunctions
  hooks_funchook :: "ptr option"
  g_bLibcFuncsPopulated :: bool

definition lib_log :: "('w, 'h) env \<Rightarrow> string \<Rightarrow> ('w, 'h) library \<Rightarrow> ('w, 'h) library" where
  "lib_log P msg l = l\<lparr>proc := log_msg P msg (proc l)\<rparr>"

definition lib_call :: "('w, 'a) sys \<Rightarrow> ('w, 'h) library \<Rightarrow> 'a \<times> ('w, 'h) library" where
  "lib_call f l = (case sys_call f (proc l) of (a, s) \<Rightarrow> (a, l\<lparr>proc := s\<rparr>))"

section \<open>Looking the entry points up\<close>

definition vPopulateLibcFuncPtrs :: "('w, 'h) env \<Rightarrow> 'w loader \<Rightarrow> ('w, 'h) library \<Rightarrow> ('w, 'h) library" where
  "vPopulateLibcFuncPtrs P L l =
     (if g_bLibcFuncsPopulated l then l
      else
        let t1 = (g_xLibcFuncs l)
                 \<lparr>f_open := dlsym_next L ''open'', f_read := dlsym_next L ''read'',
                  f_pread := dlsym_next L ''pread'', f_pread64 := dlsym_next L ''pread64'',
                  f_lseek := dlsym_next L ''lseek'', f_lseek64 := dlsym_next L ''lseek64'',
                  f_close := dlsym_next L ''close'',
                  f_close_nocancel := dlsym_next L ''__close_nocancel''\<rparr>;
            l1 = (if f_close_nocancel t1 = 0
                  then (lib_log P (''__close_nocancel not found; falling back to close'' @ nl) l)
                         \<lparr>g_xLibcFuncs := t1\<lparr>f_close_nocancel := f_close t1\<rparr>\<rparr>
                  else l\<lparr>g_xLibcFuncs := t1\<rparr>)
        in l1\<lparr>g_xLibcFuncs := (g_xLibcFuncs l1)
                \<lparr>f_opendir := dlsym_next L ''opendir'', f_readdir := dlsym_next L ''readdir'',
                 f_closedir := dlsym_next L ''closedir'', f_access := dlsym_next L ''access'',
                 f_xstat := dlsym_next L ''__xstat''\<rparr>,
              g_bLibcFuncsPopulated := True\<rparr>)"

text \<open>The structure read as an array of pointers.\<close>

definition table_words :: "LibcFunctions \<Rightarrow> nat list" where
  "table_words t = [f_open t, f_read t, f_pread t, f_pread64 t, f_lseek t, f_lseek64 t, f_close t,
     f_close_nocancel t, f_opendir t, f_readdir t, f_closedir t, f_access t, f_xstat t]"

fun all_loaded :: "nat list \<Rightarrow> bool" where
  "all_loaded [] = True"
| "all_loaded (func # rest) = (if func = 0 then False else all_loaded rest)"

definition bLibcFuncPtrsLoaded :: "LibcFunctions \<Rightarrow> bool" where
  "bLibcFuncPtrsLoaded t = all_loaded (table_words t)"

section \<open>Installing and uninstalling\<close>

definition prepare_hook ::
    "('w, 'h) env \<Rightarrow> 'w loader \<Rightarrow> string \<Rightarrow> entry \<Rightarrow> string \<Rightarrow> ('w, 'h) library \<Rightarrow> int \<times> ('w, 'h) library" where
  "prepare_hook P L name target hook l =
     (case hooks_funchook l of
        None \<Rightarrow> (-1, l\<lparr>proc := set_trap Faulted (proc l)\<rparr>)
      | Some fh \<Rightarrow>
          (case lib_call (funchook_prepare L fh (get_entry target (g_xLibcFuncs l)) hook) l of
             ((rv, addr), l1) \<Rightarrow>
               let l2 = l1\<lparr>g_xLibcFuncs := set_entry target addr (g_xLibcFuncs l1)\<rparr>
               in if rv \<noteq> 0
                  then (-1, lib_log P (''funchook_prepare('' @ name @ '') failed: '' @
                              funchook_error_message L fh @ nl) l2)
                  else (0, l2)))"

definition uninstall_hooks :: "('w, 'h) env \<Rightarrow> 'w loader \<Rightarrow> ('w, 'h) library \<Rightarrow> ('w, 'h) library" where
  "uninstall_hooks P L l =
     (case hooks_funchook l of
        None \<Rightarrow> l
      | Some fh \<Rightarrow>
          (case lib_call (funchook_uninstall L fh) l of
             (rv, l1) \<Rightarrow>
               let l2 = (if rv \<noteq> 0 then lib_log P (''funchook_uninstall failed: '' @
                           funchook_error_message L fh @ nl) l1 else l1)
               in (case lib_call (funchook_destroy L fh) l2 of
                     (rv2, l3) \<Rightarrow>
                       let l4 = (if rv2 \<noteq> 0 then lib_log P (''funchook_destroy failed'' @ nl) l3 else l3)
                       in l4\<lparr>hooks_funchook := None, g_xLibcFuncs := g_xTrampoline l4\<rparr>)))"

text \<open>
  The chain of \<open>||\<close> in \<open>install_hooks\<close>: an entry is skipped when its guard, on the current table
  and the snapshot, is false; the first failure stops the chain.
\<close>

type_synonym hook_step = "(LibcFunctions \<Rightarrow> LibcFunctions \<Rightarrow> bool) \<times> string \<times> entry \<times> string"

definition always :: "LibcFunctions \<Rightarrow> LibcFunctions \<Rightarrow> bool" where
  "always cur snap = True"

definition pread64_distinct :: "LibcFunctions \<Rightarrow> LibcFunctions \<Rightarrow> bool" where
  "pread64_distinct cur snap = (f_pread64 cur \<noteq> f_pread cur)"

definition lseek64_distinct :: "LibcFunctions \<Rightarrow> LibcFunctions \<Rightarrow> bool" where
  "lseek64_distinct cur snap = (f_lseek64 cur \<noteq> f_lseek cur)"

definition nocancel_distinct :: "LibcFunctions \<Rightarrow> LibcFunctions \<Rightarrow> bool" where
  "nocancel_distinct cur snap =
     (f_close_nocancel snap \<noteq> 0 \<and> f_close_nocancel snap \<noteq> f_close snap)"

definition hook_steps :: "hook_step list" where
  "hook_steps =
     [(always, ''open'', E_open, ''sqfs_open''),
      (always, ''read'', E_read, ''sqfs_read''),
      (always, ''pread'', E_pread, ''sqfs_pread''),
      (always, ''lseek'', E_lseek, ''sqfs_lseek''),
      (pread64_distinct, ''pread64'', E_pread64, ''sqfs_pread64''),
      (lseek64_distinct, ''lseek64'', E_lseek64, ''sqfs_lseek64''),
      (always, ''close'', E_close, ''sqfs_close''),
      (nocancel_distinct, ''__close_nocancel'', E_close_nocancel, ''sqfs_close_nocancel''),
      (always, ''opendir'', E_opendir, ''sqfs_opendir''),
      (always, ''readdir'', E_readdir, ''sqfs_readdir''),
      (always, ''closedir'', E_closedir, ''sqfs_closedir''),
      (always, ''access'', E_access, ''sqfs_access''),
      (always, ''__xstat'', E_xstat, ''sqfs_xstat'')]"

fun prepare_chain ::
    "('w, 'h) env \<Rightarrow> 'w loader \<Rightarrow> hook_step list \<Rightarrow> ('w, 'h) library \<Rightarrow> bool \<times> ('w, 'h) library" where
  "prepare_chain P L [] l = (False, l)"
| "prepare_chain P L ((guard, name, target, hook) # rest) l =
     (if guard (g_xLibcFuncs l) (g_xTrampoline l) then
        (case prepare_hook P L name target hook l of
           (rv, l1) \<Rightarrow> if rv \<noteq> 0 then (True, l1) else prepare_chain P L rest l1)
      else prepare_chain P L rest l)"

text \<open>The lines that report the installed table.\<close>

definition ptr_text :: "nat \<Rightarrow> string" where
  "ptr_text a = ''0x'' @ show_base 16 a"

definition log_table :: "('w, 'h) env \<Rightarrow> ('w, 'h) library \<Rightarrow> ('w, 'h) library" where
  "log_table P l =
     fold (\<lambda>(name, target) l. lib_log P (''  '' @ name @ ''='' @ ptr_text (get_entry target (g_xLibcFuncs l)) @ nl) l)
       [(''open'', E_open), (''read'', E_read), (''pread'', E_pread), (''pread64'', E_pread64),
        (''lseek'', E_lseek), (''lseek64'', E_lseek64), (''close'', E_close),
        (''__close_nocancel'', E_close_nocancel), (''opendir'', E_opendir), (''readdir'', E_readdir),
        (''closedir'', E_closedir), (''access'', E_access), (''__xstat'', E_xstat)]
       (lib_log P (''hooks installed:'' @ nl) l)"

definition install_hooks :: "('w, 'h) env \<Rightarrow> 'w loader \<Rightarrow> ('w, 'h) library \<Rightarrow> ('w, 'h) library" where
  "install_hooks P L l =
     (if \<not> bLibcFuncPtrsLoaded (g_xLibcFuncs l) then
        lib_log P (''hook install failed: missing real function'' @ nl) l
      else
        let l1 = l\<lparr>g_xTrampoline := g_xLibcFuncs l\<rparr>
        in (case lib_call (funchook_create L) l1 of
              (fh, l2) \<Rightarrow>
                let l3 = l2\<lparr>hooks_funchook := fh\<rparr>
                in (case fh of
                      None \<Rightarrow> lib_log P (''funchook_create failed'' @ nl) l3
                    | Some h \<Rightarrow>
                        (case prepare_chain P L hook_steps l3 of
                           (failed, l4) \<Rightarrow>
                             if failed then uninstall_hooks P L l4
                             else
                               (case lib_call (funchook_install L h) l4 of
                                  (rv, l5) \<Rightarrow>
                                    if rv \<noteq> 0
                                    then uninstall_hooks P L
                                           (lib_log P (''funchook_install failed: '' @
                                              funchook_error_message L h @ nl) l5)
                                    else log_table P l5)))))"

section \<open>Constructor and destructor\<close>

definition hooksqfs_init :: "('w, 'h) env \<Rightarrow> 'w loader \<Rightarrow> ('w, 'h) library \<Rightarrow> ('w, 'h) library" where
  "hooksqfs_init P L l =
     (let l1 = l\<lparr>proc := sqfs_mutex_init_once P (proc l)\<rparr>;
          l2 = vPopulateLibcFuncPtrs P L l1;
          l3 = l2\<lparr>proc := snd (sqfs_mgr_load_image P (proc l2))\<rparr>
      in install_hooks P L l3)"

definition hooksqfs_fini :: "('w, 'h) env \<Rightarrow> 'w loader \<Rightarrow> ('w, 'h) library \<Rightarrow> ('w, 'h) library" where
  "hooksqfs_fini P L l = uninstall_hooks P L l"

section \<open>What the steps keep\<close>

lemma lib_log_simps [simp]:
  "g_xLibcFuncs (lib_log P m l) = g_xLibcFuncs l" "g_xTrampoline (lib_log P m l) = g_xTrampoline l"
  "hooks_funchook (lib_log P m l) = hooks_funchook l"
  "g_bLibcFuncsPopulated (lib_log P m l) = g_bLibcFuncsPopulated l"
  by (simp_all add: lib_log_def)

lemma lib_call_simps [simp]:
  "g_xLibcFuncs (snd (lib_call f l)) = g_xLibcFuncs l" "g_xTrampoline (snd (lib_call f l)) = g_xTrampoline l"
  "hooks_funchook (snd (lib_call f l)) = hooks_funchook l"
  "g_bLibcFuncsPopulated (snd (lib_call f l)) = g_bLibcFuncsPopulated l"
  by (simp_all add: lib_call_def split_beta)

lemma prepare_hook_simps [simp]:
  "g_xTrampoline (snd (prepare_hook P L n e h l)) = g_xTrampoline l"
  "hooks_funchook (snd (prepare_hook P L n e h l)) = hooks_funchook l"
  by (simp_all add: prepare_hook_def Let_def split_beta split: option.split)

lemma prepare_chain_simps [simp]:
  "g_xTrampoline (snd (prepare_chain P L steps l)) = g_xTrampoline l"
  "hooks_funchook (snd (prepare_chain P L steps l)) = hooks_funchook l"
proof -
  have "g_xTrampoline (snd (prepare_chain P L steps l)) = g_xTrampoline l \<and>
      hooks_funchook (snd (prepare_chain P L steps l)) = hooks_funchook l"
  proof (induction steps arbitrary: l)
    case (Cons a rest)
    then show ?case by (cases a) (simp add: split_beta)
  qed simp
  then show "g_xTrampoline (snd (prepare_chain P L steps l)) = g_xTrampoline l"
    and "hooks_funchook (snd (prepare_chain P L steps l)) = hooks_funchook l" by simp_all
qed

lemma uninstall_simps [simp]:
  "hooks_funchook (uninstall_hooks P L l) = None"
  "g_xTrampoline (uninstall_hooks P L l) = g_xTrampoline l"
  "hooks_funchook l \<noteq> None \<Longrightarrow> g_xLibcFuncs (uninstall_hooks P L l) = g_xTrampoline l"
  by (auto simp: uninstall_hooks_def Let_def split_beta split: option.split)

lemma uninstall_nothing: "hooks_funchook l = None \<Longrightarrow> uninstall_hooks P L l = l"
  by (simp add: uninstall_hooks_def)

lemma log_table_simps [simp]:
  "g_xLibcFuncs (log_table P l) = g_xLibcFuncs l" "g_xTrampoline (log_table P l) = g_xTrampoline l"
  "hooks_funchook (log_table P l) = hooks_funchook l"
  by (simp_all add: log_table_def)

lemma all_loaded_iff: "all_loaded ws \<longleftrightarrow> 0 \<notin> set ws"
  by (induction ws) auto

section \<open>Properties\<close>

lemma install_outcome:
  assumes "hooks_funchook l = None" and "l' = install_hooks P L l"
  shows "(if hooks_funchook l' = None then g_xLibcFuncs l' = g_xLibcFuncs l
     else bLibcFuncPtrsLoaded (g_xLibcFuncs l) \<and> g_xTrampoline l' = g_xLibcFuncs l)"
  unfolding assms(2) using assms(1)
  by (auto simp: install_hooks_def Let_def split_beta split: option.split)

text \<open>
  Two observations of the outside state: whether a call of the installation has failed, and how many
  \<open>funchook\<close> objects were created and not handed to \<open>funchook_destroy\<close> yet. Only the calls of
  \<open>funchook\<close> change them.
\<close>

definition monitored :: "'w libc \<Rightarrow> 'w loader \<Rightarrow> ('w \<Rightarrow> bool) \<Rightarrow> ('w \<Rightarrow> int) \<Rightarrow> bool" where
  "monitored C L failed objects \<longleftrightarrow>
     (\<forall>w. case funchook_create L w of (fh, e, w') \<Rightarrow>
        (failed w' \<longleftrightarrow> failed w \<or> fh = None) \<and> objects w' = objects w + (if fh = None then 0 else 1)) \<and>
     (\<forall>fh a hook w. case funchook_prepare L fh a hook w of ((rv, addr), e, w') \<Rightarrow>
        (failed w' \<longleftrightarrow> failed w \<or> rv \<noteq> 0) \<and> objects w' = objects w) \<and>
     (\<forall>fh w. case funchook_install L fh w of (rv, e, w') \<Rightarrow>
        (failed w' \<longleftrightarrow> failed w \<or> rv \<noteq> 0) \<and> objects w' = objects w) \<and>
     (\<forall>fh w. case funchook_uninstall L fh w of (rv, e, w') \<Rightarrow> failed w' = failed w \<and> objects w' = objects w) \<and>
     (\<forall>fh w. case funchook_destroy L fh w of (rv, e, w') \<Rightarrow> failed w' = failed w \<and> objects w' = objects w - 1) \<and>
     (\<forall>fd p w. case sys_write C fd p w of (n, e, w') \<Rightarrow> failed w' = failed w \<and> objects w' = objects w) \<and>
     (\<forall>path flags mode w. case sys_openat C path flags mode w of
        (fd, e, w') \<Rightarrow> failed w' = failed w \<and> objects w' = objects w)"

definition observed :: "('w \<Rightarrow> bool) \<Rightarrow> ('w \<Rightarrow> int) \<Rightarrow> ('w, 'h) library \<Rightarrow> bool \<times> int" where
  "observed failed objects l = (failed (os (proc l)), objects (os (proc l)))"

lemma observed_log:
  assumes "monitored (libc P) L failed objects"
  shows "observed failed objects (lib_log P m l) = observed failed objects l"
proof -
  have k: "failed (snd (snd (sys_write (libc P) fd p w))) = failed w"
    "objects (snd (snd (sys_write (libc P) fd p w))) = objects w"
    "failed (snd (snd (sys_openat (libc P) path flags mode w))) = failed w"
    "objects (snd (snd (sys_openat (libc P) path flags mode w))) = objects w" for fd p path flags mode w
    using assms by (simp_all add: monitored_def split_beta)
  show ?thesis
    using log_msg_observes [of failed P, OF k(1,3)] log_msg_observes [of objects P, OF k(2,4)]
    by (simp add: observed_def lib_log_def)
qed

lemma lib_call_os: "os (proc (snd (lib_call f l))) = snd (snd (f (os (proc l))))" "fst (lib_call f l) = fst (f (os (proc l)))"
  by (simp_all add: lib_call_def sys_call_def split_beta)

lemma observed_table [simp]:
  "observed failed objects (l\<lparr>g_xLibcFuncs := t\<rparr>) = observed failed objects l"
  "observed failed objects (l\<lparr>g_xTrampoline := t\<rparr>) = observed failed objects l"
  "observed failed objects (l\<lparr>hooks_funchook := h\<rparr>) = observed failed objects l"
  by (simp_all add: observed_def)

lemma observed_calls:
  assumes "monitored (libc P) L failed objects" and "observed failed objects l = (b, n)"
  shows "observed failed objects (snd (lib_call (funchook_create L) l)) =
      (b \<or> fst (lib_call (funchook_create L) l) = None, n + (if fst (lib_call (funchook_create L) l) = None then 0 else 1))"
    and "observed failed objects (snd (lib_call (funchook_prepare L fh a hook) l)) =
      (b \<or> fst (fst (lib_call (funchook_prepare L fh a hook) l)) \<noteq> 0, n)"
    and "observed failed objects (snd (lib_call (funchook_install L fh) l)) =
      (b \<or> fst (lib_call (funchook_install L fh) l) \<noteq> 0, n)"
    and "observed failed objects (snd (lib_call (funchook_uninstall L fh) l)) = (b, n)"
    and "observed failed objects (snd (lib_call (funchook_destroy L fh) l)) = (b, n - 1)"
  using assms by (simp_all add: observed_def lib_call_os monitored_def split_beta)

lemma observed_prepare:
  assumes m: "monitored (libc P) L failed objects" and h: "hooks_funchook l = Some fh"
    and o: "observed failed objects l = (False, n)"
  shows "observed failed objects (snd (prepare_hook P L name target hook l)) =
    (fst (prepare_hook P L name target hook l) \<noteq> 0, n)"
proof -
  let ?call = "lib_call (funchook_prepare L fh (get_entry target (g_xLibcFuncs l)) hook) l"
  have "observed failed objects (snd ?call) = (fst (fst ?call) \<noteq> 0, n)"
    using observed_calls(2) [OF m o] by simp
  then show ?thesis
    using h by (simp add: prepare_hook_def split_beta Let_def observed_log [OF m])
qed

lemma observed_chain:
  assumes m: "monitored (libc P) L failed objects"
  shows "hooks_funchook l = Some fh \<Longrightarrow> observed failed objects l = (False, n) \<Longrightarrow>
    observed failed objects (snd (prepare_chain P L steps l)) = (fst (prepare_chain P L steps l), n)"
proof (induction steps arbitrary: l)
  case (Cons step rest)
  obtain guard name target hook where step: "step = (guard, name, target, hook)" by (metis surj_pair)
  obtain rv l1 where l1: "prepare_hook P L name target hook l = (rv, l1)"
    by (cases "prepare_hook P L name target hook l")
  then have "observed failed objects l1 = (rv \<noteq> 0, n)" "hooks_funchook l1 = Some fh"
    using observed_prepare [OF m Cons.prems, of name target hook] prepare_hook_simps(2) [of P L name target hook l]
      Cons.prems(1) by simp_all
  then show ?case using Cons.IH [of l1] Cons.IH [OF Cons.prems] step l1 by simp
qed simp

lemma observed_uninstall:
  assumes m: "monitored (libc P) L failed objects" and h: "hooks_funchook l = Some fh"
    and o: "observed failed objects l = (b, n)"
  shows "observed failed objects (uninstall_hooks P L l) = (b, n - 1)"
proof -
  let ?l1 = "snd (lib_call (funchook_uninstall L fh) l)"
  have 1: "observed failed objects ?l1 = (b, n)" using observed_calls(4) [OF m o] .
  then have 2: "observed failed objects (lib_log P x ?l1) = (b, n)" for x by (simp add: observed_log [OF m])
  note d = observed_calls(5) [OF m 1, of fh] observed_calls(5) [OF m 2, of fh]
  show ?thesis
    using h d by (simp add: uninstall_hooks_def split_beta Let_def observed_log [OF m])
qed

lemma observed_log_table:
  assumes "monitored (libc P) L failed objects"
  shows "observed failed objects (log_table P l) = observed failed objects l"
  by (simp add: log_table_def observed_log [OF assms])

lemma observed_install:
  assumes m: "monitored (libc P) L failed objects" and h: "hooks_funchook l = None"
    and o: "observed failed objects l = (False, n)" and l': "l' = install_hooks P L l"
  shows "observed failed objects l' =
    (bLibcFuncPtrsLoaded (g_xLibcFuncs l) \<and> hooks_funchook l' = None, n + (if hooks_funchook l' = None then 0 else 1))"
proof (cases "bLibcFuncPtrsLoaded (g_xLibcFuncs l)")
  case False
  then show ?thesis using o h by (simp add: l' install_hooks_def observed_log [OF m])
next
  case True
  define l1 where "l1 = l\<lparr>g_xTrampoline := g_xLibcFuncs l\<rparr>"
  obtain fh l2 where c: "lib_call (funchook_create L) l1 = (fh, l2)" by (cases "lib_call (funchook_create L) l1")
  have o2: "observed failed objects l2 = (fh = None, n + (if fh = None then 0 else 1))"
    using observed_calls(1) [OF m, of l1 False n] o c by (simp add: l1_def)
  show ?thesis
  proof (cases fh)
    case None
    then show ?thesis
      using True c o2 by (simp add: l' install_hooks_def l1_def [symmetric] observed_log [OF m])
  next
    case (Some fh')
    define l3 where "l3 = l2\<lparr>hooks_funchook := Some fh'\<rparr>"
    obtain b l4 where p: "prepare_chain P L hook_steps l3 = (b, l4)" by (cases "prepare_chain P L hook_steps l3")
    have h3: "hooks_funchook l3 = Some fh'" "observed failed objects l3 = (False, n + 1)"
      using o2 Some by (simp_all add: l3_def)
    have h4: "hooks_funchook l4 = Some fh'" "observed failed objects l4 = (b, n + 1)"
      using observed_chain [OF m h3, of hook_steps] prepare_chain_simps(2) [of P L hook_steps l3] p h3(1) by simp_all
    obtain rv l5 where i: "lib_call (funchook_install L fh') l4 = (rv, l5)" by (cases "lib_call (funchook_install L fh') l4")
    have h5: "hooks_funchook l5 = Some fh'" "observed failed objects l5 = (b \<or> rv \<noteq> 0, n + 1)"
      using observed_calls(3) [OF m h4(2), of fh'] lib_call_simps(3) [of "funchook_install L fh'" l4] i h4(1) by simp_all
    have h6: "hooks_funchook (lib_log P x l5) = Some fh'" "observed failed objects (lib_log P x l5) = (b \<or> rv \<noteq> 0, n + 1)" for x
      using h5 by (simp_all add: observed_log [OF m])
    have "l' = (if b then uninstall_hooks P L l4
        else if rv \<noteq> 0 then uninstall_hooks P L (lib_log P (''funchook_install failed: '' @
          funchook_error_message L fh' @ nl) l5) else log_table P l5)"
      using True c Some p i by (simp add: l' install_hooks_def l1_def [symmetric] l3_def [symmetric])
    then show ?thesis
      using True h5 observed_uninstall [OF m h4] observed_uninstall [OF m h6]
      by (simp add: observed_log_table [OF m])
  qed
qed

text \<open>
  C35. Installing the hooks is all or nothing. It counts as done, with a \<open>funchook\<close> object kept, exactly
  when every real function was found and no call of the installation failed: creating the object, any
  of the preparations, or the final \<open>funchook_install\<close>. In the other case the table of entry points is
  again the table of the real functions and the object, if one was created, was handed to
  \<open>funchook_destroy\<close>; when it is done, the snapshot holds the real table.
\<close>

theorem install_all_or_nothing:
  assumes "monitored (libc P) L failed objects" and "hooks_funchook l = None" and "\<not> failed (os (proc l))"
    and "l' = install_hooks P L l"
  shows "(hooks_funchook l' = None \<longleftrightarrow>
      \<not> bLibcFuncPtrsLoaded (g_xLibcFuncs l) \<or> failed (os (proc l'))) \<and>
    (if hooks_funchook l' = None
     then g_xLibcFuncs l' = g_xLibcFuncs l \<and> objects (os (proc l')) = objects (os (proc l))
     else bLibcFuncPtrsLoaded (g_xLibcFuncs l) \<and> g_xTrampoline l' = g_xLibcFuncs l \<and>
       objects (os (proc l')) = objects (os (proc l)) + 1)"
  using observed_install [OF assms(1,2) _ assms(4)] install_outcome [OF assms(2,4)] assms(3)
  by (auto simp: observed_def)

text \<open>A loader for the sample: addresses from 100 on and trampolines from 1000 on.\<close>

definition sample_dlsym :: "string \<Rightarrow> nat" where
  "sample_dlsym name =
     (if name = ''open'' then 100 else if name = ''read'' then 101 else if name = ''pread'' then 102
      else if name = ''pread64'' then 102 else if name = ''lseek'' then 103 else if name = ''lseek64'' then 103
      else if name = ''close'' then 104 else if name = ''opendir'' then 105 else if name = ''readdir'' then 106
      else if name = ''closedir'' then 107 else if name = ''access'' then 108 else if name = ''__xstat'' then 109
      else 0)"

definition sample_loader :: "machine loader" where
  "sample_loader =
     \<lparr>dlsym_next = sample_dlsym,
      funchook_create = (\<lambda>w. (Some 1, None, w\<lparr>m_objects := m_objects w + 1\<rparr>)),
      funchook_prepare = (\<lambda>fh a hook w. ((0, a + 1000), None, w)),
      funchook_install = (\<lambda>fh w. (0, None, w)),
      funchook_uninstall = (\<lambda>fh w. (0, None, w)),
      funchook_destroy = (\<lambda>fh w. (0, None, w\<lparr>m_objects := m_objects w - 1\<rparr>)),
      funchook_error_message = (\<lambda>fh. ''error'')\<rparr>"

definition no_functions :: LibcFunctions where
  "no_functions =
     \<lparr>f_open = 0, f_read = 0, f_pread = 0, f_pread64 = 0, f_lseek = 0, f_lseek64 = 0, f_close = 0,
      f_close_nocancel = 0, f_opendir = 0, f_readdir = 0, f_closedir = 0, f_access = 0, f_xstat = 0\<rparr>"

text \<open>The library as the dynamic linker maps it, before its constructor.\<close>

definition unloaded_library :: "('w, 'h) proc \<Rightarrow> ('w, 'h) library" where
  "unloaded_library s =
     \<lparr>proc = s, g_xLibcFuncs = no_functions, g_xTrampoline = no_functions, hooks_funchook = None,
      g_bLibcFuncsPopulated = False\<rparr>"

definition sample_functions :: LibcFunctions where
  "sample_functions =
     \<lparr>f_open = 100, f_read = 101, f_pread = 102, f_pread64 = 112, f_lseek = 103, f_lseek64 = 113, f_close = 104,
      f_close_nocancel = 114, f_opendir = 105, f_readdir = 106, f_closedir = 107, f_access = 108, f_xstat = 109\<rparr>"

text \<open>A \<open>funchook\<close> that refuses the entry point at the address \<open>bad\<close>.\<close>

definition refusing_loader :: "nat \<Rightarrow> machine loader" where
  "refusing_loader bad = sample_loader
     \<lparr>funchook_prepare := (\<lambda>fh a hook w.
        if a = bad then ((-1, a), None, w\<lparr>m_failed := True\<rparr>) else ((0, a + 1000), None, w))\<rparr>"

lemma refusing_monitored: "monitored (libc sample_env) (refusing_loader bad) m_failed m_objects"
  by (simp add: monitored_def refusing_loader_def sample_loader_def sample_libc_def m_write_def m_alloc_fd_def)

theorem install_all_or_nothing_witness:
  "let l = (unloaded_library sample_proc)\<lparr>g_xLibcFuncs := sample_functions\<rparr>;
       l' = install_hooks sample_env (refusing_loader 104) l
   in (hooks_funchook l' = None \<longleftrightarrow> \<not> bLibcFuncPtrsLoaded (g_xLibcFuncs l) \<or> m_failed (os (proc l'))) \<and>
    (if hooks_funchook l' = None
     then g_xLibcFuncs l' = g_xLibcFuncs l \<and> m_objects (os (proc l')) = m_objects (os (proc l))
     else bLibcFuncPtrsLoaded (g_xLibcFuncs l) \<and> g_xTrampoline l' = g_xLibcFuncs l \<and>
       m_objects (os (proc l')) = m_objects (os (proc l)) + 1)"
  unfolding Let_def
  by (rule install_all_or_nothing [OF refusing_monitored _ _ refl])
    (simp_all add: unloaded_library_def sample_proc_def fresh_proc_def sample_machine_def)

text \<open>
  C36. Constructor and destructor of the library cancel out: whatever the constructor managed to do,
  after the destructor the entry points are the real ones that were looked up, and no
  \<open>funchook\<close> object is left.
\<close>

theorem init_fini_restores:
  assumes "hooks_funchook l = None"
  shows "hooks_funchook (hooksqfs_fini P L (hooksqfs_init P L l)) = None \<and>
    g_xLibcFuncs (hooksqfs_fini P L (hooksqfs_init P L l)) = g_xLibcFuncs (vPopulateLibcFuncPtrs P L l)"
proof -
  define l2 where "l2 = vPopulateLibcFuncPtrs P L (l\<lparr>proc := sqfs_mutex_init_once P (proc l)\<rparr>)"
  define l3 where "l3 = l2\<lparr>proc := snd (sqfs_mgr_load_image P (proc l2))\<rparr>"
  have tab: "g_xLibcFuncs l3 = g_xLibcFuncs (vPopulateLibcFuncPtrs P L l)" "hooks_funchook l3 = None"
    using assms by (auto simp: l3_def l2_def vPopulateLibcFuncPtrs_def Let_def)
  have init: "hooksqfs_init P L l = install_hooks P L l3"
    by (simp add: hooksqfs_init_def Let_def l2_def l3_def)
  from install_outcome [OF tab(2) refl, of P L] tab(1) show ?thesis
    by (cases "hooks_funchook (install_hooks P L l3)")
      (simp_all add: init hooksqfs_fini_def uninstall_nothing)
qed

theorem init_fini_restores_witness:
  "let l = unloaded_library sample_proc; l' = hooksqfs_fini sample_env sample_loader (hooksqfs_init sample_env sample_loader l)
   in hooks_funchook l' = None \<and> g_xLibcFuncs l' = g_xLibcFuncs (vPopulateLibcFuncPtrs sample_env sample_loader l)"
  unfolding Let_def
  by (rule init_fini_restores) (simp add: unloaded_library_def)

text \<open>
  The real functions count as loaded after the lookup exactly when the dynamic linker found all
  of them except \<open>__close_nocancel\<close>, for which \<open>close\<close> stands in.
\<close>

lemma populated_loaded_iff:
  assumes "\<not> g_bLibcFuncsPopulated l"
  shows "bLibcFuncPtrsLoaded (g_xLibcFuncs (vPopulateLibcFuncPtrs P L l)) \<longleftrightarrow>
    0 \<notin> dlsym_next L ` {''open'', ''read'', ''pread'', ''pread64'', ''lseek'', ''lseek64'', ''close'',
      ''opendir'', ''readdir'', ''closedir'', ''access'', ''__xstat''}"
  using assms
  by (auto simp: bLibcFuncPtrsLoaded_def all_loaded_iff table_words_def vPopulateLibcFuncPtrs_def Let_def)

section \<open>What funchook is asked to intercept\<close>

text \<open>
  A \<open>funchook\<close> that works: preparing succeeds, gives the trampoline of the address and the hook,
  and \<open>calls\<close> has recorded the request.
\<close>

definition recorder :: "'w loader \<Rightarrow> ('w \<Rightarrow> (nat \<times> string) list) \<Rightarrow> (nat \<Rightarrow> string \<Rightarrow> nat) \<Rightarrow> bool" where
  "recorder L calls tramp \<longleftrightarrow>
     (\<forall>fh a hook w. case funchook_prepare L fh a hook w of
        (r, e, w') \<Rightarrow> r = (0, tramp a hook) \<and> calls w' = calls w @ [(a, hook)])"

fun requests ::
    "(nat \<Rightarrow> string \<Rightarrow> nat) \<Rightarrow> hook_step list \<Rightarrow> LibcFunctions \<Rightarrow> LibcFunctions \<Rightarrow> (nat \<times> string) list" where
  "requests tramp [] snap cur = []"
| "requests tramp ((guard, name, target, hook) # rest) snap cur =
     (if guard cur snap
      then (get_entry target cur, hook) #
        requests tramp rest snap (set_entry target (tramp (get_entry target cur) hook) cur)
      else requests tramp rest snap cur)"

lemma prepare_hook_recorded:
  assumes "recorder L calls tramp" and "hooks_funchook l = Some fh"
  shows "\<exists>l'. prepare_hook P L name target hook l = (0, l') \<and>
    g_xLibcFuncs l' = set_entry target (tramp (get_entry target (g_xLibcFuncs l)) hook) (g_xLibcFuncs l) \<and>
    g_xTrampoline l' = g_xTrampoline l \<and> hooks_funchook l' = Some fh \<and>
    calls (os (proc l')) = calls (os (proc l)) @ [(get_entry target (g_xLibcFuncs l), hook)]"
proof -
  let ?a = "get_entry target (g_xLibcFuncs l)"
  obtain e w' where "funchook_prepare L fh ?a hook (os (proc l)) = ((0, tramp ?a hook), e, w')"
    "calls w' = calls (os (proc l)) @ [(?a, hook)]"
    using spec [OF spec [OF spec [OF spec [OF assms(1) [unfolded recorder_def], of fh], of ?a], of hook], of "os (proc l)"]
    by (auto split: prod.splits)
  with assms(2) show ?thesis
    by (auto simp: prepare_hook_def lib_call_def sys_call_def)
qed

lemma prepare_chain_recorded:
  assumes "recorder L calls tramp" and "hooks_funchook l = Some fh" and "prepare_chain P L steps l = (failed, l')"
  shows "\<not> failed \<and> calls (os (proc l')) =
    calls (os (proc l)) @ requests tramp steps (g_xTrampoline l) (g_xLibcFuncs l)"
  using assms(2,3)
proof (induction steps arbitrary: l)
  case (Cons step rest)
  obtain guard name target hook where step: "step = (guard, name, target, hook)" by (metis surj_pair)
  obtain l1 where l1: "prepare_hook P L name target hook l = (0, l1)"
    "g_xLibcFuncs l1 = set_entry target (tramp (get_entry target (g_xLibcFuncs l)) hook) (g_xLibcFuncs l)"
    "g_xTrampoline l1 = g_xTrampoline l" "hooks_funchook l1 = Some fh"
    "calls (os (proc l1)) = calls (os (proc l)) @ [(get_entry target (g_xLibcFuncs l), hook)]"
    using prepare_hook_recorded [OF assms(1) Cons.prems(1), of P name target hook] by blast
  from Cons.IH [OF l1(4)] Cons.IH [OF Cons.prems(1)] Cons.prems(2) l1 step show ?case
    by (simp split: if_splits)
qed simp

text \<open>
  When \<open>__close_nocancel\<close> is a function of its own and no trampoline has an address of the
  table, the chain of \<open>install_hooks\<close> succeeds and asks \<open>funchook\<close> to intercept each of the thirteen
  entry points exactly once, in the order of the code, at its real address (never at a
  trampoline) and with the hook of the same name.
\<close>

lemma prepares_each_once:
  assumes "recorder L calls tramp" and "hooks_funchook l = Some fh" and "g_xTrampoline l = g_xLibcFuncs l"
    and "f_close_nocancel (g_xLibcFuncs l) \<noteq> 0"
    and "f_close_nocancel (g_xLibcFuncs l) \<noteq> f_close (g_xLibcFuncs l)"
    and "\<And>a hook. tramp a hook \<notin> set (table_words (g_xLibcFuncs l))"
    and "prepare_chain P L hook_steps l = (failed, l')"
  shows "\<not> failed \<and> calls (os (proc l')) = calls (os (proc l)) @
    map (\<lambda>(guard, name, target, hook). (get_entry target (g_xLibcFuncs l), hook)) hook_steps"
proof -
  have "f_pread64 (g_xLibcFuncs l) \<noteq> tramp a hook" "f_lseek64 (g_xLibcFuncs l) \<noteq> tramp a hook" for a hook
    using assms(6) [of a hook] by (auto simp: table_words_def)
  then have "requests tramp hook_steps (g_xTrampoline l) (g_xLibcFuncs l) =
      map (\<lambda>(guard, name, target, hook). (get_entry target (g_xLibcFuncs l), hook)) hook_steps"
    using assms(3-5) unfolding hook_steps_def
    by (simp add: always_def pread64_distinct_def lseek64_distinct_def nocancel_distinct_def)
  with prepare_chain_recorded [OF assms(1,2,7)] show ?thesis by simp
qed

text \<open>
  C37. On a platform where \<open>pread64\<close> and \<open>pread\<close> are the same function, the guard that should skip
  the alias never does: it compares with the entry of \<open>pread\<close> after that was replaced by its
  trampoline. The same address is then handed to \<open>funchook\<close> twice, with two hooks.
\<close>

theorem alias_prepared_twice:
  assumes "recorder L calls tramp" and "hooks_funchook l = Some fh"
    and "f_pread64 (g_xLibcFuncs l) = f_pread (g_xLibcFuncs l)"
    and "tramp (f_pread (g_xLibcFuncs l)) ''sqfs_pread'' \<noteq> f_pread (g_xLibcFuncs l)"
    and "prepare_chain P L hook_steps l = (failed, l')"
  shows "\<not> failed \<and> {(f_pread (g_xLibcFuncs l), ''sqfs_pread''), (f_pread (g_xLibcFuncs l), ''sqfs_pread64'')} \<subseteq>
    set (calls (os (proc l')))"
proof -
  have "{(f_pread (g_xLibcFuncs l), ''sqfs_pread''), (f_pread (g_xLibcFuncs l), ''sqfs_pread64'')} \<subseteq>
      set (requests tramp hook_steps (g_xTrampoline l) (g_xLibcFuncs l))"
    using assms(3) assms(4) [symmetric] unfolding hook_steps_def
    by (simp add: always_def pread64_distinct_def)
  with prepare_chain_recorded [OF assms(1,2,5)] show ?thesis by auto
qed

text \<open>A \<open>funchook\<close> that keeps its requests in the outside state.\<close>

definition log_loader :: "(nat \<times> string) list loader" where
  "log_loader =
     \<lparr>dlsym_next = sample_dlsym, funchook_create = (\<lambda>w. (Some 1, None, w)),
      funchook_prepare = (\<lambda>fh a hook w. ((0, a + 1000), None, w @ [(a, hook)])),
      funchook_install = (\<lambda>fh w. (0, None, w)), funchook_uninstall = (\<lambda>fh w. (0, None, w)),
      funchook_destroy = (\<lambda>fh w. (0, None, w)), funchook_error_message = (\<lambda>fh. ''error'')\<rparr>"

lemma log_recorder: "recorder log_loader (\<lambda>w. w) (\<lambda>a hook. a + 1000)"
  by (simp add: recorder_def log_loader_def)

definition ready_library ::
    "((nat \<times> string) list, 'h) proc \<Rightarrow> LibcFunctions \<Rightarrow> ((nat \<times> string) list, 'h) library" where
  "ready_library s fs =
     \<lparr>proc = s, g_xLibcFuncs = fs, g_xTrampoline = fs, hooks_funchook = Some 1, g_bLibcFuncsPopulated = True\<rparr>"

theorem alias_prepared_twice_witness:
  "\<forall>(P :: ((nat \<times> string) list, nat) env) s.
     let (failed, l') = prepare_chain P log_loader hook_steps (ready_library s (sample_functions\<lparr>f_pread64 := 102\<rparr>))
     in \<not> failed \<and> {(102, ''sqfs_pread''), (102, ''sqfs_pread64'')} \<subseteq> set (os (proc l'))"
proof (intro allI)
  fix P :: "((nat \<times> string) list, nat) env" and s :: "((nat \<times> string) list, nat) proc"
  let ?l = "ready_library s (sample_functions\<lparr>f_pread64 := 102\<rparr>)"
  obtain failed l' where chain: "prepare_chain P log_loader hook_steps ?l = (failed, l')"
    by (cases "prepare_chain P log_loader hook_steps ?l")
  have fs: "f_pread64 (g_xLibcFuncs ?l) = 102" "f_pread (g_xLibcFuncs ?l) = 102" "hooks_funchook ?l = Some 1"
    by (simp_all add: ready_library_def sample_functions_def)
  from alias_prepared_twice [OF log_recorder fs(3) _ _ chain] fs(1,2)
  show "let (failed, l') = prepare_chain P log_loader hook_steps ?l
     in \<not> failed \<and> {(102, ''sqfs_pread''), (102, ''sqfs_pread64'')} \<subseteq> set (os (proc l'))"
    unfolding chain by simp
qed

end
