(* ===== verification/Overlay.thy ===== *)
theory Overlay
  imports File_Spec Dir_Spec Hooks
begin

text \<open>
  The library as a whole: the constructor of \<open>src/hooksqfs.c\<close> on a fresh process, then any
  sequence of calls of the thirteen hooks and of changes outside the library. Every hook fulfils
  the contract of \<open>Tables\<close>, so the invariant holds in every state that can be reached.
\<close>

section \<open>The start\<close>

text \<open>The laws of \<open>funchook\<close>: it ends no handle of the process.\<close>

definition loader_keeps :: "'w loader \<Rightarrow> ('w \<Rightarrow> handle set) \<Rightarrow> bool" where
  "loader_keeps L H \<longleftrightarrow>
     keeps H (funchook_create L) \<and> (\<forall>fh a h. keeps H (funchook_prepare L fh a h)) \<and>
     (\<forall>fh. keeps H (funchook_install L fh)) \<and> (\<forall>fh. keeps H (funchook_uninstall L fh)) \<and>
     (\<forall>fh. keeps H (funchook_destroy L fh))"

lemma proc_lib_call [simp]: "keeps H f \<Longrightarrow> steady H (proc l) (proc (snd (lib_call f l)))"
  using steady_call [of H f "proc l"] by (simp add: lib_call_def split_beta)

lemma proc_lib_log: "kernel_ok (libc P) H budget \<Longrightarrow> steady H (proc l) (proc (lib_log P m l))"
  by (simp add: lib_log_def steady_log_msg)

lemma steady_lib_log:
  "kernel_ok (libc P) H budget \<Longrightarrow> steady H s (proc l) \<Longrightarrow> steady H s (proc (lib_log P m l))"
  by (rule steady_trans [OF _ proc_lib_log])

lemma steady_lib_call: "keeps H f \<Longrightarrow> steady H s (proc l) \<Longrightarrow> steady H s (proc (snd (lib_call f l)))"
  by (rule steady_trans [OF _ proc_lib_call])

lemma prepare_hook_steady:
  assumes "kernel_ok (libc P) H budget" and "loader_keeps L H" and "hooks_funchook l \<noteq> None"
  shows "steady H (proc l) (proc (snd (prepare_hook P L name target h l)))"
proof -
  obtain fh where "hooks_funchook l = Some fh" using assms(3) by blast
  moreover have "keeps H (funchook_prepare L fh a h)" for a using assms(2) by (simp add: loader_keeps_def)
  ultimately show ?thesis
    using steady_lib_log [OF assms(1)] by (simp add: prepare_hook_def Let_def split_beta)
qed

lemma prepare_chain_steady:
  assumes "kernel_ok (libc P) H budget" and "loader_keeps L H"
  shows "hooks_funchook l \<noteq> None \<Longrightarrow> steady H (proc l) (proc (snd (prepare_chain P L steps l)))"
proof (induction steps arbitrary: l)
  case (Cons step rest)
  obtain guard name target h where step: "step = (guard, name, target, h)" by (metis surj_pair)
  let ?l = "snd (prepare_hook P L name target h l)"
  have "steady H (proc l) (proc ?l)" using prepare_hook_steady [OF assms Cons.prems] .
  moreover have "steady H (proc ?l) (proc (snd (prepare_chain P L rest ?l)))"
    using Cons.IH [of ?l] Cons.prems by simp
  ultimately show ?case
    using Cons.IH [OF Cons.prems] steady_trans [of H "proc l" "proc ?l"] by (simp add: step split_beta)
qed simp

lemma uninstall_steady:
  assumes "kernel_ok (libc P) H budget" and "loader_keeps L H"
  shows "steady H (proc l) (proc (uninstall_hooks P L l))"
proof (cases "hooks_funchook l")
  case (Some fh)
  have k: "keeps H (funchook_uninstall L fh)" "keeps H (funchook_destroy L fh)"
    using assms(2) by (simp_all add: loader_keeps_def)
  show ?thesis
    using Some k by (auto simp: uninstall_hooks_def Let_def split_beta intro!: steady_lib_log [OF assms(1)] steady_lib_call)
qed (simp add: uninstall_nothing)

lemma log_table_steady:
  assumes "kernel_ok (libc P) H budget"
  shows "steady H s (proc l) \<Longrightarrow> steady H s (proc (log_table P l))"
  unfolding log_table_def by (simp add: steady_lib_log [OF assms])

lemma install_steady:
  assumes "kernel_ok (libc P) H budget" and "loader_keeps L H"
  shows "steady H (proc l) (proc (install_hooks P L l))"
proof -
  define l3 where "l3 = (snd (lib_call (funchook_create L) (l\<lparr>g_xTrampoline := g_xLibcFuncs l\<rparr>)))
    \<lparr>hooks_funchook := fst (lib_call (funchook_create L) (l\<lparr>g_xTrampoline := g_xLibcFuncs l\<rparr>))\<rparr>"
  define l4 where "l4 = snd (prepare_chain P L hook_steps l3)"
  define l5 where "l5 = snd (lib_call (funchook_install L (the (hooks_funchook l3))) l4)"
  have k: "keeps H (funchook_create L)" "keeps H (funchook_install L h)" for h
    using assms(2) by (simp_all add: loader_keeps_def)
  have s3: "steady H (proc l) (proc l3)"
    using proc_lib_call [OF k(1), of "l\<lparr>g_xTrampoline := g_xLibcFuncs l\<rparr>"] by (simp add: l3_def)
  have s4: "steady H (proc l) (proc l4)" "steady H (proc l) (proc l5)" if "hooks_funchook l3 \<noteq> None"
  proof -
    show "steady H (proc l) (proc l4)"
      unfolding l4_def using s3 prepare_chain_steady [OF assms that] by (rule steady_trans)
    then show "steady H (proc l) (proc l5)" unfolding l5_def by (rule steady_lib_call [OF k(2)])
  qed
  have un: "steady H (proc l) (proc (uninstall_hooks P L x))" if "steady H (proc l) (proc x)" for x
    using steady_trans [OF that uninstall_steady [OF assms]] .
  have "install_hooks P L l =
      (if \<not> bLibcFuncPtrsLoaded (g_xLibcFuncs l) then lib_log P (''hook install failed: missing real function'' @ nl) l
       else if hooks_funchook l3 = None then lib_log P (''funchook_create failed'' @ nl) l3
       else if fst (prepare_chain P L hook_steps l3) then uninstall_hooks P L l4
       else if fst (lib_call (funchook_install L (the (hooks_funchook l3))) l4) \<noteq> 0
       then uninstall_hooks P L (lib_log P (''funchook_install failed: '' @
              funchook_error_message L (the (hooks_funchook l3)) @ nl) l5)
       else log_table P l5)"
    unfolding install_hooks_def l5_def l4_def l3_def Let_def split_beta by (auto split: option.split)
  then show ?thesis
    using s3 s4 un steady_lib_log [OF assms(1)] log_table_steady [OF assms(1)] by auto
qed

lemma populate_steady:
  assumes "kernel_ok (libc P) H budget"
  shows "steady H (proc l) (proc (vPopulateLibcFuncPtrs P L l))"
  using proc_lib_log [OF assms] by (simp add: vPopulateLibcFuncPtrs_def Let_def)

text \<open>
  The constructor leaves a process in which the invariant holds, the lock is free, the image
  is loaded completely or not at all, and exactly the parts of it that are loaded are held.
\<close>

definition started :: "('w, 'h) env \<Rightarrow> 'w loader \<Rightarrow> 'w \<Rightarrow> ('w, 'h) proc" where
  "started P L w = proc (hooksqfs_init P L (unloaded_library (fresh_proc (ut P) w)))"

lemma mgr_ok_load_frame:
  assumes "load_frame H s t" and "fd_heap s = (\<lambda>p. None)" and "mgr_ok P H s"
  shows "mgr_ok P H t"
  using assms by (auto simp: mgr_ok_def load_frame_def calm_def table_defs holdings_ok_def)

lemma started_ok:
  assumes ok: "platform_ok P H budget left" and L: "loader_keeps L H"
  shows "mgr_ok P H (started P L w)" "mutex_depth (started P L w) = 0" "trapped (started P L w) = Running"
    "image_ok (started P L w)" "fd_table P (started P L w) = Map.empty" "dir_table P (started P L w) = Map.empty"
    "astray (started P L w) = (\<lambda>k. 0)"
proof -
  note K = platform_okD(2) [OF ok]
  let ?s0 = "fresh_proc (ut P) w"
  define s1 where "s1 = sqfs_mutex_init_once P ?s0"
  define l2 where "l2 = vPopulateLibcFuncPtrs P L ((unloaded_library ?s0)\<lparr>proc := s1\<rparr>)"
  define s3 where "s3 = snd (sqfs_mgr_load_image P (proc l2))"
  have s1: "mgr_ok P H s1" "mutex_depth s1 = 0" "trapped s1 = Running" "image_unloaded s1" "fd_heap s1 = (\<lambda>p. None)"
    "dir_heap s1 = (\<lambda>p. None)" "astray s1 = (\<lambda>k. 0)"
    using mgr_ok_fresh_proc [OF platform_okD(1) [OF ok], of H w]
    by (simp_all add: s1_def sqfs_mutex_init_once_def fresh_proc_def image_unloaded_def mgr_ok_def table_defs
        holdings_ok_def fun_eq_iff astray_def part_pointer_def split: image_part.split)
  have st2: "steady H s1 (proc l2)"
    using populate_steady [OF K, of "(unloaded_library ?s0)\<lparr>proc := s1\<rparr>" L] by (simp add: l2_def)
  have s2: "mgr_ok P H (proc l2)" "can_lock (proc l2)" "image_ok (proc l2)" "mutex_depth (proc l2) = 0"
    "trapped (proc l2) = Running" "fd_heap (proc l2) = (\<lambda>p. None)" "dir_heap (proc l2) = (\<lambda>p. None)"
    "astray (proc l2) = (\<lambda>k. 0)"
    using astray_core [of s1 "proc l2"] st2 steady_mgr_ok [OF st2 s1(1)] steadyD [OF st2] s1
    by (simp_all add: can_lock_def image_ok_def image_unloaded_def steady_def)
  note ld = load_image_post [OF ok s2(2,3), folded s3_def]
  have s3: "mgr_ok P H s3" "mutex_depth s3 = 0" "trapped s3 = Running" "image_ok s3" "fd_heap s3 = (\<lambda>p. None)"
    "dir_heap s3 = (\<lambda>p. None)" "astray s3 = (\<lambda>k. 0)"
    using mgr_ok_load_frame [OF ld(1) s2(6,1)] ld s2(4-8)
    by (auto simp: load_frame_def calm_def image_ok_def split: if_splits)
  have st: "steady H s3 (started P L w)"
    using install_steady [OF K L, of "l2\<lparr>proc := s3\<rparr>"]
    by (simp add: started_def hooksqfs_init_def unloaded_library_def s1_def l2_def s3_def Let_def)
  show "mgr_ok P H (started P L w)" "mutex_depth (started P L w) = 0" "trapped (started P L w) = Running"
    "image_ok (started P L w)" "fd_table P (started P L w) = Map.empty" "dir_table P (started P L w) = Map.empty"
    "astray (started P L w) = (\<lambda>k. 0)"
    using steady_mgr_ok [OF st s3(1)] steadyD [OF st] s3 astray_core [of s3 "started P L w"] st
    by (simp_all add: steady_def image_ok_def image_unloaded_def sqfs_mgr_loaded_locked_def table_defs
        entry_at_def fun_eq_iff split: option.split)
qed

section \<open>Calls and reachable states\<close>

datatype hook_call =
    Open "string option" u32 u32
  | Read int nat
  | Pread int nat int
  | Pread64 int nat int
  | Lseek int int int
  | Lseek64 int int int
  | Close int
  | Close_nocancel int
  | Opendir "string option"
  | Readdir int
  | Closedir int
  | Access "string option" u32
  | Xstat int "string option" bool

fun perform :: "('w, 'h) env \<Rightarrow> hook_call \<Rightarrow> ('w, 'h) proc \<Rightarrow> ('w, 'h) proc" where
  "perform P (Open path flags mode) s = snd (sqfs_open P path flags mode s)"
| "perform P (Read fd count) s = snd (sqfs_read P fd count s)"
| "perform P (Pread fd count off) s = snd (sqfs_pread P fd count off s)"
| "perform P (Pread64 fd count off) s = snd (sqfs_pread64 P fd count off s)"
| "perform P (Lseek fd off whence) s = snd (sqfs_lseek P fd off whence s)"
| "perform P (Lseek64 fd off whence) s = snd (sqfs_lseek64 P fd off whence s)"
| "perform P (Close fd) s = snd (sqfs_close P fd s)"
| "perform P (Close_nocancel fd) s = snd (sqfs_close_nocancel P fd s)"
| "perform P (Opendir path) s = snd (sqfs_opendir P path s)"
| "perform P (Readdir d) s = snd (sqfs_readdir P d s)"
| "perform P (Closedir d) s = snd (sqfs_closedir P d s)"
| "perform P (Access path mode) s = snd (sqfs_access P path mode s)"
| "perform P (Xstat ver path buf) s = snd (sqfs_xstat P ver path buf s)"

interpretation perform: hook "\<lambda>P s. perform P c s" for c
proof
  fix P :: "('w, 'h) env" and H budget left and s :: "('w, 'h) proc"
  assume "platform_ok P H budget left" "mgr_ok P H s" "can_lock s"
  note contracts = open_file.contract [OF this] read.contract [OF this] pread.contract [OF this]
    pread64.contract [OF this] lseek.contract [OF this] lseek64.contract [OF this] close.contract [OF this]
    close_nocancel.contract [OF this] opendir.contract [OF this] readdir.contract [OF this]
    closedir.contract [OF this] access.contract [OF this] xstat.contract [OF this]
  show "hook_post P H s (perform P c s)"
    by (cases c) (simp_all add: contracts)
qed

text \<open>
  The states of a process with the library: after the constructor, after a hook that the
  application called, and after anything that happens outside the library. The application ends
  a handle through the hooks only, so such a change keeps every open handle.
\<close>

inductive reachable ::
    "('w, 'h) env \<Rightarrow> 'w loader \<Rightarrow> ('w \<Rightarrow> handle set) \<Rightarrow> 'w \<Rightarrow> ('w, 'h) proc \<Rightarrow> bool"
  for P L H w where
  start: "reachable P L H w (started P L w)"
| called: "reachable P L H w s \<Longrightarrow> reachable P L H w (perform P c s)"
| outside: "reachable P L H w s \<Longrightarrow> H (os s) \<subseteq> H w' \<Longrightarrow> reachable P L H w (s\<lparr>os := w', errno := e\<rparr>)"

lemma steady_outside: "H (os s) \<subseteq> H w' \<Longrightarrow> steady H s (s\<lparr>os := w', errno := e\<rparr>)"
  by (simp add: steady_def core_eq_def calm_def)

lemma reachable_post:
  assumes "platform_ok P H budget left" and "loader_keeps L H" and "reachable P L H w s"
  shows "hook_post P H (started P L w) s"
  using assms(3)
proof induction
  case start
  then show ?case using started_ok [OF assms(1,2)] by (simp add: hook_post_def)
next
  case (called s c)
  then have "mgr_ok P H s" "can_lock s"
    using started_ok(2) [OF assms(1,2)] by (simp_all add: hook_post_def can_lock_def)
  then show ?case using perform.contract [OF assms(1)] hook_post_trans [OF called.IH] by blast
next
  case (outside s w' e)
  then show ?case using hook_post_steady [OF outside.IH steady_outside] by blast
qed

lemma astray_hook_post: "hook_post P H s t \<Longrightarrow> astray t = astray s"
  by (simp add: fun_eq_iff hook_post_def astray_def part_pointer_def split: image_part.split)

lemma reachable_ok:
  assumes "platform_ok P H budget left" and "loader_keeps L H" and "reachable P L H w s"
  shows "mgr_ok P H s" "mutex_depth s = 0" "sound P s" "image_ok s" "can_lock s"
    "mgr_file s = mgr_file (started P L w)" "mgr_compressor s = mgr_compressor (started P L w)"
    "mgr_data_reader s = mgr_data_reader (started P L w)" "astray s = (\<lambda>k. 0)"
  using reachable_post [OF assms] started_ok [OF assms(1,2), of w] astray_hook_post [OF reachable_post [OF assms]]
  by (auto simp: hook_post_def sound_def trap_kept_def can_lock_def image_ok_def image_unloaded_def
      sqfs_mgr_loaded_locked_def)

section \<open>Descriptors and streams do not disturb each other\<close>

text \<open>The calls that may change the record of the descriptor or of the stream \<open>k\<close>.\<close>

fun moves :: "hook_call \<Rightarrow> int \<Rightarrow> bool" where
  "moves (Read fd count) k = (fd = k)"
| "moves (Lseek fd off whence) k = (fd = k)"
| "moves (Lseek64 fd off whence) k = (fd = k)"
| "moves (Close fd) k = (fd = k)"
| "moves (Close_nocancel fd) k = (fd = k)"
| "moves c k = False"

fun moves_dir :: "hook_call \<Rightarrow> int \<Rightarrow> bool" where
  "moves_dir (Readdir d) k = (d = k)"
| "moves_dir (Closedir d) k = (d = k)"
| "moves_dir c k = False"

lemma read_spares:
  assumes ok: "platform_ok P H budget left" and inv: "mgr_ok P H s" and lk: "can_lock s"
  shows "dir_table P (snd (sqfs_read P fd count s)) = dir_table P s \<and>
    (fd \<noteq> k \<longrightarrow> fd_table P (snd (sqfs_read P fd count s)) k = fd_table P s k)"
proof (cases "find_fd P fd s")
  case None
  then show ?thesis
    using unmapped_calls(1) [OF lk None, of count] by (simp add: table_defs)
next
  case (Some p)
  then obtain e r where e: "fd_table P s fd = Some e" "mgr_data_reader s = Some r" by (rule find_fd_entry [OF inv])
  obtain ret bytes err w where call: "sqfs_data_reader_read (lib P) r (fd_inode e) (fd_offset e)
      (word_of_nat count) (os s) = ((ret, bytes), err, w)" by (metis surj_pair)
  obtain res t where rd: "sqfs_read P fd count s = (res, t)" by (cases "sqfs_read P fd count s")
  from read_effect [OF ok inv lk e call rd] rd show ?thesis by (simp split: if_splits)
qed

lemma lseek_mapped_spares:
  assumes "mgr_ok P H s" and "fd_heap s p = Some e"
  shows "dir_table P (snd (sqfs_lseek_mapped P func p e off whence lim s)) = dir_table P s \<and>
    (fd_key e \<noteq> k \<longrightarrow> fd_table P (snd (sqfs_lseek_mapped P func p e off whence lim s)) k = fd_table P s k)"
proof (cases "seek_target (lib P) e (word_of_int off) whence lim")
  case (Inl err)
  then show ?thesis using lseek_mapped_fails [OF Inl, of func p s] by (auto simp: table_defs)
next
  case (Inr n)
  have "fd_key e \<noteq> k \<longrightarrow> fd_table P (fd_store p (e\<lparr>fd_offset := n\<rparr>) s) k = fd_table P s k"
    using mgr_ok_fd_store(2) [OF assms, of "e\<lparr>fd_offset := n\<rparr>"] by simp
  then show ?thesis
    using lseek_mapped_moves [OF Inr, of func p s] by (auto simp: table_defs fd_store_def)
qed

lemma lseek_spares:
  assumes inv: "mgr_ok P H s" and lk: "can_lock s"
  shows "dir_table P (snd (sqfs_lseek P fd off whence s)) = dir_table P s \<and>
      (fd \<noteq> k \<longrightarrow> fd_table P (snd (sqfs_lseek P fd off whence s)) k = fd_table P s k) \<and>
    dir_table P (snd (sqfs_lseek64 P fd off whence s)) = dir_table P s \<and>
      (fd \<noteq> k \<longrightarrow> fd_table P (snd (sqfs_lseek64 P fd off whence s)) k = fd_table P s k)"
proof (cases "find_fd P fd s")
  case None
  then show ?thesis
    using unmapped_calls(4,5) [OF lk None, of off whence] by (auto simp: table_defs split: option.split)
next
  case (Some p)
  then obtain e where e: "fd_heap s p = Some e" "fd_key e = fd" by (rule find_fd_entry [OF inv])
  have "dir_table P (snd (sqfs_lseek_mapped P func p e off whence lim (sqfs_lock s))) = dir_table P s \<and>
    (fd \<noteq> k \<longrightarrow> fd_table P (snd (sqfs_lseek_mapped P func p e off whence lim (sqfs_lock s))) k = fd_table P s k)" for func lim
    using lseek_mapped_spares [OF mgr_ok_locked [OF lk inv], of p e func off whence lim k] lk e
    by (simp add: table_defs)
  then show ?thesis
    using Some e lk
    by (simp add: sqfs_lseek_def sqfs_lseek64_def split_beta find_fd_def Let_def table_defs sqfs_unlock_def)
qed

lemma close_impl_spares:
  assumes ok: "platform_ok P H budget left" and inv: "mgr_ok P H s" and lk: "can_lock s"
  shows "dir_table P (snd (sqfs_close_impl P (\<lambda>t. t) func fd (Some close) s)) = dir_table P s \<and>
    (fd \<noteq> k \<longrightarrow> fd_table P (snd (sqfs_close_impl P (\<lambda>t. t) func fd (Some close) s)) k = fd_table P s k)"
proof (cases "fd_table P s fd")
  case None
  then have "find_fd P fd s = None" using find_fd_table [OF inv, of fd] by simp
  then show ?thesis using unmapped_calls(6) [OF lk, of P fd "\<lambda>t. t" func close] by (simp add: table_defs)
next
  case (Some e)
  from close_effect [OF ok inv lk Some] obtain u where u: "fd_table P u = (fd_table P s)(fd := None)"
    "dir_table P u = dir_table P s"
    "core_eq u (snd (sqfs_close_impl P (\<lambda>t. t) func fd (Some close) s))"
    by (metis snd_conv)
  from u(3) have "fd_table P (snd (sqfs_close_impl P (\<lambda>t. t) func fd (Some close) s)) = fd_table P u"
    "dir_table P (snd (sqfs_close_impl P (\<lambda>t. t) func fd (Some close) s)) = dir_table P u"
    by (simp_all add: core_eq_def table_defs)
  with u(1,2) show ?thesis by simp
qed

lemma close_spares:
  assumes "platform_ok P H budget left" and "mgr_ok P H s" and "can_lock s"
  shows "dir_table P (snd (sqfs_close P fd s)) = dir_table P s \<and>
      (fd \<noteq> k \<longrightarrow> fd_table P (snd (sqfs_close P fd s)) k = fd_table P s k) \<and>
    dir_table P (snd (sqfs_close_nocancel P fd s)) = dir_table P s \<and>
      (fd \<noteq> k \<longrightarrow> fd_table P (snd (sqfs_close_nocancel P fd s)) k = fd_table P s k)"
proof -
  obtain c where c: "libc_close (libc P) = Some c" using kernel_okD(2) [OF platform_okD(2) [OF assms(1)]] by blast
  then show ?thesis
    using close_impl_spares [OF assms, of _ fd _ k]
    by (cases "libc_close_nocancel (libc P)") (simp_all add: sqfs_close_def sqfs_close_nocancel_def)
qed

lemma open_spares:
  assumes ok: "platform_ok P H budget left" and inv: "mgr_ok P H s" and lk: "can_lock s"
  shows "dir_table P (snd (sqfs_open P path flags mode s)) = dir_table P s \<and>
    (fd_table P s k \<noteq> None \<longrightarrow> fd_table P (snd (sqfs_open P path flags mode s)) k = fd_table P s k)"
proof -
  obtain fd s1 where c: "sys_call (libc_open (libc P) path flags
      (if open_flags_need_mode flags then Some mode else None)) s = (fd, s1)"
    by (metis surj_pair)
  have s1: "steady H s s1" using kernel_keeps(1) [OF platform_okD(2) [OF ok]] c by (rule steady_call')
  have "can_lock s1" using lk steadyD(1,2) [OF s1] by (simp add: can_lock_def)
  then have "dir_table P (snd (open_in_image P rel flags s1)) = dir_table P s1 \<and>
    (fd_table P s1 k \<noteq> None \<longrightarrow> fd_table P (snd (open_in_image P rel flags s1)) k = fd_table P s1 k)" for rel
    using open_in_image_effect [OF ok, of s1 rel flags] steady_mgr_ok [OF s1 inv]
    by (auto simp: open_effect_def split: if_splits)
  then show ?thesis
    using c steady_tables [OF s1, of P] by (simp add: sqfs_open_defs Let_def table_defs split: sum.split)
qed

lemma dump_tables:
  assumes "kernel_ok (libc P) H budget"
  shows "fd_table P (sqfs_unlock (dump_if P b pre y v)) = fd_table P v"
    "dir_table P (dump_if P b pre y v) = dir_table P v"
proof -
  have "steady H v (dump_if P b pre y v)" using assms by (rule dump_if_steady)
  then show "fd_table P (sqfs_unlock (dump_if P b pre y v)) = fd_table P v"
    "dir_table P (dump_if P b pre y v) = dir_table P v"
    using steady_tables [of H v "dump_if P b pre y v" P] by (simp_all add: fd_table_def sqfs_unlock_def)
qed

lemma readdir_spares:
  assumes ok: "platform_ok P H budget left" and inv: "mgr_ok P H s" and lk: "can_lock s"
  shows "fd_table P (snd (sqfs_readdir P d s)) = fd_table P s \<and>
    (d \<noteq> k \<longrightarrow> dir_table P (snd (sqfs_readdir P d s)) k = dir_table P s k)"
proof (cases "find_dir P d s")
  case None
  then show ?thesis
    using lk by (simp add: sqfs_readdir_def find_dir_def table_defs)
next
  case (Some p)
  then obtain e where e: "dir_heap s p = Some e" "dir_key e = d" "dir_entry_ok e" by (rule find_dir_entry [OF inv])
  obtain x s2 where c: "sys_call (libc_readdir (libc P) d) (sqfs_lock s) = (x, s2)"
    by (cases "sys_call (libc_readdir (libc P) d) (sqfs_lock s)")
  have st: "steady H (sqfs_lock s) s2"
    using steady_call' [OF kernel_keeps(5) [OF platform_okD(2) [OF ok]] c] .
  have s2: "mgr_ok P H s2" "dir_heap s2 p = Some e" "fd_table P s2 = fd_table P s" "dir_table P s2 = dir_table P s"
    using steady_mgr_ok [OF st mgr_ok_locked [OF lk inv]] steadyD(11) [OF st] steady_tables [OF st, of P] e lk
    by (simp_all add: table_defs)
  note dump = dump_tables [OF platform_okD(2) [OF ok]]
  have img: "fd_table P (snd (readdir_image P b p e u)) = fd_table P u \<and>
      (d \<noteq> k \<longrightarrow> dir_table P (snd (readdir_image P b p e u)) k = dir_table P u k)"
    if "mgr_ok P H u" "dir_heap u p = Some e" for u b
  proof -
    have st: "fd_table P (dir_store p (advanced e) u) = fd_table P u"
      "dir_table P (dir_store p (advanced e) u) = (dir_table P u)(d \<mapsto> advanced e)"
      using mgr_ok_dir_store(2) [OF that, of "advanced e"] advanced_ok [OF e(3)] e(2)
      by (simp_all add: fd_table_def dir_store_def)
    show ?thesis by (simp add: readdir_image_eq dump st split: list.split)
  qed
  have lk': "fd_table P (sqfs_lock s) = fd_table P s" "dir_table P (sqfs_lock s) = dir_table P s"
    "dir_heap (sqfs_lock s) p = Some e"
    using lk e by (simp_all add: table_defs)
  show ?thesis
    using img [OF s2(1,2)] img [OF mgr_ok_locked [OF lk inv] lk'(3)] s2 lk' dump
    unfolding readdir_mapped [OF lk Some e(1) c] Let_def
    by (simp split: option.split)
qed

lemma closedir_spares:
  assumes ok: "platform_ok P H budget left" and inv: "mgr_ok P H s" and lk: "can_lock s"
  shows "fd_table P (snd (sqfs_closedir P d s)) = fd_table P s \<and>
    (d \<noteq> k \<longrightarrow> dir_table P (snd (sqfs_closedir P d s)) k = dir_table P s k)"
proof (cases "dir_table P s d")
  case None
  then have "find_dir P d s = None" using find_dir_table [OF inv, of d] by simp
  then show ?thesis
    using lk by (simp add: sqfs_closedir_defs find_dir_def table_defs)
next
  case (Some e)
  from closedir_effect [OF ok inv lk Some] obtain u where u: "dir_table P u = (dir_table P s)(d := None)"
    "fd_table P u = fd_table P s" "sqfs_closedir P d s = sys_call (libc_closedir (libc P) d) u"
    unfolding sqfs_closedir_def by metis
  then show ?thesis by (simp add: table_defs)
qed

lemma opendir_spares:
  assumes ok: "platform_ok P H budget left" and inv: "mgr_ok P H s" and lk: "can_lock s"
  shows "fd_table P (snd (sqfs_opendir P path s)) = fd_table P s \<and>
    (dir_table P s k \<noteq> None \<longrightarrow> dir_table P (snd (sqfs_opendir P path s)) k = dir_table P s k)"
proof -
  obtain real s1 where c: "sys_call (libc_opendir (libc P) path) s = (real, s1)"
    by (cases "sys_call (libc_opendir (libc P) path) s")
  from opendir_sys_effect [OF ok inv lk c] show ?thesis
    unfolding opendir_effect_def
  proof (elim disjE)
    assume "(fst (sqfs_opendir P path s) = None \<and> closed_last P real (snd (sqfs_opendir P path s)) \<or>
        (\<exists>d. fst (sqfs_opendir P path s) = Some d \<and> real = Some d \<and> Stream d \<in> H (os (snd (sqfs_opendir P path s))) \<and>
          unlisted_path P path s)) \<and>
      steady H s (snd (sqfs_opendir P path s))"
    then show ?thesis using steady_tables [of H s "snd (sqfs_opendir P path s)" P] by simp
  qed auto
qed

text \<open>Every call spares the records of the descriptors and streams that it is not about.\<close>

lemma perform_spares:
  assumes "platform_ok P H budget left" and "mgr_ok P H s" and "can_lock s"
  shows "\<not> moves c k \<Longrightarrow> fd_table P s k = Some e \<Longrightarrow> fd_table P (perform P c s) k = Some e"
    and "\<not> moves_dir c d \<Longrightarrow> dir_table P s d = Some e' \<Longrightarrow> dir_table P (perform P c s) d = Some e'"
  using read_spares [OF assms] lseek_spares [OF assms(2,3)] close_spares [OF assms] open_spares [OF assms]
    readdir_spares [OF assms] closedir_spares [OF assms] opendir_spares [OF assms]
    steady_tables [OF pread.observes [OF assms]] steady_tables [OF pread64.observes [OF assms]]
    steady_tables [OF access.observes [OF assms]] steady_tables [OF xstat.observes [OF assms]]
  by (cases c; simp)+

section \<open>What a quiet process holds\<close>

lemma no_records_no_holdings:
  assumes "mgr_ok P H s" and "fd_table P s = Map.empty" and "dir_table P s = Map.empty"
  shows "fd_heap s = Map.empty" "dir_heap s = Map.empty" "live_inodes s = 0" "live_readers s = 0"
proof -
  have "fd_heap s p = None" for p
    using table_ok_heap(3) [OF mgr_okD(1) [OF assms(1)], of p] assms(2)
    by (cases "fd_heap s p") (auto simp: fd_table_def fun_eq_iff)
  then show fds: "fd_heap s = Map.empty" by blast
  have "dir_heap s p = None" for p
    using table_ok_heap(3) [OF mgr_okD(2) [OF assms(1)], of p] assms(3)
    by (cases "dir_heap s p") (auto simp: dir_table_def fun_eq_iff)
  then show dirs: "dir_heap s = Map.empty" by blast
  have "holdings_ok s" using assms(1) by (simp add: mgr_ok_def)
  then show "live_inodes s = 0" "live_readers s = 0"
    using fds dirs by (simp_all add: holdings_ok_def listed_nodes_def)
qed

lemma sample_loader_keeps: "loader_keeps sample_loader m_open"
  by (auto simp: loader_keeps_def sample_loader_def keeps_def m_open_def split: handle.splits)

lemma sample_short_names: "\<not> long_names sample_lib"
  by (auto simp: long_names_def sample_lib_def m_dir_read_def split: if_splits)

end
