(* ===== verification/Threads.thy ===== *)
theory Threads
  imports Overlay
begin

text \<open>
  Several threads in the hooks of \<open>src/sqfs_mgr.c\<close> at once. The mutex makes each locked section one
  step, but \<open>close\<close> and \<open>closedir\<close> make the real call after they have given the lock back, and
  \<open>open\<close>, \<open>opendir\<close>, \<open>access\<close> and \<open>__xstat\<close> make it before they take the lock. Here these sections are
  steps of their own, and the sections of all threads interleave in any order. Every thread has
  its own \<open>errno\<close>.
\<close>

section \<open>The sections\<close>

text \<open>The locked section of \<open>sqfs_close_impl\<close>, up to the real \<open>close\<close>.\<close>

definition close_section :: "('w, 'h) env \<Rightarrow> int \<Rightarrow> ('w, 'h) proc \<Rightarrow> ('w, 'h) proc" where
  "close_section P fd s =
     (let s1 = sqfs_lock s
      in case find_fd P fd s1 of
           None \<Rightarrow> sqfs_unlock s1
         | Some p \<Rightarrow>
             (case fd_heap s1 p of
                None \<Rightarrow> set_trap Faulted s1
              | Some found \<Rightarrow>
                  let s2 = s1\<lparr>fd_map := HASH_DEL (ut P) (fd_key found) p (fd_map s1)\<rparr>;
                      s3 = free_inode (Some (fd_inode found)) s2;
                      s4 = s3\<lparr>fd_heap := (fd_heap s3)(p := None)\<rparr>
                  in sqfs_unlock s4))"

text \<open>The locked section of \<open>sqfs_closedir\<close>, up to the real \<open>closedir\<close>.\<close>

definition closedir_section :: "('w, 'h) env \<Rightarrow> int \<Rightarrow> ('w, 'h) proc \<Rightarrow> ('w, 'h) proc" where
  "closedir_section P d s =
     (let s1 = sqfs_lock s
      in case find_dir P d s1 of
           None \<Rightarrow> sqfs_unlock s1
         | Some p \<Rightarrow>
             (case dir_heap s1 p of
                None \<Rightarrow> set_trap Faulted s1
              | Some found \<Rightarrow>
                  let s2 = s1\<lparr>dir_map := HASH_DEL (ut P) (dir_key found) p (dir_map s1)\<rparr>;
                      s3 = destroy_reader P (dir_reader found) s2;
                      s4 = free_sqfs_dir_entry_list (dir_entry_list found) s3;
                      s5 = s4\<lparr>dir_heap := (dir_heap s4)(p := None)\<rparr>;
                      s6 = log_hook P (Some ''sqfs_closedir'') (''dir=0x'' @ show_base 16 (nat d) @ nl) s5
                  in sqfs_unlock s6))"

text \<open>The locked section that \<open>sqfs_xstat\<close> and \<open>sqfs_access\<close> share.\<close>

definition stat_section ::
    "('w, 'h) env \<Rightarrow> string \<Rightarrow> ('w, 'h) proc \<Rightarrow> stat option \<times> ('w, 'h) proc" where
  "stat_section P relative s =
     (case sqfs_stat_impl P (Some relative) (sqfs_lock s) of
        (ok, s1) \<Rightarrow> let saved_errno = errno s1 in (ok, (sqfs_unlock s1)\<lparr>errno := saved_errno\<rparr>))"

text \<open>The hooks are these sections, with the real call behind or before the gap.\<close>

lemma close_sections:
  assumes "mgr_ok P H s" and "can_lock s" and "sys_call (close fd) (gap (close_section P fd s)) = (ret, t)"
  shows "\<exists>m. sqfs_close_impl P gap func fd (Some close) s =
    (ret, if find_fd P fd s = None then t else (log_hook P (Some func) m t)\<lparr>errno := errno t\<rparr>)"
proof (cases "find_fd P fd s")
  case None
  then show ?thesis using assms unmapped_calls(6) [OF assms(2) None] by (simp add: close_section_def find_fd_def)
next
  case (Some p)
  then obtain e where e: "fd_heap s p = Some e" by (rule find_fd_entry [OF assms(1)])
  have "close_section P fd s = close_detached P p e s"
    using Some e assms(2) by (simp add: close_section_def close_detached_def free_inode_def find_fd_def Let_def)
  with close_mapped [OF assms(2) Some e] assms(3) Some show ?thesis by simp
qed

lemma closedir_sections:
  assumes "mgr_ok P H s" and "can_lock s"
  shows "closedir_amid P gap d s = sys_call (libc_closedir (libc P) d) (gap (closedir_section P d s))"
proof (cases "find_dir P d s")
  case None
  then show ?thesis using assms(2) by (simp add: closedir_amid_def closedir_section_def)
next
  case (Some p)
  then obtain e where "dir_heap s p = Some e" "dir_key e = d" by (rule find_dir_entry [OF assms(1)])
  then show ?thesis using Some assms(2) by (simp add: closedir_amid_def closedir_section_def Let_def)
qed

lemma unlock_keeps_errno: "(sqfs_unlock t)\<lparr>errno := errno t\<rparr> = sqfs_unlock t"
  by (simp add: sqfs_unlock_def set_trap_def)

lemma xstat_sections:
  assumes "sys_call (libc_xstat (libc P) 3 pathname True) s = ((r, buf), s1)" and "r \<noteq> 0"
    and "sqfs_check_path_then_convert P pathname True PATH_MAX = Inr relative"
  shows "xstat_amid P gap 3 pathname True s =
    (case stat_section P relative (gap s1) of (Some b, s2) \<Rightarrow> ((0, Some b), s2) | (None, s2) \<Rightarrow> ((-1, buf), s2))"
  using assms by (auto simp: xstat_amid_def stat_section_def Let_def split: prod.split option.split)

lemma access_sections:
  assumes "sys_call (libc_access (libc P) pathname mode) s = (r, s1)" and "r \<noteq> 0"
    and "sqfs_check_path_then_convert P pathname True PATH_MAX = Inr relative"
  shows "access_amid P gap pathname mode s =
    (case stat_section P relative (gap s1) of
       (None, s2) \<Rightarrow> access_denied P pathname mode 0 s2
     | (Some b, s2) \<Rightarrow>
         let err = access_decision mode (st_mode b)
         in if err \<noteq> 0 then access_denied P pathname mode (st_mode b) (s2\<lparr>errno := err\<rparr>)
            else
              (0, log_hook P (Some ''sqfs_access'')
                    (access_text (''granted: path='' @ dquote) pathname mode @
                     '', st_mode='' @ show_oct (st_mode b) @ nl) s2))"
  using assms
  by (auto simp: access_amid_def stat_section_def unlock_keeps_errno Let_def split: prod.split option.split)

section \<open>Handles that no record names\<close>

definition unrecorded :: "('w, 'h) env \<Rightarrow> ('w, 'h) proc \<Rightarrow> handle \<Rightarrow> bool" where
  "unrecorded P s h \<longleftrightarrow> (case h of Descriptor fd \<Rightarrow> fd_table P s fd = None | Stream d \<Rightarrow> dir_table P s d = None)"

lemma unrecorded_tables:
  "fd_table P t = fd_table P s \<Longrightarrow> dir_table P t = dir_table P s \<Longrightarrow> unrecorded P t h = unrecorded P s h"
  by (simp add: unrecorded_def split: handle.split)

text \<open>The frame of a step that other threads rely on: open handles stay open, free names stay free.\<close>

definition leaves :: "('w, 'h) env \<Rightarrow> ('w \<Rightarrow> handle set) \<Rightarrow> ('w, 'h) proc \<Rightarrow> ('w, 'h) proc \<Rightarrow> bool" where
  "leaves P H s t \<longleftrightarrow>
     H (os s) \<subseteq> H (os t) \<and> (\<forall>h \<in> H (os s). unrecorded P s h \<longrightarrow> unrecorded P t h)"

lemma leaves_steady: "steady H s t \<Longrightarrow> leaves P H s t"
  using steady_tables [of H s t P] steadyD(16) [of H s t] unrecorded_tables [of P t s] by (simp add: leaves_def)

lemma leaves_trans [trans]: "leaves P H s t \<Longrightarrow> leaves P H t u \<Longrightarrow> leaves P H s u"
  by (auto simp: leaves_def)

lemma leaves_call: "keeps H f \<Longrightarrow> leaves P H s (snd (sys_call f s))"
  by (rule leaves_steady) (rule steady_call)

lemma leaves_update:
  assumes "H (os s) \<subseteq> H (os t)" and "\<And>k. fd_table P s k = None \<Longrightarrow> fd_table P t k = None"
    and "\<And>k. dir_table P s k = None \<Longrightarrow> dir_table P t k = None"
  shows "leaves P H s t"
  using assms by (auto simp: leaves_def unrecorded_def split: handle.splits)

lemma read_leaves:
  assumes ok: "platform_ok P H budget left" and inv: "mgr_ok P H s" and lk: "can_lock s"
  shows "leaves P H s (snd (sqfs_read P fd count s))"
proof (cases "find_fd P fd s")
  case None
  then show ?thesis
    using unmapped_calls(1) [OF lk None] leaves_call [OF kernel_keeps(2) [OF platform_okD(2) [OF ok]]] by simp
next
  case (Some p)
  then obtain e r where e: "fd_heap s p = Some e" "fd_key e = fd" "fd_table P s fd = Some e" "mgr_data_reader s = Some r"
    by (rule find_fd_entry [OF inv])
  obtain ret bytes u where c: "sys_call (sqfs_data_reader_read (lib P) r (fd_inode e) (fd_offset e)
      (word_of_nat count)) (sqfs_lock s) = ((ret, bytes), u)" by (metis surj_pair)
  have "steady H (sqfs_lock s) (log_hook P (Some ''sqfs_read'') m u)" for m
    using steady_trans [OF data_call_steady [OF ok c] steady_log_hook [OF platform_okD(2) [OF ok]]] .
  then have sub: "H (os s) \<subseteq> H (os (log_hook P (Some ''sqfs_read'') m u))" for m
    using steadyD(16) lk by fastforce
  obtain m where rd: "snd (sqfs_read P fd count s) =
    (if ret \<ge> 0
     then sqfs_unlock ((fd_store p (e\<lparr>fd_offset := fd_offset e + word_of_int ret\<rparr>)
            (log_hook P (Some ''sqfs_read'') m u))\<lparr>errno := 0\<rparr>)
     else sqfs_unlock ((log_hook P (Some ''sqfs_read'') m u)\<lparr>errno := errno_from_sqfs (lib P) ret\<rparr>))"
    using read_mapped [OF lk Some e(1,4) c] by (auto split: if_splits)
  have "H (os s) \<subseteq> H (os (snd (sqfs_read P fd count s)))"
    unfolding rd using sub [of m] by (simp add: fd_store_def)
  moreover have "fd_table P (snd (sqfs_read P fd count s)) k = None" if "fd_table P s k = None" for k
    using read_spares [OF ok inv lk, of fd count k] e(3) that by auto
  moreover have "dir_table P (snd (sqfs_read P fd count s)) = dir_table P s"
    using read_spares [OF ok inv lk] by blast
  ultimately show ?thesis by (intro leaves_update) simp_all
qed

lemma lseek_leaves:
  assumes ok: "platform_ok P H budget left" and inv: "mgr_ok P H s" and lk: "can_lock s"
  shows "leaves P H s (snd (sqfs_lseek P fd off whence s))" "leaves P H s (snd (sqfs_lseek64 P fd off whence s))"
proof -
  note K = platform_okD(2) [OF ok]
  have "leaves P H s (snd (sqfs_lseek P fd off whence s)) \<and> leaves P H s (snd (sqfs_lseek64 P fd off whence s))"
  proof (cases "find_fd P fd s")
    case None
    then show ?thesis
      using unmapped_calls(4,5) [OF lk None, of off whence] leaves_steady [of H s "s\<lparr>errno := ENOSYS\<rparr>" P]
      by (auto split: option.split intro!: leaves_call kernel_keeps(4) [OF K] kernel_okD(10) [OF K])
  next
    case (Some p)
    then obtain e r where e: "fd_heap s p = Some e" "fd_key e = fd" "fd_table P s fd = Some e"
      by (rule find_fd_entry [OF inv])
    have sub: "H (os s) \<subseteq> H (os (snd (sqfs_lseek_mapped P func p e off whence lim (sqfs_lock s))))" for func lim
    proof (cases "seek_target (lib P) e (word_of_int off) whence lim")
      case (Inl err)
      then show ?thesis
        using lseek_mapped_fails [OF Inl, of func p "sqfs_lock s"] steadyD(16) [OF steady_log_hook [OF K]] lk by fastforce
    next
      case (Inr n)
      obtain m where "sqfs_lseek_mapped P func p e off whence lim (sqfs_lock s) =
          ((0, n), log_hook P (Some func) m ((fd_store p (e\<lparr>fd_offset := n\<rparr>) (sqfs_lock s))\<lparr>errno := 0\<rparr>))"
        using lseek_mapped_moves [OF Inr] by blast
      moreover have "os ((fd_store p (e\<lparr>fd_offset := n\<rparr>) (sqfs_lock s))\<lparr>errno := 0\<rparr>) = os s"
        using lk by (simp add: fd_store_def)
      ultimately show ?thesis
        using steadyD(16) [OF steady_log_hook [OF K]] by (metis snd_conv)
    qed
    have "H (os s) \<subseteq> H (os (snd (sqfs_lseek P fd off whence s)))" "H (os s) \<subseteq> H (os (snd (sqfs_lseek64 P fd off whence s)))"
      using Some e(1) lk sub
      by (simp_all add: sqfs_lseek_def sqfs_lseek64_def split_beta find_fd_def Let_def sqfs_unlock_def)
    moreover have "fd_table P (snd (sqfs_lseek P fd off whence s)) k = None"
      "fd_table P (snd (sqfs_lseek64 P fd off whence s)) k = None" if "fd_table P s k = None" for k
      using lseek_spares [OF inv lk, of fd off whence k] e(3) that by auto
    moreover have "dir_table P (snd (sqfs_lseek P fd off whence s)) = dir_table P s"
      "dir_table P (snd (sqfs_lseek64 P fd off whence s)) = dir_table P s"
      using lseek_spares [OF inv lk] by blast+
    ultimately show ?thesis by (intro conjI leaves_update) simp_all
  qed
  then show "leaves P H s (snd (sqfs_lseek P fd off whence s))" "leaves P H s (snd (sqfs_lseek64 P fd off whence s))"
    by simp_all
qed

lemma readdir_leaves:
  assumes ok: "platform_ok P H budget left" and inv: "mgr_ok P H s" and lk: "can_lock s"
  shows "leaves P H s (snd (sqfs_readdir P d s))"
proof (cases "find_dir P d s")
  case None
  then show ?thesis
    using lk leaves_call [OF kernel_keeps(5) [OF platform_okD(2) [OF ok]]] by (simp add: sqfs_readdir_def find_dir_def)
next
  note K = platform_okD(2) [OF ok]
  case (Some p)
  then obtain e where e: "dir_heap s p = Some e" "dir_key e = d" "dir_table P s d = Some e" "dir_entry_ok e"
    by (rule find_dir_entry [OF inv])
  obtain x s2 where c: "sys_call (libc_readdir (libc P) d) (sqfs_lock s) = (x, s2)"
    by (cases "sys_call (libc_readdir (libc P) d) (sqfs_lock s)")
  have s2: "H (os s) \<subseteq> H (os s2)" using steadyD(16) [OF steady_call' [OF kernel_keeps(5) [OF K] c]] lk by simp
  have dump: "H (os u) \<subseteq> H (os (dump_if P b pre y u))" for b pre y u
    using steadyD(16) [OF dump_if_steady [OF K]] .
  have store: "os (dir_store p (advanced e) u) = os u" for u by (simp add: dir_store_def)
  have img: "H (os u) \<subseteq> H (os (snd (readdir_image P b p e u)))" for u b
    using dump [of u] dump [of "dir_store p (advanced e) u"] by (auto simp: readdir_image_eq store split: list.split)
  have "H (os s) \<subseteq> H (os (snd (readdir_image P b p e s2)))" "H (os s) \<subseteq> H (os (dump_if P b pre y s2))"
    "H (os s) \<subseteq> H (os (snd (readdir_image P b p e (sqfs_lock s))))" for b pre y
    using subset_trans [OF s2 img] subset_trans [OF s2 dump] img [of "sqfs_lock s" b] lk by simp_all
  then have "H (os s) \<subseteq> H (os (snd (sqfs_readdir P d s)))"
    unfolding readdir_mapped [OF lk Some e(1) c] Let_def by (simp split: option.split)
  moreover have "dir_table P (snd (sqfs_readdir P d s)) k = None" if "dir_table P s k = None" for k
    using readdir_spares [OF ok inv lk, of d k] e(3) that by auto
  moreover have "fd_table P (snd (sqfs_readdir P d s)) = fd_table P s"
    using readdir_spares [OF ok inv lk] by blast
  ultimately show ?thesis by (intro leaves_update) simp_all
qed

lemma open_in_image_leaves:
  assumes "platform_ok P H budget left" and "mgr_ok P H s" and "can_lock s"
  shows "leaves P H s (snd (open_in_image P relative flags s))"
proof -
  have "open_effect P H relative s (open_in_image P relative flags s)"
    by (rule open_in_image_effect [OF assms(1,3,2)])
  then show ?thesis
    by (auto simp: open_effect_def leaves_def unrecorded_def split: if_splits handle.splits)
qed

lemma open_leaves:
  assumes ok: "platform_ok P H budget left" and inv: "mgr_ok P H s" and lk: "can_lock s"
  shows "leaves P H s (snd (sqfs_open P path flags mode s))"
proof -
  obtain fd s1 where c: "sys_call (libc_open (libc P) path flags
      (if open_flags_need_mode flags then Some mode else None)) s = (fd, s1)"
    by (metis surj_pair)
  have s1: "steady H s s1" using kernel_keeps(1) [OF platform_okD(2) [OF ok]] c by (rule steady_call')
  have "can_lock s1" using lk steadyD(1,2) [OF s1] by (simp add: can_lock_def)
  then have "leaves P H s1 (snd (open_in_image P rel flags s1))" for rel
    using open_in_image_leaves [OF ok steady_mgr_ok [OF s1 inv]] by blast
  then have "leaves P H s (snd (open_in_image P rel flags s1))" for rel
    using leaves_trans [OF leaves_steady [OF s1]] by blast
  moreover have "leaves P H s (s1\<lparr>errno := n\<rparr>)" for n using s1 by (intro leaves_steady) simp
  ultimately show ?thesis
    using c leaves_steady [OF s1] by (simp add: sqfs_open_defs Let_def split: sum.split)
qed

lemma opendir_leaves:
  assumes ok: "platform_ok P H budget left" and inv: "mgr_ok P H s" and lk: "can_lock s"
  shows "leaves P H s (snd (sqfs_opendir P path s))"
proof -
  obtain real s1 where c: "sys_call (libc_opendir (libc P) path) s = (real, s1)"
    by (cases "sys_call (libc_opendir (libc P) path) s")
  from opendir_sys_effect [OF ok inv lk c] show ?thesis
    unfolding opendir_effect_def
  proof (elim disjE)
    assume "(fst (sqfs_opendir P path s) = None \<and> closed_last P real (snd (sqfs_opendir P path s)) \<or>
        (\<exists>d. fst (sqfs_opendir P path s) = Some d \<and> real = Some d \<and> Stream d \<in> H (os (snd (sqfs_opendir P path s))) \<and>
          unlisted_path P path s)) \<and>
      steady H s (snd (sqfs_opendir P path s))"
    then show ?thesis using leaves_steady [of H s "snd (sqfs_opendir P path s)" P] by blast
  qed (auto simp: leaves_def unrecorded_def split: if_splits handle.splits)
qed

text \<open>The calls that end a handle.\<close>

fun ends :: "hook_call \<Rightarrow> bool" where
  "ends (Close fd) = True"
| "ends (Close_nocancel fd) = True"
| "ends (Closedir d) = True"
| "ends c = False"

lemma perform_leaves:
  assumes "platform_ok P H budget left" and "mgr_ok P H s" and "can_lock s" and "\<not> ends c"
  shows "leaves P H s (perform P c s)"
  using assms(4) read_leaves [OF assms(1-3)] lseek_leaves [OF assms(1-3)] open_leaves [OF assms(1-3)]
    readdir_leaves [OF assms(1-3)] opendir_leaves [OF assms(1-3)]
    leaves_steady [OF pread.observes [OF assms(1-3)]] leaves_steady [OF pread64.observes [OF assms(1-3)]]
    leaves_steady [OF access.observes [OF assms(1-3)]] leaves_steady [OF xstat.observes [OF assms(1-3)]]
  by (cases c) simp_all

section \<open>Interleaving\<close>

text \<open>The handles that a call is about.\<close>

definition touched :: "hook_call \<Rightarrow> handle set" where
  "touched c = {h. case h of Descriptor fd \<Rightarrow> moves c fd | Stream d \<Rightarrow> moves_dir c d}"

text \<open>
  A step of one thread. \<open>D\<close> holds the handles that one thread alone works on: those between the
  locked section and the real call of a \<open>close\<close> or \<open>closedir\<close>, and the real streams between the
  real call and the locked section of an \<open>opendir\<close>. \<open>X\<close> are the handles that the step is about. The
  application closes a handle that is open, not again while the first call is under way, and not
  before it was given the handle. A call may also run without interruption (\<open>whole\<close>), and
  something outside the hooks may happen (\<open>elsewhere\<close>), such as a real call on a descriptor that is
  not in the table.
\<close>

inductive thread_step :: "('w, 'h) env \<Rightarrow> ('w \<Rightarrow> handle set) \<Rightarrow> handle set \<Rightarrow>
    ('w, 'h) proc \<Rightarrow> handle set \<Rightarrow> ('w, 'h) proc \<Rightarrow> handle set \<Rightarrow> bool"
  for P H where
  whole: "\<not> ends c \<Longrightarrow> thread_step P H (touched c) s D (perform P c s) D"
| open_locked: "thread_step P H {} s D (snd (open_in_image P relative flags s)) D"
| stat_locked: "thread_step P H {} s D (snd (stat_section P relative s)) D"
| opendir_real: "sys_call (libc_opendir (libc P) path) s = (Some d, t) \<Longrightarrow>
    thread_step P H {} s D t (insert (Stream d) D)"
| opendir_locked: "Stream ` set_option real \<subseteq> D \<Longrightarrow>
    thread_step P H (Stream ` set_option real) s D (snd (opendir_locked P real relative (sqfs_lock s)))
      (D - Stream ` set_option real)"
| close_locked: "Descriptor fd \<in> H (os s) - D \<Longrightarrow>
    thread_step P H {Descriptor fd} s D (close_section P fd s) (insert (Descriptor fd) D)"
| closedir_locked: "Stream d \<in> H (os s) - D \<Longrightarrow>
    thread_step P H {Stream d} s D (closedir_section P d s) (insert (Stream d) D)"
| real_close: "Descriptor fd \<in> D \<Longrightarrow> Some close \<in> {libc_close (libc P), libc_close_nocancel (libc P)} \<Longrightarrow>
    thread_step P H {Descriptor fd} s D (snd (sys_call (close fd) s)) (D - {Descriptor fd})"
| real_closedir: "Stream d \<in> D \<Longrightarrow>
    thread_step P H {Stream d} s D (snd (sys_call (libc_closedir (libc P) d) s)) (D - {Stream d})"
| logged: "thread_step P H {} s D (log_hook P func m s) D"
| elsewhere: "H (os s) \<subseteq> H w' \<Longrightarrow> thread_step P H {} s D (s\<lparr>os := w', errno := e\<rparr>) D"

text \<open>The states of the process while its threads are in the hooks.\<close>

inductive interleaved ::
    "('w, 'h) env \<Rightarrow> 'w loader \<Rightarrow> ('w \<Rightarrow> handle set) \<Rightarrow> 'w \<Rightarrow> ('w, 'h) proc \<Rightarrow> handle set \<Rightarrow> bool"
  for P L H w where
  begun: "interleaved P L H w (started P L w) {}"
| stepped: "interleaved P L H w s D \<Longrightarrow> thread_step P H X (s\<lparr>errno := e\<rparr>) D t D' \<Longrightarrow> interleaved P L H w t D'"

lemma interleaved_next: "interleaved P L H w s D \<Longrightarrow> thread_step P H X s D t D' \<Longrightarrow> interleaved P L H w t D'"
  by (rule interleaved.stepped [where e = "errno s" and s = s]) simp_all

text \<open>Every handle under way to its real call is still open, and no record names it.\<close>

definition threads_ok :: "('w, 'h) env \<Rightarrow> ('w \<Rightarrow> handle set) \<Rightarrow> ('w, 'h) proc \<Rightarrow> handle set \<Rightarrow> bool" where
  "threads_ok P H s D \<longleftrightarrow>
     mgr_ok P H s \<and> mutex_depth s = 0 \<and> sound P s \<and> D \<subseteq> H (os s) \<and> (\<forall>h \<in> D. unrecorded P s h)"

lemma threads_okD:
  assumes "threads_ok P H s D"
  shows "mgr_ok P H s" "mutex_depth s = 0" "sound P s" "can_lock s" "D \<subseteq> H (os s)"
    "h \<in> D \<Longrightarrow> unrecorded P s h"
  using assms by (auto simp: threads_ok_def can_lock_def)

lemma threads_ok_errno [simp]: "threads_ok P H (s\<lparr>errno := e\<rparr>) D = threads_ok P H s D"
  by (simp add: threads_ok_def sound_def unrecorded_def table_defs split: handle.split)

text \<open>
  What a step leaves of the handles it is not about: they stay open, and the record of a handle
  stays what it is, whether there is one or not.
\<close>

definition record_kept :: "('w, 'h) env \<Rightarrow> ('w, 'h) proc \<Rightarrow> ('w, 'h) proc \<Rightarrow> handle \<Rightarrow> bool" where
  "record_kept P s t h \<longleftrightarrow>
     (case h of Descriptor fd \<Rightarrow> fd_table P t fd = fd_table P s fd | Stream d \<Rightarrow> dir_table P t d = dir_table P s d)"

definition spares_all_but :: "('w, 'h) env \<Rightarrow> ('w \<Rightarrow> handle set) \<Rightarrow> handle set \<Rightarrow> ('w, 'h) proc \<Rightarrow> ('w, 'h) proc \<Rightarrow> bool" where
  "spares_all_but P H X s t \<longleftrightarrow>
     hook_post P H s t \<and> (\<forall>h \<in> H (os s) - X. h \<in> H (os t) \<and> record_kept P s t h)"

lemma record_kept_unrecorded: "record_kept P s t h \<Longrightarrow> unrecorded P t h = unrecorded P s h"
  by (simp add: record_kept_def unrecorded_def split: handle.splits)

lemma spares_steady:
  assumes "steady H s t" and "mgr_ok P H s"
  shows "spares_all_but P H X s t"
  using steady_hook_post [OF assms] steadyD(16) [OF assms(1)] steady_tables [OF assms(1), of P]
  by (auto simp: spares_all_but_def record_kept_def split: handle.split)

text \<open>A step that spares what it is not about keeps the private handles of all other threads.\<close>

lemma threads_ok_spares:
  assumes "threads_ok P H s D" and "spares_all_but P H X s t" and "X \<inter> E = {}" and "E \<subseteq> D"
  shows "threads_ok P H t E"
proof -
  have "h \<in> H (os t) \<and> unrecorded P t h" if "h \<in> E" for h
  proof -
    have "h \<in> D" "h \<in> H (os s) - X" using that assms(3,4) threads_okD(5) [OF assms(1)] by blast+
    then show ?thesis
      using assms(2) threads_okD(6) [OF assms(1)] record_kept_unrecorded [of P s t h] by (simp add: spares_all_but_def)
  qed
  then show ?thesis
    using assms(1,2) sound_kept [of P s t] by (auto simp: threads_ok_def spares_all_but_def hook_post_def)
qed

lemma threads_ok_insert:
  "threads_ok P H s D \<Longrightarrow> h \<in> H (os s) \<Longrightarrow> unrecorded P s h \<Longrightarrow> threads_ok P H s (insert h D)"
  by (simp add: threads_ok_def)

subsection \<open>The steps, one by one\<close>

lemma whole_spares:
  assumes "platform_ok P H budget left" and "mgr_ok P H s" and "can_lock s" and "\<not> ends c"
  shows "spares_all_but P H (touched c) s (perform P c s)"
proof -
  have lv: "H (os s) \<subseteq> H (os (perform P c s))"
    "\<And>h. h \<in> H (os s) \<Longrightarrow> unrecorded P s h \<Longrightarrow> unrecorded P (perform P c s) h"
    using perform_leaves [OF assms] by (simp_all add: leaves_def)
  have "record_kept P s (perform P c s) h" if "h \<in> H (os s)" "h \<notin> touched c" for h
  proof (cases "unrecorded P s h")
    case True
    with lv(2) [OF that(1)] show ?thesis by (auto simp: unrecorded_def record_kept_def split: handle.splits)
  next
    case False
    with that(2) show ?thesis
      using perform_spares [OF assms(1-3), of c]
      by (cases h) (auto simp: unrecorded_def record_kept_def touched_def)
  qed
  then show ?thesis
    using lv(1) perform.contract [OF assms(1-3), of c] by (auto simp: spares_all_but_def)
qed

lemma open_in_image_spares:
  assumes "platform_ok P H budget left" and "mgr_ok P H s" and "can_lock s"
  shows "spares_all_but P H {} s (snd (open_in_image P relative flags s))"
  using open_in_image_effect [OF assms(1,3,2), of relative flags]
  by (auto simp: open_effect_def spares_all_but_def record_kept_def split: if_splits handle.splits)

lemma stat_section_steady:
  assumes "platform_ok P H budget left" and "can_lock s"
  shows "steady H s (snd (stat_section P relative s))"
proof -
  obtain st t where st: "sqfs_stat_impl P (Some relative) (sqfs_lock s) = (st, t)"
    by (cases "sqfs_stat_impl P (Some relative) (sqfs_lock s)")
  have "steady H (sqfs_lock s) t" using platform_okD(3) [OF assms(1)] st by (rule steady_stat)
  then have "steady H s (sqfs_unlock t)" by (rule steady_unlock [OF assms(2)])
  then show ?thesis by (simp add: stat_section_def st)
qed

lemma close_section_effect:
  assumes ok: "platform_ok P H budget left" and inv: "mgr_ok P H s" and lk: "can_lock s"
  shows "hook_post P H s (close_section P fd s)"
    "fd_table P (close_section P fd s) = (fd_table P s)(fd := None)"
    "dir_table P (close_section P fd s) = dir_table P s" "os (close_section P fd s) = os s"
proof -
  have "hook_post P H s (close_section P fd s) \<and> fd_table P (close_section P fd s) = (fd_table P s)(fd := None) \<and>
    dir_table P (close_section P fd s) = dir_table P s \<and> os (close_section P fd s) = os s"
  proof (cases "find_fd P fd s")
    case None
    then have "close_section P fd s = s" using lk by (simp add: close_section_def find_fd_def)
    moreover have "(fd_table P s)(fd := None) = fd_table P s" using None find_fd_table [OF inv] by auto
    ultimately show ?thesis using inv by (simp add: hook_post_def)
  next
    case (Some p)
    then obtain e where e: "fd_heap s p = Some e" "fd_key e = fd" by (rule find_fd_entry [OF inv])
    have eq: "close_section P fd s = close_detached P p e s"
      using Some e lk by (simp add: close_section_def close_detached_def free_inode_def find_fd_def Let_def)
    show ?thesis
      unfolding eq using mgr_ok_fd_detach [OF platform_okD(1) [OF ok] inv e(1)] e(2)
      by (simp add: close_detached_detach table_defs fd_detach_def hook_post_def)
  qed
  then show "hook_post P H s (close_section P fd s)"
    "fd_table P (close_section P fd s) = (fd_table P s)(fd := None)"
    "dir_table P (close_section P fd s) = dir_table P s" "os (close_section P fd s) = os s" by simp_all
qed

lemma closedir_section_effect:
  assumes ok: "platform_ok P H budget left" and inv: "mgr_ok P H s" and lk: "can_lock s"
  shows "hook_post P H s (closedir_section P d s)"
    "dir_table P (closedir_section P d s) = (dir_table P s)(d := None)"
    "fd_table P (closedir_section P d s) = fd_table P s" "H (os s) \<subseteq> H (os (closedir_section P d s))"
proof -
  have "hook_post P H s (closedir_section P d s) \<and> dir_table P (closedir_section P d s) = (dir_table P s)(d := None) \<and>
    fd_table P (closedir_section P d s) = fd_table P s \<and> H (os s) \<subseteq> H (os (closedir_section P d s))"
  proof (cases "find_dir P d s")
    case None
    then have "closedir_section P d s = s" using lk by (simp add: closedir_section_def)
    moreover have "(dir_table P s)(d := None) = dir_table P s" using None find_dir_table [OF inv] by auto
    ultimately show ?thesis using inv by (simp add: hook_post_def)
  next
    case (Some p)
    then obtain e where e: "dir_heap s p = Some e" "dir_key e = d" by (rule find_dir_entry [OF inv])
    have e': "dir_heap (sqfs_lock s) p = Some e" using e lk by simp
    define u where "u = closedir_detached P p e (sqfs_lock s)"
    obtain m where eq: "closedir_section P d s = sqfs_unlock (log_hook P (Some ''sqfs_closedir'') m u)"
      using Some e lk unfolding u_def by (auto simp: closedir_section_def closedir_detached_def Let_def)
    note dp = closedir_detached_post [OF ok mgr_ok_locked [OF lk inv] e', folded u_def]
    have st: "steady H u (log_hook P (Some ''sqfs_closedir'') m u)"
      by (rule steady_log_hook [OF platform_okD(2) [OF ok]])
    have "hook_post P H s (closedir_section P d s)"
      unfolding eq using hook_post_unlock [OF lk hook_post_steady [OF dp(1) st]] .
    moreover have "dir_table P (closedir_section P d s) = (dir_table P s)(d := None)"
      "fd_table P (closedir_section P d s) = fd_table P s"
      unfolding eq using dp(2,3) steady_tables [OF st, of P] e(2) lk
      by (simp_all add: table_defs sqfs_unlock_def)
    moreover have "H (os s) \<subseteq> H (os u)"
      using destroy_reader_keeps [OF platform_okD(3) [OF ok], of "(sqfs_lock s)\<lparr>dir_map := HASH_DEL (ut P) (dir_key e) p (dir_map (sqfs_lock s))\<rparr>"] lk
      by (simp add: u_def closedir_detached_def Let_def)
    then have "H (os s) \<subseteq> H (os (closedir_section P d s))"
      unfolding eq using steadyD(16) [OF st] by auto
    ultimately show ?thesis by simp
  qed
  then show "hook_post P H s (closedir_section P d s)"
    "dir_table P (closedir_section P d s) = (dir_table P s)(d := None)"
    "fd_table P (closedir_section P d s) = fd_table P s" "H (os s) \<subseteq> H (os (closedir_section P d s))" by simp_all
qed

lemma close_sections_spare:
  assumes "platform_ok P H budget left" and "mgr_ok P H s" and "can_lock s"
  shows "spares_all_but P H {Descriptor fd} s (close_section P fd s)"
    "spares_all_but P H {Stream d} s (closedir_section P d s)"
  using close_section_effect [OF assms, of fd] closedir_section_effect [OF assms, of d]
  by (auto simp: spares_all_but_def record_kept_def split: handle.splits if_splits)

lemma opendir_real_ok:
  assumes ok: "platform_ok P H budget left" and inv: "mgr_ok P H s"
    and c: "sys_call (libc_opendir (libc P) path) s = (Some d, t)"
  shows "spares_all_but P H {} s t" "Stream d \<in> H (os t)" "unrecorded P t (Stream d)"
proof -
  note K = platform_okD(2) [OF ok]
  have st: "steady H s t" using kernel_keeps(15) [OF K] c by (rule steady_call')
  have new: "Stream d \<notin> H (os s)" "Stream d \<in> H (os t)"
    using opens_fresh [OF kernel_okD(5) [OF K], of path s] c by simp_all
  have "dir_table P s d = None" using mgr_okD(4) [OF inv, of d] new(1) by blast
  then show "unrecorded P t (Stream d)" using steady_tables [OF st, of P] by (simp add: unrecorded_def)
  show "spares_all_but P H {} s t" "Stream d \<in> H (os t)" using spares_steady [OF st inv] new(2) by simp_all
qed

text \<open>
  The locked section of \<open>opendir\<close> names its own stream or a fresh one, and closes at most those.
\<close>

lemma opendir_locked_spares:
  assumes ok: "platform_ok P H budget left" and th: "threads_ok P H s D" and D: "Stream ` set_option real \<subseteq> D"
  shows "spares_all_but P H (Stream ` set_option real) s (snd (opendir_locked P real relative (sqfs_lock s)))"
proof -
  define A where "A = H (os s) - Stream ` set_option real"
  let ?r = "opendir_locked P real relative (sqfs_lock s)"
  have unused: "dir_table P s d = None" if "real = Some d" for d
    using threads_okD(6) [OF th, of "Stream d"] D that by (simp add: unrecorded_def)
  then have "brings P H A real s" using D threads_okD(5) [OF th] by (auto simp: brings_def A_def)
  note step = opendir_locked_step [OF ok threads_okD(4,1) [OF th] this, of relative]
  show ?thesis
    using step unfolding opendir_step_def
  proof (elim disjE)
    assume "(fst ?r = None \<and> closed_last P real (snd ?r) \<or>
        (\<exists>d. fst ?r = Some d \<and> real = Some d \<and> Stream d \<in> H (os (snd ?r)) \<and> unlisted P relative s)) \<and> keeps_open H A s (snd ?r)"
    then have k: "core_eq s (snd ?r)" "trapped (snd ?r) = trapped s" "A \<subseteq> H (os (snd ?r))"
      by (simp_all add: keeps_open_def)
    have "mgr_ok P H (snd ?r)"
    proof (cases real)
      case None
      then have "steady H s (snd ?r)" using k by (simp add: A_def steady_def calm_def)
      then show ?thesis using threads_okD(1) [OF th] by (rule steady_mgr_ok)
    next
      case (Some d)
      then show ?thesis
        using mgr_ok_close [OF threads_okD(1) [OF th] k(1), of "Stream d"] k(3) unused by (simp add: A_def)
    qed
    then show ?thesis
      using k by (auto simp: spares_all_but_def hook_post_def core_eq_def record_kept_def table_defs A_def
          split: handle.split)
  next
    assume "\<exists>d e. fst ?r = Some d \<and> (real = None \<and> Stream d \<notin> H (os s) \<or> real = Some d) \<and> hook_post P H s (snd ?r) \<and>
        H (os s) \<subseteq> H (os (snd ?r)) \<and>
        dir_table P s d = None \<and> dir_table P (snd ?r) = (dir_table P s)(d \<mapsto> e) \<and>
        fd_table P (snd ?r) = fd_table P s \<and> dir_key e = d \<and> is_real_dir e = (real \<noteq> None) \<and>
        remaining e = dir_entry_list e \<and> listed P relative e \<and>
        live_inodes (snd ?r) = live_inodes s + int (length (dir_entry_list e)) \<and>
        live_readers (snd ?r) = live_readers s + 1"
    then show ?thesis by (auto simp: spares_all_but_def record_kept_def split: handle.splits)
  qed
qed

lemma real_call_spares:
  assumes inv: "mgr_ok P H s" and rec: "unrecorded P s h" and cl: "closes H h f"
  shows "spares_all_but P H {h} s (snd (sys_call f s))"
proof -
  let ?t = "snd (sys_call f s)"
  have sub: "H (os s) - {h} \<subseteq> H (os ?t)" using closes_call(1) [OF cl] .
  have "mgr_ok P H ?t"
    using mgr_ok_close [OF inv sys_call.core sub] rec by (cases h) (auto simp: unrecorded_def)
  then show ?thesis
    using sub sys_call.core [of s f]
    by (auto simp: spares_all_but_def hook_post_def core_eq_def record_kept_def table_defs split: handle.split)
qed

subsection \<open>Every step\<close>

lemma thread_step_spares:
  assumes ok: "platform_ok P H budget left" and th: "threads_ok P H s D" and step: "thread_step P H X s D t D'"
  shows "spares_all_but P H X s t"
proof -
  note inv = threads_okD(1) [OF th] and lk = threads_okD(4) [OF th] and K = platform_okD(2) [OF ok]
  from step show ?thesis
  proof cases
    case (real_close fd close)
    have "closes H (Descriptor fd) (close fd)" using real_close(5) kernel_okD(6,7) [OF K, of close fd] by auto
    with real_close threads_okD(6) [OF th] show ?thesis using real_call_spares [OF inv] by blast
  next
    case (real_closedir d)
    then show ?thesis using real_call_spares [OF inv threads_okD(6) [OF th] kernel_okD(8) [OF K]] by blast
  next
    case (opendir_locked real relative)
    then show ?thesis using opendir_locked_spares [OF ok th] by blast
  qed (use ok inv lk in \<open>auto intro: whole_spares open_in_image_spares close_sections_spare opendir_real_ok(1)
      spares_steady stat_section_steady steady_log_hook [OF K] steady_outside\<close>)
qed

lemma thread_step_ok:
  assumes ok: "platform_ok P H budget left" and th: "threads_ok P H s D" and step: "thread_step P H X s D t D'"
  shows "threads_ok P H t D'"
proof -
  note inv = threads_okD(1) [OF th] and lk = threads_okD(4) [OF th]
  note next_ok = threads_ok_spares [OF th thread_step_spares [OF assms]]
  from step show ?thesis
  proof cases
    case (whole c)
    have "hook_post P H s t" "leaves P H s t"
      using perform.contract [OF ok inv lk, of c] perform_leaves [OF ok inv lk] whole by simp_all
    with th whole sound_kept [of P s t] show ?thesis by (auto simp: threads_ok_def hook_post_def leaves_def)
  next
    case (opendir_real path d)
    then show ?thesis using next_ok [of D] opendir_real_ok [OF ok inv] by (auto intro!: threads_ok_insert)
  next
    case (close_locked fd)
    then show ?thesis
      using next_ok [of D] close_section_effect [OF ok inv lk, of fd]
      by (auto intro!: threads_ok_insert simp: unrecorded_def)
  next
    case (closedir_locked d)
    then show ?thesis
      using next_ok [of D] closedir_section_effect [OF ok inv lk, of d]
      by (auto intro!: threads_ok_insert simp: unrecorded_def)
  qed (use next_ok in auto)
qed

lemma interleaved_ok:
  assumes ok: "platform_ok P H budget left" and L: "loader_keeps L H" and "interleaved P L H w s D"
  shows "threads_ok P H s D"
  using assms(3)
proof induction
  case begun
  then show ?case using started_ok(1-3) [OF ok L] by (simp add: threads_ok_def sound_def)
next
  case (stepped s D X e t D')
  have "threads_ok P H (s\<lparr>errno := e\<rparr>) D" using stepped.IH by simp
  then show ?case using stepped.hyps(2) by (rule thread_step_ok [OF ok])
qed

section \<open>Properties\<close>

text \<open>
  C3. Any interleaving of the threads is safe: at every moment between two sections the tables are
  consistent, every record names an open handle, the lock is free and nothing has hung or
  faulted, except for a listing that met a name of 256 characters or more; and a handle whose record was removed but whose real \<open>close\<close> or \<open>closedir\<close> is still to
  come is open and named by no record, so no other thread can be given its number meanwhile. The
  same holds of the real stream of an \<open>opendir\<close> that has not yet entered its locked section.
\<close>

theorem threads_safe:
  assumes "platform_ok P H budget left" and "loader_keeps L H" and "interleaved P L H w s D"
  shows "mgr_ok P H s \<and> mutex_depth s = 0 \<and>
    (trapped s = Running \<or> trapped s = Faulted \<and> long_names (lib P)) \<and> D \<subseteq> H (os s) \<and>
    (\<forall>fd. Descriptor fd \<in> D \<longrightarrow> fd_table P s fd = None) \<and> (\<forall>d. Stream d \<in> D \<longrightarrow> dir_table P s d = None)"
  using interleaved_ok [OF assms] by (fastforce simp: threads_ok_def sound_def unrecorded_def)

text \<open>
  Three threads of the sample: one has opened a directory, one opens a file of the image, and one
  is closing a descriptor that was opened past the hooks.
\<close>

definition sample_threads :: "(machine, (int \<times> ptr) list) proc" where
  "sample_threads = snd (open_in_image sample_env ''a'' 0
     (perform sample_env (Opendir (Some ''/hook'')) (started sample_env sample_loader sample_machine)))"

definition sample_closing :: "(machine, (int \<times> ptr) list) proc" where
  "sample_closing = close_section sample_env 9
     (sample_threads\<lparr>os := (os sample_threads)\<lparr>m_next := 10 + m_next (os sample_threads),
        m_handles := Descriptor 9 # m_handles (os sample_threads)\<rparr>, errno := 0\<rparr>)"

lemma sample_interleaved:
  "interleaved sample_env sample_loader m_open sample_machine sample_closing {Descriptor 9}"
proof -
  have "interleaved sample_env sample_loader m_open sample_machine sample_threads {}"
    unfolding sample_threads_def
    by (rule interleaved_next [OF interleaved_next [OF interleaved.begun thread_step.whole] thread_step.open_locked]) simp
  then show ?thesis
    unfolding sample_closing_def
    by (intro interleaved_next [OF interleaved_next [OF _ thread_step.elsewhere] thread_step.close_locked])
      (auto simp: m_open_def split: handle.splits)
qed

theorem threads_safe_witness:
  "mgr_ok sample_env m_open sample_closing \<and> mutex_depth sample_closing = 0 \<and> trapped sample_closing = Running \<and>
    Descriptor 9 \<in> m_open (os sample_closing) \<and> fd_table sample_env sample_closing 9 = None"
  using threads_safe [OF sample_platform_ok sample_loader_keeps sample_interleaved] sample_short_names by simp

end
