(* ===== verification/Rely.thy ===== *)
theory Rely
  imports Threads
begin

text \<open>
  What one thread in the hooks can rely on while the others run: the steps of \<open>Threads\<close> that are
  about none of its handles leave it undisturbed. A schedule of such steps is what fills the gaps of
  the hooks of \<open>src/sqfs_mgr.c\<close> that call the real function outside the lock.
\<close>

section \<open>What a thread can rely on\<close>

text \<open>
  The steps of other threads, each with its own \<open>errno\<close>, that are about none of the handles \<open>F\<close> of
  this thread.
\<close>

inductive foreign :: "('w, 'h) env \<Rightarrow> ('w \<Rightarrow> handle set) \<Rightarrow> handle set \<Rightarrow>
    ('w, 'h) proc \<Rightarrow> handle set \<Rightarrow> ('w, 'h) proc \<Rightarrow> handle set \<Rightarrow> bool"
  for P H F s D where
  idle: "foreign P H F s D s D"
| acts: "foreign P H F s D t D' \<Longrightarrow> thread_step P H X (t\<lparr>errno := e\<rparr>) D' u D'' \<Longrightarrow> X \<inter> F = {} \<Longrightarrow>
    foreign P H F s D (u\<lparr>errno := errno t\<rparr>) D''"

text \<open>
  What such steps amount to for this thread: the invariant, a free lock, the image, its \<open>errno\<close>,
  and its handles with their records.
\<close>

definition undisturbed :: "('w, 'h) env \<Rightarrow> ('w \<Rightarrow> handle set) \<Rightarrow> handle set \<Rightarrow> ('w, 'h) proc \<Rightarrow> ('w, 'h) proc \<Rightarrow> bool" where
  "undisturbed P H F s t \<longleftrightarrow>
     hook_post P H s t \<and> errno t = errno s \<and> (\<forall>h \<in> F. h \<in> H (os t) \<and> record_kept P s t h)"

lemma record_kept_trans: "record_kept P s t h \<Longrightarrow> record_kept P t u h \<Longrightarrow> record_kept P s u h"
  by (simp add: record_kept_def split: handle.splits)

lemma record_kept_errno [simp]:
  "record_kept P (s\<lparr>errno := e\<rparr>) t h = record_kept P s t h" "record_kept P s (t\<lparr>errno := e\<rparr>) h = record_kept P s t h"
  by (simp_all add: record_kept_def table_defs split: handle.splits)

lemma foreign_undisturbed:
  assumes ok: "platform_ok P H budget left" and th: "threads_ok P H s D" and F: "F \<subseteq> H (os s)"
    and "foreign P H F s D t D'"
  shows "undisturbed P H F s t \<and> threads_ok P H t D'"
  using assms(4)
proof induction
  case idle
  then show ?case
    using th F by (auto simp: undisturbed_def hook_post_def threads_ok_def record_kept_def split: handle.split)
next
  case (acts t D' X e u D'')
  then have th': "threads_ok P H (t\<lparr>errno := e\<rparr>) D'" by simp
  have sp: "hook_post P H (t\<lparr>errno := e\<rparr>) u"
    "\<And>h. h \<in> H (os t) - X \<Longrightarrow> h \<in> H (os u) \<and> record_kept P t u h"
    using thread_step_spares [OF ok th' acts.hyps(2)] by (simp_all add: spares_all_but_def)
  have "h \<in> H (os u) \<and> record_kept P s u h" if "h \<in> F" for h
    using that acts.IH acts.hyps(3) sp(2) [of h] record_kept_trans [of P s t h u] by (auto simp: undisturbed_def)
  moreover have "hook_post P H s u" "errno t = errno s"
    using acts.IH sp(1) hook_post_trans [of P H s t u]
    by (auto simp: undisturbed_def hook_post_def trap_kept_def)
  ultimately show ?case
    using thread_step_ok [OF ok th' acts.hyps(2)] by (simp add: undisturbed_def)
qed

text \<open>
  The schedule of one thread: \<open>I F k s\<close> is the state after whatever the other threads do before its
  step number \<open>k\<close>, when \<open>F\<close> are the handles it has. The thread relies on being undisturbed.
\<close>

type_synonym ('w, 'h) schedule = "handle set \<Rightarrow> nat \<Rightarrow> ('w, 'h) proc \<Rightarrow> ('w, 'h) proc"

definition respectful :: "('w, 'h) env \<Rightarrow> ('w \<Rightarrow> handle set) \<Rightarrow> ('w, 'h) schedule \<Rightarrow> bool" where
  "respectful P H I \<longleftrightarrow>
     (\<forall>F k s. mgr_ok P H s \<longrightarrow> mutex_depth s = 0 \<longrightarrow> trapped s = Running \<longrightarrow> F \<subseteq> H (os s) \<longrightarrow>
        undisturbed P H F s (I F k s))"

lemma respectfulD:
  assumes "respectful P H I" and "mgr_ok P H s" and "mutex_depth s = 0" and "trapped s = Running" and "F \<subseteq> H (os s)"
  shows "undisturbed P H F s (I F k s)"
  using assms by (simp add: respectful_def)

text \<open>A schedule that is made of steps of other threads is one to rely on.\<close>

lemma foreign_respectful:
  assumes "platform_ok P H budget left"
    and "\<And>F k s. mgr_ok P H s \<Longrightarrow> mutex_depth s = 0 \<Longrightarrow> trapped s = Running \<Longrightarrow> F \<subseteq> H (os s) \<Longrightarrow>
      \<exists>D D'. threads_ok P H s D \<and> foreign P H F s D (I F k s) D'"
  shows "respectful P H I"
  unfolding respectful_def using assms(2) foreign_undisturbed [OF assms(1)] by meson

section \<open>Properties\<close>

text \<open>
  C11. While other threads run, in any number of their sections and real calls that are about none of
  the handles of this thread, nothing of it changes: \<open>errno\<close> is its own, the lock is free again, its
  handles stay open, and the record of each of its descriptors and streams (inode, offset, cursor) is
  what it was. Nothing has hung or faulted, except for a listing that met a name of 256 characters or
  more.
\<close>

theorem others_leave_undisturbed:
  assumes "platform_ok P H budget left" and "threads_ok P H s D" and "F \<subseteq> H (os s)" and "foreign P H F s D t D'"
  shows "errno t = errno s \<and> mutex_depth t = 0 \<and>
    (trapped t = Running \<or> trapped t = Faulted \<and> long_names (lib P)) \<and> F \<subseteq> H (os t) \<and>
    (\<forall>fd. Descriptor fd \<in> F \<longrightarrow> fd_table P t fd = fd_table P s fd) \<and>
    (\<forall>d. Stream d \<in> F \<longrightarrow> dir_table P t d = dir_table P s d)"
  using foreign_undisturbed [OF assms]
  by (fastforce simp: undisturbed_def record_kept_def threads_ok_def sound_def)

text \<open>Another thread of the sample opens a file and asks for its status, with an \<open>errno\<close> of its own.\<close>

definition sample_others :: "(machine, (int \<times> ptr) list) proc" where
  "sample_others =
     (let t = (snd (open_in_image sample_env ''a'' 0 (sample_opened\<lparr>errno := 5\<rparr>)))\<lparr>errno := errno sample_opened\<rparr>
      in (snd (stat_section sample_env ''d/a'' (t\<lparr>errno := 5\<rparr>)))\<lparr>errno := errno t\<rparr>)"

theorem others_leave_undisturbed_witness:
  "errno sample_others = errno sample_opened \<and> mutex_depth sample_others = 0 \<and> trapped sample_others = Running \<and>
    Descriptor 3 \<in> m_open (os sample_others) \<and> fd_table sample_env sample_others 3 = Some sample_entry"
proof -
  have th: "threads_ok sample_env m_open sample_opened {}"
    using sample_opened_ok(1) by (simp add: threads_ok_def sound_def sample_opened_def sample_loaded_def sample_proc_def fresh_proc_def)
  have "foreign sample_env m_open {Descriptor 3} sample_opened {} sample_others {}"
    unfolding sample_others_def Let_def
    by (rule foreign.acts [OF foreign.acts [OF foreign.idle thread_step.open_locked] thread_step.stat_locked]) simp_all
  from others_leave_undisturbed [OF sample_platform_ok th _ this] show ?thesis
    using mgr_okD(3) [OF sample_opened_ok(1), of 3] sample_opened_ok(3) sample_short_names by simp
qed

end
