(* ===== verification/Client.thy ===== *)
theory Client
  imports Rely
begin

text \<open>
  The test program \<open>src/test_concurrent.c\<close> as a client of the hooks: what its worker threads do with
  a file of the image, through the hooked functions, while other threads run. A state of a
  thread is the number of its steps so far and the state of the process; the schedule \<open>I\<close> says what
  the other threads do before each step. The messages of the program are left out: \<open>stderr\<close> is
  written with functions that are not hooked.
\<close>

section \<open>Definitions\<close>

type_synonym ('w, 'h) thread = "nat \<times> ('w, 'h) proc"

definition thread_errno :: "('w, 'h) thread \<Rightarrow> int" where
  "thread_errno th = errno (snd th)"

definition set_errno :: "int \<Rightarrow> ('w, 'h) thread \<Rightarrow> ('w, 'h) thread" where
  "set_errno e th = (fst th, (snd th)\<lparr>errno := e\<rparr>)"

subsection \<open>The hooked calls of a thread\<close>

definition client_open ::
    "('w, 'h) env \<Rightarrow> ('w, 'h) schedule \<Rightarrow> string \<Rightarrow> ('w, 'h) thread \<Rightarrow> int \<times> ('w, 'h) thread" where
  "client_open P I path th =
     (case th of (k, s) \<Rightarrow>
        (case open_amid P (I {} (k + 1)) (Some path) O_CLOEXEC 0 (I {} k s) of (fd, t) \<Rightarrow> (fd, (k + 2, t))))"

definition client_read ::
    "('w, 'h) env \<Rightarrow> ('w, 'h) schedule \<Rightarrow> int \<Rightarrow> nat \<Rightarrow> ('w, 'h) thread \<Rightarrow> (int \<times> byte list) \<times> ('w, 'h) thread" where
  "client_read P I fd count th =
     (case th of (k, s) \<Rightarrow>
        (case sqfs_read P fd count (I {Descriptor fd} k s) of (res, t) \<Rightarrow> (res, (k + 1, t))))"

definition client_lseek ::
    "('w, 'h) env \<Rightarrow> ('w, 'h) schedule \<Rightarrow> int \<Rightarrow> int \<Rightarrow> int \<Rightarrow> ('w, 'h) thread \<Rightarrow> int \<times> ('w, 'h) thread" where
  "client_lseek P I fd offset whence th =
     (case th of (k, s) \<Rightarrow>
        (case sqfs_lseek P fd offset whence (I {Descriptor fd} k s) of (res, t) \<Rightarrow> (res, (k + 1, t))))"

definition client_close ::
    "('w, 'h) env \<Rightarrow> ('w, 'h) schedule \<Rightarrow> int \<Rightarrow> ('w, 'h) thread \<Rightarrow> int \<times> ('w, 'h) thread" where
  "client_close P I fd th =
     (case th of (k, s) \<Rightarrow>
        (case sqfs_close_impl P (I {Descriptor fd} (k + 1)) ''sqfs_close'' fd (libc_close (libc P))
                (I {Descriptor fd} k s) of
           (ret, t) \<Rightarrow> (ret, (k + 2, t))))"

definition client_xstat ::
    "('w, 'h) env \<Rightarrow> ('w, 'h) schedule \<Rightarrow> string \<Rightarrow> ('w, 'h) thread \<Rightarrow> (int \<times> stat option) \<times> ('w, 'h) thread" where
  "client_xstat P I path th =
     (case th of (k, s) \<Rightarrow>
        (case xstat_amid P (I {} (k + 1)) 3 (Some path) True (I {} k s) of (res, t) \<Rightarrow> (res, (k + 2, t))))"

definition client_access ::
    "('w, 'h) env \<Rightarrow> ('w, 'h) schedule \<Rightarrow> string \<Rightarrow> u32 \<Rightarrow> ('w, 'h) thread \<Rightarrow> int \<times> ('w, 'h) thread" where
  "client_access P I path mode th =
     (case th of (k, s) \<Rightarrow>
        (case access_amid P (I {} (k + 1)) (Some path) mode (I {} k s) of (res, t) \<Rightarrow> (res, (k + 2, t))))"

text \<open>The pattern that closes a descriptor on the way out of an error and keeps \<open>errno\<close>.\<close>

definition close_keeping_errno ::
    "('w, 'h) env \<Rightarrow> ('w, 'h) schedule \<Rightarrow> int \<Rightarrow> ('w, 'h) thread \<Rightarrow> ('w, 'h) thread" where
  "close_keeping_errno P I fd th =
     (let saved_errno = thread_errno th in set_errno saved_errno (snd (client_close P I fd th)))"

subsection \<open>The functions of the program\<close>

definition FNV_OFFSET :: u64 where "FNV_OFFSET = 1469598103934665603"

definition FNV_PRIME :: u64 where "FNV_PRIME = 1099511628211"

record TestConfig =
  cfg_path :: string
  cfg_size :: int
  cfg_prefix_size :: nat
  cfg_prefix_hash :: u64
  cfg_sample_hash :: u64
  cfg_iterations :: nat

fun hash_update :: "u64 \<Rightarrow> byte list \<Rightarrow> u64" where
  "hash_update hash [] = hash"
| "hash_update hash (p # ps) = hash_update ((hash XOR ucast p) * FNV_PRIME) ps"

definition min_size :: "nat \<Rightarrow> nat \<Rightarrow> nat" where
  "min_size a b = (if a < b then a else b)"

definition sample_offset :: "int \<Rightarrow> nat \<Rightarrow> int" where
  "sample_offset sz index =
     (if sz \<le> 0 then 0
      else let mixed = ucast (word_of_nat index :: u32) * 1103515245 + 12345 :: u64
           in sint (mixed mod word_of_int sz))"

definition call_pread_variant :: "('w, 'h) env \<Rightarrow> ('w, 'h) schedule \<Rightarrow> int \<Rightarrow> nat \<Rightarrow> int \<Rightarrow> bool \<Rightarrow>
    ('w, 'h) thread \<Rightarrow> (int \<times> byte list) \<times> ('w, 'h) thread" where
  "call_pread_variant P I fd count offset use_pread64 th =
     (case th of (k, s) \<Rightarrow>
        (case (if use_pread64 then sqfs_pread64 P fd count offset (I {Descriptor fd} k s)
               else sqfs_pread P fd count (long_cast (cfg P) offset) (I {Descriptor fd} k s)) of
           (res, t) \<Rightarrow> (res, (k + 1, t))))"

text \<open>\<^term>\<open>None\<close> is the result -1.\<close>

definition get_path_size ::
    "('w, 'h) env \<Rightarrow> ('w, 'h) schedule \<Rightarrow> string \<Rightarrow> ('w, 'h) thread \<Rightarrow> int option \<times> ('w, 'h) thread" where
  "get_path_size P I path th =
     (case client_open P I path th of
        (fd, th1) \<Rightarrow>
          if fd < 0 then (None, th1)
          else
            (case client_lseek P I fd 0 SEEK_END th1 of
               (sz, th2) \<Rightarrow>
                 let saved_errno = thread_errno th2
                 in (case client_close P I fd th2 of
                       (ret, th3) \<Rightarrow>
                         if ret \<noteq> 0 \<and> sz \<ge> 0 then (None, th3)
                         else if sz < 0 then (None, set_errno saved_errno th3)
                         else (Some sz, th3))))"

text \<open>The loop of \<open>hash_prefix_with_read\<close>: \<^term>\<open>None\<close> when a read fails.\<close>

function read_prefix :: "('w, 'h) env \<Rightarrow> ('w, 'h) schedule \<Rightarrow> int \<Rightarrow> nat \<Rightarrow> nat \<Rightarrow> u64 \<Rightarrow>
    ('w, 'h) thread \<Rightarrow> (nat \<times> u64) option \<times> ('w, 'h) thread" where
  "read_prefix P I fd prefix_size so_far hash th =
     (if so_far < prefix_size then
        (case client_read P I fd (min_size 8192 (prefix_size - so_far)) th of
           ((got, buf), th1) \<Rightarrow>
             if got < 0 then (None, th1)
             else if got = 0 then (Some (so_far, hash), th1)
             else read_prefix P I fd prefix_size (so_far + nat got) (hash_update hash (take (nat got) buf)) th1)
      else (Some (so_far, hash), th))"
  by pat_completeness auto
termination
  by (relation "measure (\<lambda>(P, I, fd, prefix_size, so_far, hash, th). prefix_size - so_far)") auto

definition hash_prefix_with_read ::
    "('w, 'h) env \<Rightarrow> ('w, 'h) schedule \<Rightarrow> string \<Rightarrow> nat \<Rightarrow> ('w, 'h) thread \<Rightarrow> u64 option \<times> ('w, 'h) thread" where
  "hash_prefix_with_read P I path prefix_size th =
     (case client_open P I path th of
        (fd, th1) \<Rightarrow>
          if fd < 0 then (None, th1)
          else
            (case read_prefix P I fd prefix_size 0 FNV_OFFSET th1 of
               (None, th2) \<Rightarrow> (None, close_keeping_errno P I fd th2)
             | (Some (so_far, hash), th2) \<Rightarrow>
                 (case client_close P I fd th2 of
                    (ret, th3) \<Rightarrow>
                      if ret \<noteq> 0 then (None, th3)
                      else if so_far \<noteq> prefix_size then (None, set_errno EIO th3)
                      else (Some hash, th3))))"

text \<open>
  The inner loop of \<open>hash_samples_with_pread\<close>, with what is in the buffer so far. It leaves the
  function when a call fails, with the \<open>errno\<close> of the call, and at the end of the file, with \<open>EIO\<close>.
\<close>

datatype sample_fault = Read_failed | File_ended

function read_sample :: "('w, 'h) env \<Rightarrow> ('w, 'h) schedule \<Rightarrow> int \<Rightarrow> bool \<Rightarrow> int \<Rightarrow> nat \<Rightarrow> byte list \<Rightarrow> nat \<Rightarrow>
    ('w, 'h) thread \<Rightarrow> (sample_fault + byte list) \<times> ('w, 'h) thread" where
  "read_sample P I fd use_pread64 offset want buf filled th =
     (if filled < want then
        (case call_pread_variant P I fd (want - filled) (offset + int filled) use_pread64 th of
           ((got, bytes), th1) \<Rightarrow>
             if got < 0 then (Inl Read_failed, th1)
             else if got = 0 then (Inl File_ended, th1)
             else read_sample P I fd use_pread64 offset want (buf @ take (nat got) bytes) (filled + nat got) th1)
      else (Inr buf, th))"
  by pat_completeness auto
termination
  by (relation "measure (\<lambda>(P, I, fd, u, offset, want, buf, filled, th). want - filled)") auto

text \<open>The outer loop, with the number of samples left.\<close>

fun read_samples :: "('w, 'h) env \<Rightarrow> ('w, 'h) schedule \<Rightarrow> int \<Rightarrow> bool \<Rightarrow> int \<Rightarrow> nat \<Rightarrow> nat \<Rightarrow> u64 \<Rightarrow>
    ('w, 'h) thread \<Rightarrow> (sample_fault + u64) \<times> ('w, 'h) thread" where
  "read_samples P I fd use_pread64 sz 0 i hash th = (Inr hash, th)"
| "read_samples P I fd use_pread64 sz (Suc n) i hash th =
     (let offset = sample_offset sz i
      in if sz \<le> 0 then (Inr hash, th)
         else
           (case read_sample P I fd use_pread64 offset (min_size 4096 (nat (sz - offset))) [] 0 th of
              (Inl e, th1) \<Rightarrow> (Inl e, th1)
            | (Inr buf, th1) \<Rightarrow>
                read_samples P I fd use_pread64 sz n (i + 1) (hash_update hash buf) th1))"

definition hash_samples_with_pread :: "('w, 'h) env \<Rightarrow> ('w, 'h) schedule \<Rightarrow> string \<Rightarrow> int \<Rightarrow> bool \<Rightarrow>
    ('w, 'h) thread \<Rightarrow> u64 option \<times> ('w, 'h) thread" where
  "hash_samples_with_pread P I path sz use_pread64 th =
     (case client_open P I path th of
        (fd, th1) \<Rightarrow>
          if fd < 0 then (None, th1)
          else
            (case read_samples P I fd use_pread64 sz 128 0 FNV_OFFSET th1 of
               (Inl Read_failed, th2) \<Rightarrow> (None, close_keeping_errno P I fd th2)
             | (Inl File_ended, th2) \<Rightarrow> (None, set_errno EIO (snd (client_close P I fd th2)))
             | (Inr hash, th2) \<Rightarrow>
                 (case client_close P I fd th2 of
                    (ret, th3) \<Rightarrow> if ret \<noteq> 0 then (None, th3) else (Some hash, th3))))"

definition probe_lseek ::
    "('w, 'h) env \<Rightarrow> ('w, 'h) schedule \<Rightarrow> TestConfig \<Rightarrow> ('w, 'h) thread \<Rightarrow> int \<times> ('w, 'h) thread" where
  "probe_lseek P I c th =
     (if cfg_size c \<le> 0 then (0, th)
      else
        let offset = cfg_size c div 2;
            want = min_size 256 (nat (cfg_size c - offset))
        in (case client_open P I (cfg_path c) th of
              (fd, th1) \<Rightarrow>
                if fd < 0 then (-1, th1)
                else
                  (case client_lseek P I fd offset SEEK_SET th1 of
                     (pos, th2) \<Rightarrow>
                       if pos \<noteq> offset then (-1, close_keeping_errno P I fd th2)
                       else
                         (case client_read P I fd want th2 of
                            ((got_read, via_read), th3) \<Rightarrow>
                              if got_read < 0 then (-1, close_keeping_errno P I fd th3)
                              else
                                (case call_pread_variant P I fd want offset True th3 of
                                   ((got_pread, via_pread), th4) \<Rightarrow>
                                     if got_pread < 0 then (-1, close_keeping_errno P I fd th4)
                                     else
                                       (case client_close P I fd th4 of
                                          (ret, th5) \<Rightarrow>
                                            if ret \<noteq> 0 then (-1, th5)
                                            else if got_read \<noteq> got_pread \<or>
                                              take (nat got_read) via_read \<noteq> take (nat got_read) via_pread
                                            then (-1, set_errno EIO th5)
                                            else (0, th5)))))))"

definition probe_xstat_access ::
    "('w, 'h) env \<Rightarrow> ('w, 'h) schedule \<Rightarrow> TestConfig \<Rightarrow> ('w, 'h) thread \<Rightarrow> int \<times> ('w, 'h) thread" where
  "probe_xstat_access P I c th =
     (case client_xstat P I (cfg_path c) th of
        ((ret, st), th1) \<Rightarrow>
          if ret \<noteq> 0 then (-1, th1)
          else if map_option st_size st \<noteq> Some (cfg_size c) then (-1, set_errno EIO th1)
          else
            (case client_access P I (cfg_path c) R_OK th1 of
               (ret2, th2) \<Rightarrow> if ret2 \<noteq> 0 then (-1, th2) else (0, th2)))"

text \<open>One round of the loop of \<open>worker_main\<close>: the number of errors it counts.\<close>

definition worker_round ::
    "('w, 'h) env \<Rightarrow> ('w, 'h) schedule \<Rightarrow> TestConfig \<Rightarrow> nat \<Rightarrow> ('w, 'h) thread \<Rightarrow> nat \<times> ('w, 'h) thread" where
  "worker_round P I c i th =
     (case hash_prefix_with_read P I (cfg_path c) (cfg_prefix_size c) th of
        (hash1, th1) \<Rightarrow>
          (case hash_samples_with_pread P I (cfg_path c) (cfg_size c) (i mod 2 \<noteq> 0) th1 of
             (hash2, th2) \<Rightarrow>
               (case probe_lseek P I c th2 of
                  (r3, th3) \<Rightarrow>
                    (case probe_xstat_access P I c th3 of
                       (r4, th4) \<Rightarrow>
                         ((if hash1 = Some (cfg_prefix_hash c) then 0 else 1) +
                          (if hash2 = Some (cfg_sample_hash c) then 0 else 1) +
                          (if r3 \<noteq> 0 then 1 else 0) + (if r4 \<noteq> 0 then 1 else 0), th4)))))"

fun worker_rounds :: "('w, 'h) env \<Rightarrow> ('w, 'h) schedule \<Rightarrow> TestConfig \<Rightarrow> nat \<Rightarrow> nat \<Rightarrow> nat \<Rightarrow>
    ('w, 'h) thread \<Rightarrow> nat \<times> ('w, 'h) thread" where
  "worker_rounds P I c 0 i errors th = (errors, th)"
| "worker_rounds P I c (Suc n) i errors th =
     (case worker_round P I c i th of (e, th1) \<Rightarrow> worker_rounds P I c n (i + 1) (errors + e) th1)"

definition worker_main ::
    "('w, 'h) env \<Rightarrow> ('w, 'h) schedule \<Rightarrow> TestConfig \<Rightarrow> ('w, 'h) thread \<Rightarrow> nat \<times> ('w, 'h) thread" where
  "worker_main P I c th = worker_rounds P I c (cfg_iterations c) 0 0 th"

text \<open>The part of \<open>main\<close> that measures the file before the threads start: \<^term>\<open>None\<close> if it gives up.\<close>

definition baseline ::
    "('w, 'h) env \<Rightarrow> ('w, 'h) schedule \<Rightarrow> string \<Rightarrow> nat \<Rightarrow> ('w, 'h) thread \<Rightarrow> TestConfig option \<times> ('w, 'h) thread" where
  "baseline P I path n th =
     (case get_path_size P I path th of
        (None, th1) \<Rightarrow> (None, th1)
      | (Some sz, th1) \<Rightarrow>
          let prefix_size = min_size (nat sz) (1024 * 1024)
          in (case hash_prefix_with_read P I path prefix_size th1 of
                (None, th2) \<Rightarrow> (None, th2)
              | (Some hash1, th2) \<Rightarrow>
                  (case hash_samples_with_pread P I path sz True th2 of
                     (None, th3) \<Rightarrow> (None, th3)
                   | (Some hash2, th3) \<Rightarrow>
                       (Some \<lparr>cfg_path = path, cfg_size = sz, cfg_prefix_size = prefix_size,
                          cfg_prefix_hash = hash1, cfg_sample_hash = hash2, cfg_iterations = n\<rparr>, th3))))"

text \<open>
  The verdict of \<open>run_independent_workers\<close>, its threads running and joined: whether \<open>calloc\<close> had
  memory for both arrays, and for each thread that \<open>pthread_create\<close> started, the schedule it ran
  under and the state it started in. One error is counted when a thread could not be created.
\<close>

definition run_independent_workers ::
    "('w, 'h) env \<Rightarrow> TestConfig \<Rightarrow> bool \<Rightarrow> (('w, 'h) schedule \<times> ('w, 'h) thread) list \<Rightarrow> nat \<Rightarrow> int" where
  "run_independent_workers P c allocated workers threads =
     (if \<not> allocated then -1
      else
      let errors = (if length workers < threads then 1 else 0) +
        sum_list (map (\<lambda>(I, th). fst (worker_main P I c th)) workers)
      in if errors = 0 then 0 else -1)"

end
