(* ===== verification/Client_Spec.thy ===== *)
theory Client_Spec
  imports Client
begin

text \<open>
  What the test program observes of a file in the image, whatever the other threads do in the
  meantime: its functions end, succeed and compute their hashes from the content of the file.
\<close>

section \<open>The setting\<close>

text \<open>The process between two sections of its threads, with the image loaded.\<close>

definition at_rest :: "('w, 'h) env \<Rightarrow> ('w \<Rightarrow> handle set) \<Rightarrow> ('w, 'h) proc \<Rightarrow> bool" where
  "at_rest P H s \<longleftrightarrow> mgr_ok P H s \<and> mutex_depth s = 0 \<and> trapped s = Running \<and> sqfs_mgr_loaded_locked s"

definition relative_of :: "('w, 'h) env \<Rightarrow> string \<Rightarrow> string" where
  "relative_of P path = join_with (CHR ''/'') (relative_components (sqfs_mgr_get_prefix P) path)"

text \<open>
  A path that the real file system does not have and under which the image has a readable file
  with the given content, small enough for \<open>off_t\<close> of every build.
\<close>

definition image_file ::
    "('w, 'h) env \<Rightarrow> string \<Rightarrow> sqfs_inode \<Rightarrow> byte list \<Rightarrow> bool" where
  "image_file P path inode content \<longleftrightarrow>
     good_config P \<and> served P path \<and>
     (\<forall>w. fst (libc_open (libc P) (Some path) O_CLOEXEC None w) < 0) \<and>
     (\<forall>w. fst (fst (libc_xstat (libc P) 3 (Some path) True w)) \<noteq> 0) \<and>
     (\<forall>w. fst (libc_access (libc P) (Some path) R_OK w) \<noteq> 0) \<and>
     (\<forall>super c f w. fst (sqfs_dir_reader_create (lib P) super c f w) \<noteq> None) \<and>
     (\<forall>r w. fst ((if relative_of P path = [] then sqfs_dir_reader_get_root_inode (lib P) r
                 else sqfs_dir_reader_find_by_path (lib P) r (relative_of P path)) w) = (0, Some inode)) \<and>
     serves (lib P) inode content \<and> sqfs_inode_size (lib P) inode = word_of_nat (length content) \<and>
     length content < 2 ^ 31 \<and> base_mode inode AND 0x124 \<noteq> 0"

text \<open>Memory and descriptors are there when they are asked for, and closing an open descriptor succeeds.\<close>

definition plentiful :: "('w, 'h) env \<Rightarrow> ('w \<Rightarrow> handle set) \<Rightarrow> bool" where
  "plentiful P H \<longleftrightarrow>
     (\<forall>w. fst (libc_malloc_ok (libc P) w)) \<and>
     (\<forall>name flags w. 0 \<le> fst (sys_memfd_create (libc P) name flags w)) \<and>
     (\<forall>close fd w. libc_close (libc P) = Some close \<longrightarrow> Descriptor fd \<in> H w \<longrightarrow> fst (close fd w) = 0) \<and>
     (sizeof_long (cfg P) = 4 \<or> sizeof_long (cfg P) = 8)"

text \<open>
  Where the test is expected to pass. No name of the image has 256 characters or more: another thread
  that lists its directory would end the process.
\<close>

definition setting :: "('w, 'h) env \<Rightarrow> ('w \<Rightarrow> handle set) \<Rightarrow> ('w \<Rightarrow> nat) \<Rightarrow> (ptr \<Rightarrow> 'w \<Rightarrow> nat) \<Rightarrow>
    ('w, 'h) schedule \<Rightarrow> string \<Rightarrow> sqfs_inode \<Rightarrow> byte list \<Rightarrow> bool" where
  "setting P H budget left I path inode content \<longleftrightarrow>
     platform_ok P H budget left \<and> respectful P H I \<and> image_file P path inode content \<and> plentiful P H \<and>
     \<not> long_names (lib P)"

lemma settingD:
  assumes "setting P H budget left I path inode content"
  shows "platform_ok P H budget left" "respectful P H I" "image_file P path inode content" "plentiful P H"
    "\<not> long_names (lib P)"
  using assms by (simp_all add: setting_def)

lemma at_restD:
  assumes "at_rest P H s"
  shows "mgr_ok P H s" "mutex_depth s = 0" "trapped s = Running" "sqfs_mgr_loaded_locked s" "can_lock s"
  using assms by (simp_all add: at_rest_def can_lock_def)

lemma at_rest_post: "\<not> long_names (lib P) \<Longrightarrow> at_rest P H s \<Longrightarrow> hook_post P H s t \<Longrightarrow> at_rest P H t"
  by (simp add: at_rest_def hook_post_def sqfs_mgr_loaded_locked_def trap_kept_def)

lemma at_rest_steady: "at_rest P H s \<Longrightarrow> steady H s t \<Longrightarrow> at_rest P H t"
  using steady_hook_post [of H s t P] steadyD [of H s t]
  by (simp add: at_rest_def hook_post_def sqfs_mgr_loaded_locked_def)

text \<open>The record of a descriptor of the file, at an offset.\<close>

abbreviation record_at :: "int \<Rightarrow> sqfs_inode \<Rightarrow> nat \<Rightarrow> FDMapEntry" where
  "record_at fd inode off \<equiv> \<lparr>fd_key = fd, fd_inode = inode, fd_offset = word_of_nat off\<rparr>"

text \<open>What the schedule leaves a thread with a descriptor, and one without.\<close>

lemma scheduled:
  assumes st: "setting P H budget left I path inode content" and "at_rest P H s"
  shows "at_rest P H (I {} k s)"
    and "fd_table P s fd = Some e \<Longrightarrow>
      at_rest P H (I {Descriptor fd} k s) \<and> fd_table P (I {Descriptor fd} k s) fd = Some e"
    and "Descriptor fd \<in> H (os s) \<Longrightarrow> fd_table P s fd = None \<Longrightarrow>
      at_rest P H (I {Descriptor fd} k s) \<and> fd_table P (I {Descriptor fd} k s) fd = None \<and>
      Descriptor fd \<in> H (os (I {Descriptor fd} k s))"
proof -
  note u = respectfulD [OF settingD(2) [OF assms(1)] at_restD(1-3) [OF assms(2)]]
  have rest: "at_rest P H (I F k s)" if "F \<subseteq> H (os s)" for F
    using at_rest_post [OF settingD(5) [OF st] assms(2)] u [OF that] by (simp add: undisturbed_def)
  show "at_rest P H (I {} k s)" using rest by simp
  show "at_rest P H (I {Descriptor fd} k s) \<and> fd_table P (I {Descriptor fd} k s) fd = Some e"
    if "fd_table P s fd = Some e"
  proof -
    have "{Descriptor fd} \<subseteq> H (os s)" using mgr_okD(3) [OF at_restD(1) [OF assms(2)], of fd] that by simp
    then show ?thesis using rest u [of "{Descriptor fd}" k] that by (simp add: undisturbed_def record_kept_def)
  qed
  show "at_rest P H (I {Descriptor fd} k s) \<and> fd_table P (I {Descriptor fd} k s) fd = None \<and>
      Descriptor fd \<in> H (os (I {Descriptor fd} k s))"
    if "Descriptor fd \<in> H (os s)" "fd_table P s fd = None"
    using rest [of "{Descriptor fd}"] u [of "{Descriptor fd}" k] that by (simp add: undisturbed_def record_kept_def)
qed

section \<open>One call\<close>

lemma relative_served:
  "image_file P path inode content \<Longrightarrow> sqfs_check_path_then_convert P (Some path) True PATH_MAX = Inr (relative_of P path)"
  by (simp add: image_file_def check_path_served relative_of_def)

lemma lookup_finds:
  assumes "image_file P path inode content" and "sqfs_mgr_loaded_locked s"
  shows "\<exists>t. sqfs_find_inode P (Some (relative_of P path)) s = (Some inode, t)"
proof -
  let ?create = "sqfs_dir_reader_create (lib P) (mgr_super s) (the (mgr_compressor s)) (the (mgr_file s))"
  obtain r where "fst (?create (os s)) = Some r"
    using assms(1) unfolding image_file_def by (metis option.exhaust)
  then obtain s0 where "sys_call ?create s = (Some r, s0)" using sys_call_fst [of ?create s] by (metis prod.collapse)
  then obtain s1 where c: "create_dir_reader P s = (Some r, s1)" by (simp add: create_dir_reader_def)
  let ?f = "if relative_of P path = [] then sqfs_dir_reader_get_root_inode (lib P) r
    else sqfs_dir_reader_find_by_path (lib P) r (relative_of P path)"
  have "fst (sys_call ?f s1) = (0, Some inode)"
    using assms(1) unfolding sys_call_fst image_file_def by blast
  then obtain s2 where "sys_call ?f s1 = ((0, Some inode), s2)" by (metis prod.collapse)
  then show ?thesis using assms(2) c by (simp add: sqfs_find_inode_def Let_def)
qed

lemma open_in_image_finds:
  assumes st: "setting P H budget left I path inode content" and s: "at_rest P H s"
  shows "\<exists>fd t. open_in_image P (relative_of P path) flags s = (fd, t) \<and> 0 \<le> fd \<and> at_rest P H t \<and>
    fd_table P t fd = Some (record_at fd inode 0)"
proof -
  note ok = settingD(1) [OF st] and pl = settingD(4) [OF st, unfolded plentiful_def]
  have lk: "can_lock s" using at_restD(5) [OF s] .
  have "sqfs_mgr_loaded_locked (sqfs_lock s)" using at_restD(4) [OF s] lk by (simp add: sqfs_mgr_loaded_locked_def)
  from lookup_finds [OF settingD(3) [OF st] this]
  obtain s1 where s1: "sqfs_find_inode P (Some (relative_of P path)) (sqfs_lock s) = (Some inode, s1)" by blast
  obtain fd s2 where s2: "create_memfd P flags s1 = (fd, s2)" by (cases "create_memfd P flags s1")
  then have fd: "0 \<le> fd" using pl sys_call_fst unfolding create_memfd_def Let_def by (metis fst_conv)
  obtain p s3 where "malloc P s2 = (Some p, s3)"
    using pl sys_call_fst [of "libc_malloc_ok (libc P)" s2] by (auto simp: malloc_def split_beta)
  then have fst: "fst (open_in_image P (relative_of P path) flags s) = fd"
    using s1 s2 fd by (simp add: open_in_image_def create_backing_fd_def Let_def)
  have eff: "open_effect P H (relative_of P path) s (open_in_image P (relative_of P path) flags s)"
    by (rule open_in_image_effect [OF ok lk at_restD(1) [OF s]])
  then have "at_rest P H (snd (open_in_image P (relative_of P path) flags s))"
    using at_rest_post [OF settingD(5) [OF st] s] by (simp add: open_effect_def)
  moreover have "fd_table P (snd (open_in_image P (relative_of P path) flags s)) fd = Some (record_at fd inode 0)"
    using eff fst fd s1 by (auto simp: open_effect_def)
  ultimately show ?thesis using fst fd by (metis prod.collapse)
qed

lemma client_open_ok:
  assumes st: "setting P H budget left I path inode content" and s: "at_rest P H s"
  shows "\<exists>fd k' t. client_open P I path (k, s) = (fd, (k', t)) \<and> 0 \<le> fd \<and> at_rest P H t \<and>
    fd_table P t fd = Some (record_at fd inode 0)"
proof -
  note img = settingD(3) [OF st] and K = platform_okD(2) [OF settingD(1) [OF st]]
  have r: "at_rest P H (I {} k s)" using scheduled(1) [OF st s] .
  have mode: "\<not> open_flags_need_mode O_CLOEXEC" by (simp add: open_flags_need_mode_def)
  obtain e s1 where c: "sys_call (libc_open (libc P) (Some path) O_CLOEXEC None) (I {} k s) = (e, s1)"
    by (cases "sys_call (libc_open (libc P) (Some path) O_CLOEXEC None) (I {} k s)")
  then have "e < 0"
    using img sys_call_fst [of "libc_open (libc P) (Some path) O_CLOEXEC None" "I {} k s"] by (auto simp: image_file_def)
  moreover have "at_rest P H (I {} (k + 1) s1)"
    using scheduled(1) [OF st at_rest_steady [OF r steady_call' [OF kernel_keeps(1) [OF K] c]]] .
  from open_in_image_finds [OF st this, of O_CLOEXEC] obtain fd t
    where "open_in_image P (relative_of P path) O_CLOEXEC (I {} (k + 1) s1) = (fd, t)" "0 \<le> fd" "at_rest P H t"
      "fd_table P t fd = Some (record_at fd inode 0)" by blast
  ultimately show ?thesis
    using c mode relative_served [OF img] by (simp add: client_open_def open_amid_def Let_def)
qed

lemma read_section_ok:
  assumes st: "setting P H budget left I path inode content" and s: "at_rest P H s"
    and e: "fd_table P s fd = Some (record_at fd inode off)" and off: "off < 2 ^ 31" and c: "count < 2 ^ 31"
    and b: "b = take count (drop off content)"
  shows "\<exists>t. sqfs_read P fd count s = ((int (length b), b), t) \<and> at_rest P H t \<and>
    fd_table P t fd = Some (record_at fd inode (off + length b))"
proof -
  note ok = settingD(1) [OF st] and img = settingD(3) [OF st, unfolded image_file_def]
  have "unat (word_of_nat off :: u64) = off" using off by (simp add: unat_of_nat)
  with read_one [OF ok at_restD(1,5) [OF s] e, of content count b] img b c obtain t o'
    where t: "sqfs_read P fd count s = ((int (length b), b), t)"
      "fd_table P t fd = Some ((record_at fd inode off)\<lparr>fd_offset := o'\<rparr>)" "unat o' = off + length b"
    by auto
  have "at_rest P H t" using at_rest_post [OF settingD(5) [OF st] s] read.contract [OF ok at_restD(1,5) [OF s], of fd count] t(1) by simp
  moreover have "o' = word_of_nat (off + length b)" using t(3) [symmetric] by simp
  ultimately show ?thesis using t by simp
qed

lemma client_read_ok:
  assumes st: "setting P H budget left I path inode content" and s: "at_rest P H s"
    and e: "fd_table P s fd = Some (record_at fd inode off)" and off: "off < 2 ^ 31" and c: "count < 2 ^ 31"
    and b: "b = take count (drop off content)"
  shows "\<exists>k' t. client_read P I fd count (k, s) = ((int (length b), b), (k', t)) \<and> at_rest P H t \<and>
    fd_table P t fd = Some (record_at fd inode (off + length b))"
  using read_section_ok [OF st _ _ off c b, of "I {Descriptor fd} k s" fd] scheduled(2) [OF st s e, of k]
  by (auto simp: client_read_def)

lemma call_pread_ok:
  assumes st: "setting P H budget left I path inode content" and s: "at_rest P H s"
    and e: "fd_table P s fd = Some (record_at fd inode off)" and off: "0 \<le> pos" "pos < 2 ^ 31" and c: "count < 2 ^ 31"
    and b: "b = take count (drop (nat pos) content)"
  shows "\<exists>k' t. call_pread_variant P I fd count pos use_pread64 (k, s) = ((int (length b), b), (k', t)) \<and>
    at_rest P H t \<and> fd_table P t fd = Some (record_at fd inode off)"
proof -
  note ok = settingD(1) [OF st] and img = settingD(3) [OF st, unfolded image_file_def]
  define u where "u = I {Descriptor fd} k s"
  have u: "at_rest P H u" "fd_table P u fd = Some (record_at fd inode off)"
    using scheduled(2) [OF st s e] by (simp_all add: u_def)
  note inv = at_restD(1,5) [OF u(1)]
  have cast: "long_cast (cfg P) pos = pos"
    using long_cast_eq_iff [of "cfg P" pos] settingD(4) [OF st] off by (auto simp: plentiful_def)
  have res: "fst (sqfs_pread P fd count pos u) = (int (length b), b)" "fst (sqfs_pread64 P fd count pos u) = (int (length b), b)"
    using pread_one [OF ok inv u(2), of content pos count b] img off c b by simp_all
  have rest: "steady H u (snd (sqfs_pread P fd count pos u))" "steady H u (snd (sqfs_pread64 P fd count pos u))"
    using pread_steady [OF ok inv] by simp_all
  have "at_rest P H t \<and> fd_table P t fd = Some (record_at fd inode off)" if "steady H u t" for t
    using at_rest_steady [OF u(1) that] steady_tables(1) [OF that, of P] u(2) by simp
  with res rest show ?thesis
    by (auto simp: call_pread_variant_def cast u_def [symmetric] split_beta prod_eq_iff)
qed

lemma client_lseek_ok:
  assumes st: "setting P H budget left I path inode content" and s: "at_rest P H s"
    and e: "fd_table P s fd = Some (record_at fd inode off)"
    and target: "whence = SEEK_SET \<and> pos = target \<or> whence = SEEK_END \<and> target = int (length content) + pos"
    and range: "0 \<le> target" "target < 2 ^ 31" "- (2 ^ 31) \<le> pos" "pos < 2 ^ 31"
  shows "\<exists>k' t. client_lseek P I fd pos whence (k, s) = (target, (k', t)) \<and> at_rest P H t \<and>
    fd_table P t fd = Some (record_at fd inode (nat target))"
proof -
  note ok = settingD(1) [OF st] and img = settingD(3) [OF st, unfolded image_file_def]
  define u where "u = I {Descriptor fd} k s"
  have u: "at_rest P H u" "fd_table P u fd = Some (record_at fd inode off)"
    using scheduled(2) [OF st s e] by (simp_all add: u_def)
  note inv = at_restD(1,5) [OF u(1)]
  have w: "sizeof_long (cfg P) = 4 \<or> sizeof_long (cfg P) = 8" using settingD(4) [OF st] by (simp add: plentiful_def)
  obtain res t where ls: "sqfs_lseek P fd pos whence u = (res, t)" by (cases "sqfs_lseek P fd pos whence u")
  have "(2 :: int) ^ 31 - 1 \<le> 2 ^ (8 * sizeof_long (cfg P) - 1) - 1" using w by auto
  moreover have "uint (sqfs_inode_size (lib P) inode) = int (length content)"
    using img by (simp add: unsigned_of_nat take_bit_nat_eq_self)
  ultimately have "seek_spec (2 ^ (8 * sizeof_long (cfg P) - 1) - 1) x (uint (sqfs_inode_size (lib P) inode)) pos whence = Inr target" for x
    using target range by (auto simp: seek_spec_def)
  with lseek_spec_effect [OF ok inv u(2) w _ _ ls] range
  have eff: "res = target" "fd_table P t fd = Some ((record_at fd inode off)\<lparr>fd_offset := word_of_int target\<rparr>)"
    by simp_all
  have "at_rest P H t" using at_rest_post [OF settingD(5) [OF st] u(1)] lseek.contract [OF ok inv, of fd pos whence] ls by simp
  moreover have "word_of_int target = (word_of_nat (nat target) :: u64)" using range(1) by simp
  ultimately show ?thesis using ls eff by (simp add: client_lseek_def u_def)
qed

lemma client_close_ok:
  assumes st: "setting P H budget left I path inode content" and s: "at_rest P H s"
    and e: "fd_table P s fd = Some e"
  shows "\<exists>k' t. client_close P I fd (k, s) = (0, (k', t)) \<and> at_rest P H t"
proof -
  note ok = settingD(1) [OF st] and K = platform_okD(2) [OF settingD(1) [OF st]]
  define u where "u = I {Descriptor fd} k s"
  have u: "at_rest P H u" "fd_table P u fd = Some e" using scheduled(2) [OF st s e] by (simp_all add: u_def)
  note inv = at_restD(1,5) [OF u(1)]
  obtain p where p: "find_fd P fd u = Some p" using find_fd_table [OF inv(1), of fd] u(2) by fastforce
  then obtain f where f: "fd_heap u p = Some f" by (rule find_fd_entry [OF inv(1)])
  note cs = close_section_effect [OF ok inv, of fd]
  have v: "at_rest P H (close_section P fd u)" "Descriptor fd \<in> H (os (close_section P fd u))"
    "fd_table P (close_section P fd u) fd = None"
    using at_rest_post [OF settingD(5) [OF st] u(1) cs(1)] cs(2,4) mgr_okD(3) [OF inv(1), of fd] u(2) by simp_all
  define x where "x = I {Descriptor fd} (Suc k) (close_section P fd u)"
  have x: "at_rest P H x" "Descriptor fd \<in> H (os x)" "unrecorded P x (Descriptor fd)"
    using scheduled(3) [OF st v] by (simp_all add: x_def unrecorded_def)
  obtain close where close: "libc_close (libc P) = Some close" using kernel_okD(2) [OF K] by blast
  obtain y where y: "sys_call (close fd) x = (0, y)"
    using settingD(4) [OF st] close x(2) sys_call_fst [of "close fd" x] by (metis plentiful_def prod.collapse)
  have "at_rest P H y"
    using at_rest_post [OF settingD(5) [OF st] x(1)] real_call_spares [OF at_restD(1) [OF x(1)] x(3) kernel_okD(6) [OF K close]] y
    by (simp add: spares_all_but_def)
  then have "at_rest P H ((log_hook P g m y)\<lparr>errno := n\<rparr>)" for g m n
    using at_rest_steady [of P H y] steady_log_hook [OF K, of y g m] by simp
  then show ?thesis
    using close close_sections [OF inv, of close fd "I {Descriptor fd} (Suc k)" 0 y "''sqfs_close''"] y
    by (auto simp: client_close_def u_def [symmetric] x_def [symmetric] p)
qed

lemma stat_section_finds:
  assumes st: "setting P H budget left I path inode content" and s: "at_rest P H s"
  shows "\<exists>t. stat_section P (relative_of P path) s = (Some (sqfs_fill_stat P (mgr_super s) inode), t) \<and> at_rest P H t"
proof -
  note ok = settingD(1) [OF st]
  have lk: "can_lock s" using at_restD(5) [OF s] .
  have "sqfs_mgr_loaded_locked (sqfs_lock s)" using at_restD(4) [OF s] lk by (simp add: sqfs_mgr_loaded_locked_def)
  from lookup_finds [OF settingD(3) [OF st] this]
  have "fst (sqfs_stat_impl P (Some (relative_of P path)) (sqfs_lock s)) = Some (sqfs_fill_stat P (mgr_super s) inode)"
    using lk by (auto simp: stat_impl_find)
  then have "fst (stat_section P (relative_of P path) s) = Some (sqfs_fill_stat P (mgr_super s) inode)"
    by (simp add: stat_section_def Let_def split_beta)
  moreover have "at_rest P H (snd (stat_section P (relative_of P path) s))"
    using at_rest_steady [OF s stat_section_steady [OF ok lk]] .
  ultimately show ?thesis by (metis prod.collapse)
qed

lemma client_xstat_ok:
  assumes st: "setting P H budget left I path inode content" and s: "at_rest P H s"
  shows "\<exists>b k' t. client_xstat P I path (k, s) = ((0, Some b), (k', t)) \<and> st_size b = int (length content) \<and> at_rest P H t"
proof -
  note img = settingD(3) [OF st] and K = platform_okD(2) [OF settingD(1) [OF st]]
  have r: "at_rest P H (I {} k s)" using scheduled(1) [OF st s] .
  obtain e buf s1 where c: "sys_call (libc_xstat (libc P) 3 (Some path) True) (I {} k s) = ((e, buf), s1)"
    by (metis prod.collapse)
  then have e: "e \<noteq> 0"
    using img sys_call_fst [of "libc_xstat (libc P) 3 (Some path) True" "I {} k s"]
    unfolding image_file_def by (metis fst_conv)
  have "at_rest P H (I {} (Suc k) s1)"
    using scheduled(1) [OF st at_rest_steady [OF r steady_call' [OF kernel_keeps(7) [OF K] c]]] .
  from stat_section_finds [OF st this] obtain b t
    where t: "stat_section P (relative_of P path) (I {} (Suc k) s1) = (Some b, t)" "at_rest P H t"
      and b: "b = sqfs_fill_stat P (mgr_super (I {} (Suc k) s1)) inode" by blast
  have "uint (sqfs_inode_size (lib P) inode) = int (length content)"
    using img by (simp add: image_file_def unsigned_of_nat take_bit_nat_eq_self)
  moreover have "long_cast (cfg P) (int (length content)) = int (length content)"
    using long_cast_eq_iff [of "cfg P" "int (length content)"] settingD(4) [OF st] img
    by (auto simp: plentiful_def image_file_def)
  ultimately have "st_size b = int (length content)" by (simp add: b sqfs_fill_stat_def Let_def)
  then show ?thesis
    using xstat_sections [OF c e relative_served [OF img]] t by (simp add: client_xstat_def)
qed

lemma client_access_ok:
  assumes st: "setting P H budget left I path inode content" and s: "at_rest P H s"
  shows "\<exists>k' t. client_access P I path R_OK (k, s) = (0, (k', t)) \<and> at_rest P H t"
proof -
  note img = settingD(3) [OF st] and K = platform_okD(2) [OF settingD(1) [OF st]]
  have r: "at_rest P H (I {} k s)" using scheduled(1) [OF st s] .
  obtain e s1 where c: "sys_call (libc_access (libc P) (Some path) R_OK) (I {} k s) = (e, s1)"
    by (metis prod.collapse)
  then have e: "e \<noteq> 0"
    using img sys_call_fst [of "libc_access (libc P) (Some path) R_OK" "I {} k s"] by (auto simp: image_file_def)
  have "at_rest P H (I {} (Suc k) s1)"
    using scheduled(1) [OF st at_rest_steady [OF r steady_call' [OF kernel_keeps(6) [OF K] c]]] .
  from stat_section_finds [OF st this] obtain b t
    where t: "stat_section P (relative_of P path) (I {} (Suc k) s1) = (Some b, t)" "at_rest P H t"
      and b: "b = sqfs_fill_stat P (mgr_super (I {} (Suc k) s1)) inode" by blast
  have "access_decision R_OK (st_mode b) = 0"
    using img inode_mode_permission(1) [of inode]
    by (simp add: b sqfs_fill_stat_def Let_def access_decision_def image_file_def)
  moreover have "at_rest P H (log_hook P g m t)" for g m
    using at_rest_steady [OF t(2) steady_log_hook [OF K]] .
  ultimately show ?thesis
    using access_sections [OF c e relative_served [OF img]] t by (simp add: client_access_def Let_def)
qed

section \<open>The loops\<close>

declare read_prefix.simps [simp del] and read_sample.simps [simp del]

lemma hash_update_append: "hash_update h (xs @ ys) = hash_update (hash_update h xs) ys"
  by (induction h xs rule: hash_update.induct) simp_all

lemma sample_offset_range:
  assumes "0 < sz" and "sz < 2 ^ 31"
  shows "0 \<le> sample_offset sz i" "sample_offset sz i < sz"
proof -
  define w where "w = (ucast (word_of_nat i :: u32) * 1103515245 + 12345 :: u64) mod word_of_int sz"
  have "uint w = uint (ucast (word_of_nat i :: u32) * 1103515245 + 12345 :: u64) mod sz"
    using assms by (simp add: w_def uint_mod uint_word_of_int)
  then have "0 \<le> uint w" "uint w < sz" using assms by simp_all
  moreover from this have "uint w < 2 ^ 63" using assms by simp
  moreover have "- (2 ^ 63) \<le> uint w" by (rule order_trans [of _ 0]) simp_all
  ultimately have "sint w = uint w" using signed_take_bit_int_eq_self [of 63 "uint w"] by (simp add: sint_uint)
  with \<open>0 \<le> uint w\<close> \<open>uint w < sz\<close> show "0 \<le> sample_offset sz i" "sample_offset sz i < sz"
    using assms by (simp_all add: sample_offset_def w_def Let_def)
qed

lemma read_prefix_ok:
  assumes "setting P H budget left I path inode content" and "at_rest P H (snd th)"
    and "fd_table P (snd th) fd = Some (record_at fd inode so_far)" and "so_far \<le> n" and "n \<le> length content"
  shows "\<exists>th'. read_prefix P I fd n so_far h th =
      (Some (n, hash_update h (take (n - so_far) (drop so_far content))), th') \<and>
    at_rest P H (snd th') \<and> fd_table P (snd th') fd = Some (record_at fd inode n)"
  using assms
proof (induction P I fd n so_far h th rule: read_prefix.induct)
  case (1 P I fd n so_far h th)
  show ?case
  proof (cases "so_far < n")
    case True
    define b where "b = take (min_size 8192 (n - so_far)) (drop so_far content)"
    have lc: "length content < 2 ^ 31" using settingD(3) [OF 1(2)] by (simp add: image_file_def)
    have b: "0 < length b" "so_far + length b \<le> n" "length b \<le> n - so_far"
      using True 1(6) by (auto simp: b_def min_size_def)
    have "so_far < 2 ^ 31" "min_size 8192 (n - so_far) < 2 ^ 31" using True 1(6) lc by (simp_all add: min_size_def)
    with client_read_ok [OF 1(2,3,4) _ _ b_def, of "fst th"] obtain k t
      where r: "client_read P I fd (min_size 8192 (n - so_far)) th = ((int (length b), b), (k, t))"
        and t: "at_rest P H t" "fd_table P t fd = Some (record_at fd inode (so_far + length b))"
      by auto
    have "take (length b) (drop so_far content) = b" by (metis b_def append_take_drop_id append_eq_conv_conj)
    then have split: "take (n - so_far) (drop so_far content) = b @ take (n - (so_far + length b)) (drop (so_far + length b) content)"
      using take_add [of "length b" "n - (so_far + length b)" "drop so_far content"] b by (simp add: add.commute)
    have step: "read_prefix P I fd n so_far h th = read_prefix P I fd n (so_far + length b) (hash_update h b) (k, t)"
      using True r b(1) by (simp add: read_prefix.simps [of P I fd n so_far])
    have "\<exists>th'. read_prefix P I fd n (so_far + length b) (hash_update h b) (k, t) =
        (Some (n, hash_update (hash_update h b) (take (n - (so_far + length b)) (drop (so_far + length b) content))), th') \<and>
      at_rest P H (snd th') \<and> fd_table P (snd th') fd = Some (record_at fd inode n)"
      using 1(1) [OF True r [symmetric] refl] b t 1(2,6) by simp
    then show ?thesis by (simp add: step split hash_update_append)
  qed (use 1 in \<open>simp add: read_prefix.simps [of P I fd n n]\<close>)
qed

lemma read_sample_ok:
  assumes "setting P H budget left I path inode content" and "at_rest P H (snd th)"
    and "fd_table P (snd th) fd = Some (record_at fd inode off)" and "filled \<le> want"
    and "0 \<le> offset" and "offset + int want \<le> int (length content)"
  shows "\<exists>th'. read_sample P I fd use_pread64 offset want buf filled th =
      (Inr (buf @ take (want - filled) (drop (nat offset + filled) content)), th') \<and>
    at_rest P H (snd th') \<and> fd_table P (snd th') fd = Some (record_at fd inode off)"
  using assms
proof (induction P I fd use_pread64 offset want buf filled th rule: read_sample.induct)
  case (1 P I fd u offset want buf filled th)
  show ?case
  proof (cases "filled < want")
    case True
    define b where "b = take (want - filled) (drop (nat (offset + int filled)) content)"
    have lc: "length content < 2 ^ 31" using settingD(3) [OF 1(2)] by (simp add: image_file_def)
    have b: "length b = want - filled" "0 < length b" using True 1(6,7) by (simp_all add: b_def nat_add_distrib)
    have range: "0 \<le> offset + int filled" "offset + int filled < 2 ^ 31" "want - filled < 2 ^ 31" using True 1(6,7) lc by simp_all
    obtain k t where r: "call_pread_variant P I fd (want - filled) (offset + int filled) u th = ((int (length b), b), (k, t))"
        and t: "at_rest P H t" "fd_table P t fd = Some (record_at fd inode off)"
      using call_pread_ok [OF 1(2,3,4) range b_def, of u "fst th"] by auto
    have "read_sample P I fd u offset want buf filled th = (Inr (buf @ b), (k, t))"
      using True r b nat_int [of "want - filled"]
      by (simp add: of_nat_diff read_sample.simps [of P I fd u offset want buf filled]
          read_sample.simps [of P I fd u offset want "buf @ b" want])
    then show ?thesis using t 1(6) by (simp add: b_def nat_add_distrib)
  qed (use 1 in \<open>simp add: read_sample.simps [of P I fd u offset want buf]\<close>)
qed

text \<open>The bytes that sample number \<open>i\<close> of a file covers, and the hash of all of them.\<close>

definition sample_at :: "byte list \<Rightarrow> nat \<Rightarrow> byte list" where
  "sample_at content i = take 4096 (drop (nat (sample_offset (int (length content)) i)) content)"

definition samples_hash :: "byte list \<Rightarrow> u64" where
  "samples_hash content = foldl (\<lambda>h i. hash_update h (sample_at content i)) FNV_OFFSET [0..<128]"

lemma read_samples_ok:
  assumes "setting P H budget left I path inode content" and "at_rest P H (snd th)"
    and "fd_table P (snd th) fd = Some (record_at fd inode off)"
  shows "\<exists>th'. read_samples P I fd use_pread64 (int (length content)) n i h th =
      (Inr (foldl (\<lambda>h i. hash_update h (sample_at content i)) h [i..<i + n]), th') \<and>
    at_rest P H (snd th') \<and> fd_table P (snd th') fd = Some (record_at fd inode off)"
  using assms(2,3)
proof (induction n arbitrary: i h th)
  case (Suc n)
  show ?case
  proof (cases "content = []")
    case True
    have "foldl (\<lambda>h i. hash_update h (sample_at [] i)) h xs = h" for xs
      by (induction xs) (simp_all add: sample_at_def)
    then show ?thesis using True Suc.prems by (simp del: upt_Suc)
  next
    case False
    define offset where "offset = sample_offset (int (length content)) i"
    define want where "want = min_size 4096 (nat (int (length content) - offset))"
    have lc: "length content < 2 ^ 31" using settingD(3) [OF assms(1)] by (simp add: image_file_def)
    have r: "0 \<le> offset" "offset < int (length content)"
      using sample_offset_range [of "int (length content)" i] False lc by (simp_all add: offset_def)
    have w: "offset + int want \<le> int (length content)" using r by (auto simp: want_def min_size_def)
    have "take want (drop (nat offset) content) = sample_at content i"
      using r by (simp add: sample_at_def want_def min_size_def flip: offset_def)
    with read_sample_ok [OF assms(1) Suc.prems _ r(1) w, of 0 use_pread64 "[]"] obtain th1
      where t1: "read_sample P I fd use_pread64 offset want [] 0 th = (Inr (sample_at content i), th1)"
        "at_rest P H (snd th1)" "fd_table P (snd th1) fd = Some (record_at fd inode off)" by auto
    have "[i..<i + Suc n] = i # [Suc i..<Suc i + n]" by (simp add: upt_conv_Cons)
    then show ?thesis
      using Suc.IH [OF t1(2,3), of "i + 1" "hash_update h (sample_at content i)"] t1(1) False
      by (simp add: Let_def flip: offset_def want_def)
  qed
qed simp

section \<open>The functions\<close>

text \<open>
  Each function of the program that works on the file succeeds, leaves the process as it may be
  between two sections and computes its result from the content alone.
\<close>

lemma get_path_size_ok:
  assumes st: "setting P H budget left I path inode content" and s: "at_rest P H (snd th)"
  shows "\<exists>th'. get_path_size P I path th = (Some (int (length content)), th') \<and> at_rest P H (snd th')"
proof -
  have lc: "length content < 2 ^ 31" using settingD(3) [OF st] by (simp add: image_file_def)
  from client_open_ok [OF st s, of "fst th"] obtain fd k1 t1
    where o: "client_open P I path th = (fd, (k1, t1))" "0 \<le> fd" "at_rest P H t1"
      "fd_table P t1 fd = Some (record_at fd inode 0)" by auto
  from client_lseek_ok [OF st o(3,4), of SEEK_END 0 "int (length content)" k1] lc obtain k2 t2
    where l: "client_lseek P I fd 0 SEEK_END (k1, t1) = (int (length content), (k2, t2))" "at_rest P H t2"
      "fd_table P t2 fd = Some (record_at fd inode (length content))" by auto
  from client_close_ok [OF st l(2,3), of k2] obtain k3 t3
    where "client_close P I fd (k2, t2) = (0, (k3, t3))" "at_rest P H t3" by blast
  then show ?thesis using o l by (simp add: get_path_size_def Let_def)
qed

lemma hash_prefix_ok:
  assumes st: "setting P H budget left I path inode content" and s: "at_rest P H (snd th)" and n: "n \<le> length content"
  shows "\<exists>th'. hash_prefix_with_read P I path n th = (Some (hash_update FNV_OFFSET (take n content)), th') \<and>
    at_rest P H (snd th')"
proof -
  from client_open_ok [OF st s, of "fst th"] obtain fd k1 t1
    where o: "client_open P I path th = (fd, (k1, t1))" "0 \<le> fd" "at_rest P H t1"
      "fd_table P t1 fd = Some (record_at fd inode 0)" by auto
  from read_prefix_ok [OF st, of "(k1, t1)" fd 0 n FNV_OFFSET] o n obtain k2 t2
    where l: "read_prefix P I fd n 0 FNV_OFFSET (k1, t1) = (Some (n, hash_update FNV_OFFSET (take n content)), (k2, t2))"
      "at_rest P H t2" "fd_table P t2 fd = Some (record_at fd inode n)" by auto
  from client_close_ok [OF st l(2,3), of k2] obtain k3 t3
    where "client_close P I fd (k2, t2) = (0, (k3, t3))" "at_rest P H t3" by blast
  then show ?thesis using o l by (simp add: hash_prefix_with_read_def)
qed

lemma hash_samples_ok:
  assumes st: "setting P H budget left I path inode content" and s: "at_rest P H (snd th)"
  shows "\<exists>th'. hash_samples_with_pread P I path (int (length content)) use_pread64 th = (Some (samples_hash content), th') \<and>
    at_rest P H (snd th')"
proof -
  from client_open_ok [OF st s, of "fst th"] obtain fd k1 t1
    where o: "client_open P I path th = (fd, (k1, t1))" "0 \<le> fd" "at_rest P H t1"
      "fd_table P t1 fd = Some (record_at fd inode 0)" by auto
  have "\<exists>th'. read_samples P I fd use_pread64 (int (length content)) 128 0 FNV_OFFSET (k1, t1) = (Inr (samples_hash content), th') \<and>
    at_rest P H (snd th') \<and> fd_table P (snd th') fd = Some (record_at fd inode 0)"
    using read_samples_ok [OF st, of "(k1, t1)" fd 0 use_pread64 128 0 FNV_OFFSET] o
    unfolding samples_hash_def add_0 snd_conv by blast
  then obtain k2 t2
    where l: "read_samples P I fd use_pread64 (int (length content)) 128 0 FNV_OFFSET (k1, t1) = (Inr (samples_hash content), (k2, t2))"
      "at_rest P H t2" "fd_table P t2 fd = Some (record_at fd inode 0)" by auto
  from client_close_ok [OF st l(2,3), of k2] obtain k3 t3
    where "client_close P I fd (k2, t2) = (0, (k3, t3))" "at_rest P H t3" by blast
  then show ?thesis using o l by (simp add: hash_samples_with_pread_def)
qed

lemma probe_lseek_ok:
  assumes st: "setting P H budget left I path inode content" and s: "at_rest P H (snd th)"
    and c: "cfg_path c = path" "cfg_size c = int (length content)"
  shows "\<exists>th'. probe_lseek P I c th = (0, th') \<and> at_rest P H (snd th')"
proof (cases "content = []")
  case False
  define half where "half = int (length content) div 2"
  define want where "want = min_size 256 (nat (int (length content) - half))"
  define b where "b = take want (drop (nat half) content)"
  have lc: "length content < 2 ^ 31" using settingD(3) [OF st] by (simp add: image_file_def)
  have h: "0 \<le> half" "half < 2 ^ 31" "- (2 ^ 31) \<le> half" "nat half < 2 ^ 31" "want < 2 ^ 31"
    using lc by (auto simp: half_def want_def min_size_def)
  from client_open_ok [OF st s, of "fst th"] obtain fd k1 t1
    where o: "client_open P I path th = (fd, (k1, t1))" "0 \<le> fd" "at_rest P H t1"
      "fd_table P t1 fd = Some (record_at fd inode 0)" by auto
  from client_lseek_ok [OF st o(3,4), of SEEK_SET half half k1] h obtain k2 t2
    where l: "client_lseek P I fd half SEEK_SET (k1, t1) = (half, (k2, t2))" "at_rest P H t2"
      "fd_table P t2 fd = Some (record_at fd inode (nat half))" by auto
  from client_read_ok [OF st l(2,3) h(4,5) b_def, of k2] obtain k3 t3
    where r: "client_read P I fd want (k2, t2) = ((int (length b), b), (k3, t3))" "at_rest P H t3"
      "fd_table P t3 fd = Some (record_at fd inode (nat half + length b))" by blast
  from call_pread_ok [OF st r(2,3) h(1,2,5) b_def, of True k3] obtain k4 t4
    where p: "call_pread_variant P I fd want half True (k3, t3) = ((int (length b), b), (k4, t4))" "at_rest P H t4"
      "fd_table P t4 fd = Some (record_at fd inode (nat half + length b))" by blast
  from client_close_ok [OF st p(2,3), of k4] obtain k5 t5
    where "client_close P I fd (k4, t4) = (0, (k5, t5))" "at_rest P H t5" by blast
  then show ?thesis
    using o l r p c False by (simp add: probe_lseek_def Let_def flip: half_def want_def)
qed (use assms in \<open>simp add: probe_lseek_def\<close>)

lemma probe_xstat_access_ok:
  assumes st: "setting P H budget left I path inode content" and s: "at_rest P H (snd th)"
    and c: "cfg_path c = path" "cfg_size c = int (length content)"
  shows "\<exists>th'. probe_xstat_access P I c th = (0, th') \<and> at_rest P H (snd th')"
proof -
  from client_xstat_ok [OF st s, of "fst th"] obtain b k1 t1
    where x: "client_xstat P I path th = ((0, Some b), (k1, t1))" "st_size b = int (length content)" "at_rest P H t1" by auto
  from client_access_ok [OF st x(3), of k1] obtain k2 t2
    where "client_access P I path R_OK (k1, t1) = (0, (k2, t2))" "at_rest P H t2" by blast
  then show ?thesis using x c by (simp add: probe_xstat_access_def)
qed

text \<open>What \<open>main\<close> measures of a file before it starts the workers.\<close>

definition measured :: "string \<Rightarrow> byte list \<Rightarrow> nat \<Rightarrow> TestConfig" where
  "measured path content n =
     \<lparr>cfg_path = path, cfg_size = int (length content), cfg_prefix_size = min (length content) (1024 * 1024),
      cfg_prefix_hash = hash_update FNV_OFFSET (take (1024 * 1024) content),
      cfg_sample_hash = samples_hash content, cfg_iterations = n\<rparr>"

lemma min_size_min: "min_size a b = min a b"
  by (simp add: min_size_def)

lemma take_min_length: "take (min (length xs) n) xs = take n xs"
  by (simp add: min_def)

lemma baseline_ok:
  assumes st: "setting P H budget left I path inode content" and s: "at_rest P H (snd th)"
  shows "\<exists>th'. baseline P I path n th = (Some (measured path content n), th') \<and> at_rest P H (snd th')"
proof -
  from get_path_size_ok [OF st s] obtain th1
    where g: "get_path_size P I path th = (Some (int (length content)), th1)" "at_rest P H (snd th1)" by blast
  let ?n = "min (length content) (1024 * 1024)"
  have "?n \<le> length content" by simp
  from hash_prefix_ok [OF st g(2) this] obtain th2
    where p: "hash_prefix_with_read P I path ?n th1 = (Some (hash_update FNV_OFFSET (take (1024 * 1024) content)), th2)"
      "at_rest P H (snd th2)" unfolding take_min_length by blast
  from hash_samples_ok [OF st p(2), of True] obtain th3
    where "hash_samples_with_pread P I path (int (length content)) True th2 = (Some (samples_hash content), th3)"
      "at_rest P H (snd th3)" by blast
  then show ?thesis
    using g p by (simp add: baseline_def measured_def min_size_min Let_def)
qed

lemma worker_round_ok:
  assumes st: "setting P H budget left I path inode content" and s: "at_rest P H (snd th)"
  shows "\<exists>th'. worker_round P I (measured path content n) i th = (0, th') \<and> at_rest P H (snd th')"
proof -
  let ?c = "measured path content n"
  have c: "cfg_path ?c = path" "cfg_size ?c = int (length content)" by (simp_all add: measured_def)
  have pre: "cfg_prefix_hash ?c = hash_update FNV_OFFSET (take (cfg_prefix_size ?c) content)"
    "cfg_prefix_size ?c \<le> length content" by (simp_all add: measured_def take_min_length del: take_take)
  from hash_prefix_ok [OF st s pre(2)] obtain th1
    where p: "hash_prefix_with_read P I path (cfg_prefix_size ?c) th = (Some (cfg_prefix_hash ?c), th1)"
      "at_rest P H (snd th1)" using pre(1) by auto
  from hash_samples_ok [OF st p(2), of "i mod 2 \<noteq> 0"] obtain th2
    where h: "hash_samples_with_pread P I path (cfg_size ?c) (i mod 2 \<noteq> 0) th1 = (Some (cfg_sample_hash ?c), th2)"
      "at_rest P H (snd th2)" by (auto simp: measured_def)
  from probe_lseek_ok [OF st h(2) c] obtain th3 where l: "probe_lseek P I ?c th2 = (0, th3)" "at_rest P H (snd th3)" by blast
  from probe_xstat_access_ok [OF st l(2) c] obtain th4
    where "probe_xstat_access P I ?c th3 = (0, th4)" "at_rest P H (snd th4)" by blast
  then show ?thesis using p h l c(1) by (simp add: worker_round_def)
qed

lemma worker_rounds_ok:
  assumes st: "setting P H budget left I path inode content" and s: "at_rest P H (snd th)"
  shows "\<exists>th'. worker_rounds P I (measured path content n) m i e th = (e, th') \<and> at_rest P H (snd th')"
  using s
proof (induction m arbitrary: i th)
  case (Suc m)
  from worker_round_ok [OF st Suc.prems] obtain th1
    where "worker_round P I (measured path content n) i th = (0, th1)" "at_rest P H (snd th1)" by blast
  with Suc.IH [of th1] show ?case by simp
qed simp

lemma independent_workers_ok:
  assumes "\<And>J th. (J, th) \<in> set workers \<Longrightarrow> setting P H budget left J path inode content \<and> at_rest P H (snd th)"
    and "length workers = threads"
  shows "run_independent_workers P (measured path content n) True workers threads = 0"
proof -
  have "fst (worker_main P J (measured path content n) th) = 0" if "(J, th) \<in> set workers" for J th
  proof -
    have st: "setting P H budget left J path inode content" "at_rest P H (snd th)"
      using assms(1) [OF that] by simp_all
    show ?thesis
      using worker_rounds_ok [OF st, of n "cfg_iterations (measured path content n)" 0 0] by (auto simp: worker_main_def)
  qed
  then show ?thesis using assms(2) by (auto simp: run_independent_workers_def)
qed

text \<open>A schedule in which another thread opens a file of the image before every step.\<close>

definition busy_schedule :: "(machine, (int \<times> ptr) list) schedule" where
  "busy_schedule F k s = (snd (open_in_image sample_env ''a'' 0 s))\<lparr>errno := errno s\<rparr>"

lemma sample_setting: "setting sample_env m_open m_interrupts (\<lambda>r. m_listing) busy_schedule ''/hook/d/a'' sample_file sample_bytes"
  unfolding setting_def
proof (intro conjI)
  show "platform_ok sample_env m_open m_interrupts (\<lambda>r. m_listing)" by (rule sample_platform_ok)
  show "respectful sample_env m_open busy_schedule"
    using open_in_image_spares [OF sample_platform_ok]
    by (auto simp: respectful_def undisturbed_def busy_schedule_def spares_all_but_def can_lock_def)
  have rel: "relative_of sample_env ''/hook/d/a'' = ''d/a''" unfolding relative_of_def by (rule sample_path(2))
  show "image_file sample_env ''/hook/d/a'' sample_file sample_bytes"
    unfolding image_file_def rel using sample_good_config sample_path(1) sample_serves
    by (simp add: sample_libc_def sample_lib_def m_find_def sample_bytes_def sample_file_def sqfs_inode_size_def)
  show "plentiful sample_env m_open"
    by (simp add: plentiful_def sample_libc_def m_alloc_fd_def m_close_def m_open_def)
  show "\<not> long_names (lib sample_env)" using sample_short_names by simp
qed

lemma sample_at_rest: "at_rest sample_env m_open sample_loaded"
  using sample_loaded_ok by (simp add: at_rest_def can_lock_def sample_loaded_def sample_proc_def fresh_proc_def sqfs_mgr_loaded_locked_def)

end
