(* ===== verification/Shared_Read.thy ===== *)
theory Shared_Read
  imports Client_Spec
begin

text \<open>
  The second half of \<open>src/test_concurrent.c\<close>: several threads read one descriptor of the image to
  its end and add up what they got. Each read of the overlay is one section, so the threads take
  turns at it; the counters of \<open>struct SharedReadCtx\<close> are updated under its own lock, in a turn of
  their own.
\<close>

section \<open>Definitions\<close>

text \<open>Where a thread in \<open>shared_read_main\<close> is: about to read, with what its read returned, or out of the loop.\<close>

datatype reader = Reading | Got u64 | Failed | Ended

record SharedReadCtx =
  ctx_total :: u64
  ctx_errors :: nat
  ctx_readers :: "reader list"

text \<open>One turn of thread \<open>i\<close>.\<close>

definition shared_read_turn :: "('w, 'h) env \<Rightarrow> int \<Rightarrow> nat \<Rightarrow> SharedReadCtx \<times> ('w, 'h) proc \<Rightarrow>
    SharedReadCtx \<times> ('w, 'h) proc" where
  "shared_read_turn P fd i x =
     (case x of (c, s) \<Rightarrow>
        case ctx_readers c ! i of
          Reading \<Rightarrow>
            (case sqfs_read P fd 8192 s of
               ((got, buf), t) \<Rightarrow>
                 (c\<lparr>ctx_readers := (ctx_readers c)
                    [i := if got < 0 then Failed else if got = 0 then Ended else Got (word_of_int got)]\<rparr>, t))
        | Got got \<Rightarrow> (c\<lparr>ctx_total := ctx_total c + got, ctx_readers := (ctx_readers c)[i := Reading]\<rparr>, s)
        | Failed \<Rightarrow> (c\<lparr>ctx_errors := ctx_errors c + 1, ctx_readers := (ctx_readers c)[i := Ended]\<rparr>, s)
        | Ended \<Rightarrow> (c, s))"

text \<open>
  A run of the threads, counting their turns: those that are not out of the loop take turns in any
  order, and threads elsewhere in the process act in between, not on this descriptor.
\<close>

inductive shared_run :: "('w, 'h) env \<Rightarrow> ('w \<Rightarrow> handle set) \<Rightarrow> int \<Rightarrow> SharedReadCtx \<times> ('w, 'h) proc \<Rightarrow>
    nat \<Rightarrow> SharedReadCtx \<times> ('w, 'h) proc \<Rightarrow> bool"
  for P H fd x where
  created: "shared_run P H fd x 0 x"
| turn: "shared_run P H fd x n y \<Longrightarrow> i < length (ctx_readers (fst y)) \<Longrightarrow> ctx_readers (fst y) ! i \<noteq> Ended \<Longrightarrow>
    shared_run P H fd x (Suc n) (shared_read_turn P fd i y)"
| others: "shared_run P H fd x n (c, s) \<Longrightarrow> undisturbed P H {Descriptor fd} s t \<Longrightarrow> shared_run P H fd x n (c, t)"

text \<open>\<open>run_shared_fd_read\<close> before its threads start, and after they are joined.\<close>

definition shared_fd_open ::
    "('w, 'h) env \<Rightarrow> ('w, 'h) schedule \<Rightarrow> string \<Rightarrow> ('w, 'h) thread \<Rightarrow> int option \<times> ('w, 'h) thread" where
  "shared_fd_open P I path th =
     (case client_open P I path th of
        (fd, th1) \<Rightarrow>
          if fd < 0 then (None, th1)
          else
            (case client_lseek P I fd 0 SEEK_SET th1 of
               (pos, th2) \<Rightarrow>
                 if pos \<noteq> 0 then (None, close_keeping_errno P I fd th2) else (Some fd, th2)))"

definition shared_ctx :: "nat \<Rightarrow> SharedReadCtx" where
  "shared_ctx begun = \<lparr>ctx_total = 0, ctx_errors = 0, ctx_readers = replicate begun Reading\<rparr>"

definition shared_fd_verdict :: "('w, 'h) env \<Rightarrow> ('w, 'h) schedule \<Rightarrow> int \<Rightarrow> TestConfig \<Rightarrow> nat \<Rightarrow> SharedReadCtx \<Rightarrow>
    ('w, 'h) thread \<Rightarrow> int \<times> ('w, 'h) thread" where
  "shared_fd_verdict P I fd c threads ctx th =
     (case client_close P I fd th of
        (ret, th1) \<Rightarrow>
          if ret \<noteq> 0 then (-1, th1)
          else if length (ctx_readers ctx) \<noteq> threads \<or> ctx_errors ctx \<noteq> 0 \<or> ctx_total ctx \<noteq> word_of_int (cfg_size c)
          then (-1, set_errno EIO th1)
          else (0, th1))"

section \<open>What the threads read together\<close>

text \<open>What a thread has read and not yet added, and how many turns it is away from its next read.\<close>

fun unadded :: "reader \<Rightarrow> nat" where
  "unadded (Got got) = unat got"
| "unadded r = 0"

fun owed :: "reader \<Rightarrow> nat" where
  "owed Reading = 1"
| "owed (Got got) = 2"
| "owed Failed = 1"
| "owed Ended = 0"

definition shared_inv :: "('w, 'h) env \<Rightarrow> ('w \<Rightarrow> handle set) \<Rightarrow> int \<Rightarrow> sqfs_inode \<Rightarrow> byte list \<Rightarrow> nat \<Rightarrow>
    SharedReadCtx \<times> ('w, 'h) proc \<Rightarrow> bool" where
  "shared_inv P H fd inode content off x \<longleftrightarrow>
     at_rest P H (snd x) \<and> fd_table P (snd x) fd = Some (record_at fd inode off) \<and> off \<le> length content \<and>
     ctx_errors (fst x) = 0 \<and> Failed \<notin> set (ctx_readers (fst x)) \<and>
     (Ended \<in> set (ctx_readers (fst x)) \<longrightarrow> off = length content) \<and>
     unat (ctx_total (fst x)) + sum_list (map unadded (ctx_readers (fst x))) = off"

lemma sum_list_map_update:
  fixes f :: "'a \<Rightarrow> nat"
  assumes "i < length xs"
  shows "sum_list (map f (xs[i := y])) + f (xs ! i) = sum_list (map f xs) + f y"
  using assms by (induction xs arbitrary: i) (auto simp: less_Suc_eq_0_disj split: nat.split)

text \<open>The longest the threads can go on: two turns for each byte left, and those they owe.\<close>

definition turns_left :: "byte list \<Rightarrow> nat \<Rightarrow> SharedReadCtx \<Rightarrow> nat" where
  "turns_left content off c = 2 * (length content - off) + sum_list (map owed (ctx_readers c))"

lemma shared_turn:
  assumes st: "setting P H budget left I path inode content" and inv: "shared_inv P H fd inode content off x"
    and i: "i < length (ctx_readers (fst x))" "ctx_readers (fst x) ! i \<noteq> Ended"
  shows "\<exists>off'. shared_inv P H fd inode content off' (shared_read_turn P fd i x) \<and>
    turns_left content off' (fst (shared_read_turn P fd i x)) < turns_left content off (fst x)"
proof -
  obtain c s where x: "x = (c, s)" by (cases x)
  then have fx: "fst x = c" by simp
  note inv' = inv [unfolded shared_inv_def x fst_conv snd_conv]
  have i': "i < length (ctx_readers c)" "ctx_readers c ! i \<noteq> Ended" using i by (simp_all add: x)
  have lc: "length content < 2 ^ 31" using settingD(3) [OF st] by (simp add: image_file_def)
  note sums = sum_list_map_update [OF i'(1), of unadded] sum_list_map_update [OF i'(1), of owed]
  show ?thesis
  proof (cases "ctx_readers c ! i")
    case Reading
    define b where "b = take 8192 (drop off content)"
    define r where "r = (if b = [] then Ended else Got (word_of_nat (length b)))"
    have "off < 2 ^ 31" using inv' lc by simp
    with read_section_ok [OF st _ _ _ _ b_def, of s fd] inv' obtain t
      where t: "sqfs_read P fd 8192 s = ((int (length b), b), t)" "at_rest P H t"
        "fd_table P t fd = Some (record_at fd inode (off + length b))" by auto
    have turn: "shared_read_turn P fd i x = (c\<lparr>ctx_readers := (ctx_readers c)[i := r]\<rparr>, t)"
      using t(1) Reading by (simp add: shared_read_turn_def x r_def)
    have b: "off + length b \<le> length content" "length b < 2 ^ 64" "b = [] \<longleftrightarrow> off = length content"
      using inv' by (auto simp: b_def)
    have r: "unadded r = length b" "owed r = (if b = [] then 0 else 2)"
      using b(2) by (auto simp: r_def unat_of_nat)
    have "Ended \<in> set ((ctx_readers c)[i := r]) \<Longrightarrow> off + length b = length content"
      "Failed \<notin> set ((ctx_readers c)[i := r])"
      using inv' b set_update_subset_insert [of "ctx_readers c" i r] by (auto simp: r_def split: if_splits)
    then have "shared_inv P H fd inode content (off + length b) (shared_read_turn P fd i x)"
      using inv' t b sums(1) [of r] Reading r by (simp add: shared_inv_def turn)
    moreover have "turns_left content (off + length b) (fst (shared_read_turn P fd i x)) < turns_left content off (fst x)"
      using sums(2) [of r] Reading r b by (auto simp: turns_left_def turn fx neq_Nil_conv)
    ultimately show ?thesis by blast
  next
    case (Got got)
    have turn: "shared_read_turn P fd i x =
        (c\<lparr>ctx_total := ctx_total c + got, ctx_readers := (ctx_readers c)[i := Reading]\<rparr>, s)"
      using Got by (simp add: shared_read_turn_def x)
    have "unat got \<le> sum_list (map unadded (ctx_readers c))"
      using elem_le_sum_list [of i "map unadded (ctx_readers c)"] i'(1) Got by simp
    then have "unat (ctx_total c) + unat got < 2 ^ 64" using inv' lc by simp
    then have "unat (ctx_total c + got) = unat (ctx_total c) + unat got" by (simp add: unat_word_ariths(1))
    moreover have "Ended \<in> set ((ctx_readers c)[i := Reading]) \<Longrightarrow> Ended \<in> set (ctx_readers c)"
      "Failed \<notin> set ((ctx_readers c)[i := Reading])"
      using inv' set_update_subset_insert [of "ctx_readers c" i Reading] by auto
    ultimately have "shared_inv P H fd inode content off (shared_read_turn P fd i x)"
      using inv' sums(1) [of Reading] Got by (simp add: shared_inv_def turn)
    moreover have "turns_left content off (fst (shared_read_turn P fd i x)) < turns_left content off (fst x)"
      using sums(2) [of Reading] Got by (simp add: turns_left_def turn fx)
    ultimately show ?thesis by blast
  next
    case Failed
    then show ?thesis using inv' i'(1) nth_mem by fastforce
  qed (use i' in simp)
qed

lemma shared_run_inv:
  assumes st: "setting P H budget left I path inode content" and inv: "shared_inv P H fd inode content off x"
    and "shared_run P H fd x n y"
  shows "\<exists>off'. shared_inv P H fd inode content off' y \<and> turns_left content off' (fst y) + n \<le> turns_left content off (fst x) \<and>
    length (ctx_readers (fst y)) = length (ctx_readers (fst x))"
  using assms(3)
proof induction
  case (turn n y i)
  then obtain off' where o: "shared_inv P H fd inode content off' y"
    "turns_left content off' (fst y) + n \<le> turns_left content off (fst x)"
    "length (ctx_readers (fst y)) = length (ctx_readers (fst x))" by blast
  have "length (ctx_readers (fst (shared_read_turn P fd i y))) = length (ctx_readers (fst y))"
    by (auto simp: shared_read_turn_def split: prod.split reader.split)
  with o shared_turn [OF st o(1) turn.hyps(2,3)] show ?case by fastforce
next
  case (others n c s t)
  then obtain off' where o: "shared_inv P H fd inode content off' (c, s)"
    "turns_left content off' c + n \<le> turns_left content off (fst x)"
    "length (ctx_readers c) = length (ctx_readers (fst x))" by auto
  then have "shared_inv P H fd inode content off' (c, t)"
    using others.hyps(2) at_rest_post [OF settingD(5) [OF st], of H s t] by (simp add: shared_inv_def undisturbed_def record_kept_def)
  with o show ?case by auto
qed (use inv in auto)

lemma shared_run_trans: "shared_run P H fd y m z \<Longrightarrow> shared_run P H fd x n y \<Longrightarrow> shared_run P H fd x (n + m) z"
  by (induction rule: shared_run.induct) (auto intro: shared_run.intros)

text \<open>One order of the turns: the first thread that is not out of the loop, for a number of turns.\<close>

fun take_turns :: "('w, 'h) env \<Rightarrow> int \<Rightarrow> nat \<Rightarrow> SharedReadCtx \<times> ('w, 'h) proc \<Rightarrow> SharedReadCtx \<times> ('w, 'h) proc" where
  "take_turns P fd 0 x = x"
| "take_turns P fd (Suc n) x =
     (case find (\<lambda>i. ctx_readers (fst x) ! i \<noteq> Ended) [0..<length (ctx_readers (fst x))] of
        None \<Rightarrow> x
      | Some i \<Rightarrow> take_turns P fd n (shared_read_turn P fd i x))"

lemma owed_0 [simp]: "owed r = 0 \<longleftrightarrow> r = Ended"
  by (cases r) simp_all

text \<open>Enough turns in this order are a run to the end.\<close>

lemma take_turns_ends:
  assumes st: "setting P H budget left I path inode content" and "shared_inv P H fd inode content off x"
    and "turns_left content off (fst x) \<le> n"
  shows "(\<exists>m. shared_run P H fd x m (take_turns P fd n x)) \<and>
    list_all ((=) Ended) (ctx_readers (fst (take_turns P fd n x)))"
  using assms(2,3)
proof (induction n arbitrary: off x)
  case 0
  then show ?case by (auto simp: turns_left_def list_all_iff intro: shared_run.created)
next
  case (Suc n)
  show ?case
  proof (cases "find (\<lambda>i. ctx_readers (fst x) ! i \<noteq> Ended) [0..<length (ctx_readers (fst x))]")
    case None
    then have "list_all ((=) Ended) (ctx_readers (fst x))" by (fastforce simp: find_None_iff list_all_length)
    with None show ?thesis by (auto intro: shared_run.created)
  next
    case (Some i)
    then have i: "i < length (ctx_readers (fst x))" "ctx_readers (fst x) ! i \<noteq> Ended"
      by (auto simp: find_Some_iff)
    from shared_turn [OF st Suc.prems(1) i] Suc.prems(2) obtain off'
      where "shared_inv P H fd inode content off' (shared_read_turn P fd i x)"
        "turns_left content off' (fst (shared_read_turn P fd i x)) \<le> n" by fastforce
    note IH = Suc.IH [OF this]
    moreover have "shared_run P H fd x (Suc 0) (shared_read_turn P fd i x)" using i by (intro shared_run.intros)
    ultimately show ?thesis using Some by (auto intro: shared_run_trans)
  qed
qed

lemma shared_run_ends:
  assumes "setting P H budget left I path inode content" and "shared_inv P H fd inode content off x"
  shows "\<exists>n y. shared_run P H fd x n y \<and> list_all ((=) Ended) (ctx_readers (fst y))"
  using take_turns_ends [OF assms order_refl] by blast

lemma shared_inv_start:
  assumes "at_rest P H s" and "fd_table P s fd = Some (record_at fd inode 0)"
  shows "shared_inv P H fd inode content 0 (shared_ctx threads, s)"
  using assms by (simp add: shared_inv_def shared_ctx_def sum_list_replicate)

lemma shared_fd_open_ok:
  assumes st: "setting P H budget left I path inode content" and s: "at_rest P H (snd th)"
  shows "\<exists>fd k t. shared_fd_open P I path th = (Some fd, (k, t)) \<and> at_rest P H t \<and>
    fd_table P t fd = Some (record_at fd inode 0)"
proof -
  from client_open_ok [OF st s, of "fst th"] obtain fd k' t'
    where o: "client_open P I path th = (fd, (k', t'))" "0 \<le> fd" "at_rest P H t'"
      "fd_table P t' fd = Some (record_at fd inode 0)" by auto
  from client_lseek_ok [OF st o(3,4), of SEEK_SET 0 0 k'] obtain k2 t2
    where l: "client_lseek P I fd 0 SEEK_SET (k', t') = (0, (k2, t2))" "at_rest P H t2"
      "fd_table P t2 fd = Some (record_at fd inode 0)" by auto
  then show ?thesis using o by (simp add: shared_fd_open_def)
qed

text \<open>What a run from the start has come to: bounded, and at its end a success.\<close>

lemma shared_run_verdict:
  assumes st: "setting P H budget left I path inode content" and s: "at_rest P H s"
    and e: "fd_table P s fd = Some (record_at fd inode 0)" and "0 < threads"
    and "shared_run P H fd (shared_ctx threads, s) n (c, t)"
  shows "n \<le> 2 * length content + threads"
    and "\<exists>off. shared_inv P H fd inode content off (c, t)"
    and "list_all ((=) Ended) (ctx_readers c) \<Longrightarrow> unat (ctx_total c) = length content \<and>
      fst (shared_fd_verdict P I fd (measured path content iterations) threads c (k, t)) = 0"
proof -
  from shared_run_inv [OF st shared_inv_start [OF s e], of threads n "(c, t)"] assms(5) obtain off
    where inv: "shared_inv P H fd inode content off (c, t)"
      and bound: "turns_left content off c + n \<le> turns_left content 0 (shared_ctx threads)"
      and len: "length (ctx_readers c) = threads" by (auto simp: shared_ctx_def)
  show "\<exists>off. shared_inv P H fd inode content off (c, t)" using inv by blast
  show "n \<le> 2 * length content + threads"
    using bound by (simp add: turns_left_def [of _ 0] shared_ctx_def sum_list_replicate)
  assume "list_all ((=) Ended) (ctx_readers c)"
  then have "ctx_readers c = replicate threads Ended" using len by (auto simp: list_all_iff intro: replicate_eqI)
  then have tot: "unat (ctx_total c) = length content" "ctx_errors c = 0"
    using inv assms(4) by (auto simp: shared_inv_def sum_list_replicate)
  have "ctx_total c = word_of_nat (length content)" using tot(1) [symmetric] by simp
  moreover obtain k3 t3 where "client_close P I fd (k, t) = (0, (k3, t3))"
    using client_close_ok [OF st] inv by (fastforce simp: shared_inv_def)
  ultimately show "unat (ctx_total c) = length content \<and>
      fst (shared_fd_verdict P I fd (measured path content iterations) threads c (k, t)) = 0"
    using tot len by (simp add: shared_fd_verdict_def measured_def)
qed

text \<open>
  C7. Reading one descriptor from several threads: whatever the order of their turns and whatever
  other threads do with other handles in between, the threads together take at most two turns for
  each byte of the file and one each, and from every point they can reach the end. When all have
  ended, no read has failed and the bytes they counted are the size of the file, none lost and none
  delivered twice, so that the verdict of \<open>run_shared_fd_read\<close> is success.
\<close>

theorem shared_read_complete:
  assumes "setting P H budget left I path inode content" and "at_rest P H s" and "0 < threads"
    and "shared_fd_open P I path (k, s) = (fd_opt, (k1, s1))"
    and "shared_run P H (the fd_opt) (shared_ctx threads, s1) n (c, t)"
  shows "fd_opt \<noteq> None \<and> n \<le> 2 * length content + threads \<and>
    (\<exists>m y. shared_run P H (the fd_opt) (c, t) m y \<and> list_all ((=) Ended) (ctx_readers (fst y))) \<and>
    (list_all ((=) Ended) (ctx_readers c) \<longrightarrow>
       unat (ctx_total c) = length content \<and>
       fst (shared_fd_verdict P I (the fd_opt) (measured path content iterations) threads c (k1, t)) = 0)"
proof -
  from shared_fd_open_ok [OF assms(1), of "(k, s)"] assms(2,4) obtain fd
    where o: "fd_opt = Some fd" "at_rest P H s1" "fd_table P s1 fd = Some (record_at fd inode 0)" by auto
  note verdict = shared_run_verdict [OF assms(1) o(2,3) assms(3), of n c t]
  show ?thesis using verdict assms(5) o(1) shared_run_ends [OF assms(1)] by auto
qed

theorem shared_read_complete_witness:
  "\<exists>fd k s n c t. shared_fd_open sample_env busy_schedule ''/hook/d/a'' (0, sample_loaded) = (Some fd, (k, s)) \<and>
    shared_run sample_env m_open fd (shared_ctx 2, s) n (c, t) \<and> n \<le> 12 \<and> unat (ctx_total c) = 5 \<and>
    fst (shared_fd_verdict sample_env busy_schedule fd (measured ''/hook/d/a'' sample_bytes 1) 2 c (k, t)) = 0"
proof -
  obtain fd_opt k s where o: "shared_fd_open sample_env busy_schedule ''/hook/d/a'' (0, sample_loaded) = (fd_opt, (k, s))"
    by (metis prod.collapse)
  note complete = shared_read_complete [OF sample_setting sample_at_rest _ o, where threads = 2 and iterations = 1]
  from complete [OF _ shared_run.created] obtain fd n c t
    where run: "fd_opt = Some fd" "shared_run sample_env m_open fd (shared_ctx 2, s) n (c, t)"
      "list_all ((=) Ended) (ctx_readers c)" by auto
  moreover have "length sample_bytes = 5" by (simp add: sample_bytes_def)
  ultimately show ?thesis using complete [of n c t] o by auto
qed

end
