(* ===== verification/Test_Main.thy ===== *)
theory Test_Main
  imports Shared_Read
begin

text \<open>
  The entry point of \<open>src/test_concurrent.c\<close>: its arguments and environment variables, and the exit
  status that its two tests lead to. \<open>strtol\<close> in base ten is written out as the C standard has it.
\<close>

section \<open>Definitions\<close>

definition is_space :: "char \<Rightarrow> bool" where
  "is_space c \<longleftrightarrow> c = CHR '' '' \<or> 9 \<le> (of_char c :: nat) \<and> (of_char c :: nat) \<le> 13"

definition is_digit :: "char \<Rightarrow> bool" where
  "is_digit c \<longleftrightarrow> 48 \<le> (of_char c :: nat) \<and> (of_char c :: nat) \<le> 57"

definition decimal :: "string \<Rightarrow> nat" where
  "decimal = foldl (\<lambda>v c. 10 * v + (of_char c - 48)) 0"

text \<open>The bounds of \<open>long\<close>, at which \<open>strtol\<close> saturates.\<close>

definition clamp_long :: "config \<Rightarrow> int \<Rightarrow> int" where
  "clamp_long c v = max (- (2 ^ (8 * sizeof_long c - 1))) (min (2 ^ (8 * sizeof_long c - 1) - 1) v)"

text \<open>The value and what \<open>*end\<close> points to: the whole string when there is nothing to convert.\<close>

definition strtol10 :: "config \<Rightarrow> string \<Rightarrow> int \<times> string" where
  "strtol10 c s =
     (let t = dropWhile is_space s;
          negative = (t \<noteq> [] \<and> hd t = CHR ''-'');
          u = (if t \<noteq> [] \<and> (hd t = CHR ''-'' \<or> hd t = CHR ''+'') then tl t else t);
          digits = takeWhile is_digit u
      in if digits = [] then (0, s)
         else (clamp_long c (if negative then - int (decimal digits) else int (decimal digits)),
               dropWhile is_digit u))"

definition parse_positive :: "config \<Rightarrow> string option \<Rightarrow> nat \<Rightarrow> nat" where
  "parse_positive c s fallback =
     (case s of
        None \<Rightarrow> fallback
      | Some str \<Rightarrow>
          (case strtol10 c str of
             (value, end) \<Rightarrow>
               if end = str \<or> end \<noteq> [] \<or> value \<le> 0 \<or> value > 1024 then fallback else nat value))"

text \<open>The numbers of threads and iterations; \<open>argv\<close> begins with the name of the program.\<close>

definition test_threads :: "('w, 'h) env \<Rightarrow> string list \<Rightarrow> nat" where
  "test_threads P argv =
     (if length argv > 2 then parse_positive (cfg P) (Some (argv ! 2)) 8
      else parse_positive (cfg P) (getenv (cfg P) ''HOOKSQFS_TEST_THREADS'') 8)"

definition test_iterations :: "('w, 'h) env \<Rightarrow> string list \<Rightarrow> nat" where
  "test_iterations P argv =
     (if length argv > 3 then parse_positive (cfg P) (Some (argv ! 3)) 32
      else parse_positive (cfg P) (getenv (cfg P) ''HOOKSQFS_TEST_ITERS'') 32)"

text \<open>
  The threads that were started, as the program finds them when it has joined them: whether there
  was memory for the arrays of each of the two tests, the independent workers with their schedules and starting states, the thread of \<open>main\<close> after that, and what the
  readers of the shared descriptor leave, \<open>joined fd th\<close>, when they start from \<open>th\<close>.
\<close>

record ('w, 'h) threads_run =
  run_allocated :: "bool \<times> bool"
  run_workers :: "(('w, 'h) schedule \<times> ('w, 'h) thread) list"
  run_after :: "('w, 'h) thread"
  run_joined :: "int \<Rightarrow> ('w, 'h) thread \<Rightarrow> SharedReadCtx \<times> ('w, 'h) thread"

definition run_shared_fd_read :: "('w, 'h) env \<Rightarrow> ('w, 'h) schedule \<Rightarrow> TestConfig \<Rightarrow> nat \<Rightarrow> bool \<Rightarrow>
    (int \<Rightarrow> ('w, 'h) thread \<Rightarrow> SharedReadCtx \<times> ('w, 'h) thread) \<Rightarrow> ('w, 'h) thread \<Rightarrow> int" where
  "run_shared_fd_read P I c threads allocated joined th =
     (if \<not> allocated then -1
      else
      case shared_fd_open P I (cfg_path c) th of
        (None, th1) \<Rightarrow> -1
      | (Some fd, th1) \<Rightarrow> (case joined fd th1 of (ctx, th2) \<Rightarrow> fst (shared_fd_verdict P I fd c threads ctx th2)))"

text \<open>The exit status.\<close>

definition test_main :: "('w, 'h) env \<Rightarrow> ('w, 'h) schedule \<Rightarrow> string list \<Rightarrow> ('w, 'h) threads_run \<Rightarrow> ('w, 'h) thread \<Rightarrow> int" where
  "test_main P I argv r th =
     (if length argv < 2 then 2
      else
        let threads = test_threads P argv
        in (case fst (baseline P I (argv ! 1) (test_iterations P argv) th) of
              None \<Rightarrow> 1
            | Some c \<Rightarrow>
                let errors = (if run_independent_workers P c (fst (run_allocated r)) (run_workers r) threads \<noteq> 0 then 1 else 0) +
                      (if run_shared_fd_read P I c threads (snd (run_allocated r)) (run_joined r) (run_after r) \<noteq> 0 then 1 else 0 :: nat)
                in if errors \<noteq> 0 then 1 else 0))"

section \<open>Arguments\<close>

lemma digit_char_digit:
  assumes "n < 10"
  shows "of_char (digit_char n) = 48 + n" and "is_digit (digit_char n)"
  using assms by (simp_all add: digit_char_def is_digit_def)

lemma show_nat_shape:
  "show_nat n \<noteq> [] \<and> list_all is_digit (show_nat n) \<and> decimal (show_nat n) = n"
proof (induction n rule: less_induct)
  case (less n)
  show ?case
  proof (cases "n < 10")
    case True
    then show ?thesis by (simp add: show_base.simps [of 10 n] digit_char_digit decimal_def)
  next
    case False
    then have "show_nat n = show_nat (n div 10) @ [digit_char (n mod 10)]" by (simp add: show_base.simps [of 10 n])
    then show ?thesis using less [of "n div 10"] False by (simp add: digit_char_digit decimal_def)
  qed
qed

lemma digit_no_sign: "is_digit c \<Longrightarrow> \<not> is_space c \<and> c \<noteq> CHR ''-'' \<and> c \<noteq> CHR ''+''"
  by (auto simp: is_digit_def is_space_def)

text \<open>A decimal numeral is read back, and leaves nothing over.\<close>

lemma strtol_shown:
  assumes "sizeof_long c = 4 \<or> sizeof_long c = 8" and "n < 2 ^ 31"
  shows "strtol10 c (show_nat n) = (int n, [])"
proof -
  obtain d ds where s: "show_nat n = d # ds" "is_digit d" "list_all is_digit ds" "decimal (d # ds) = n"
    using show_nat_shape [of n] by (cases "show_nat n") auto
  have all: "takeWhile is_digit ds = ds" "dropWhile is_digit ds = []"
    using s(3) by (simp_all add: list_all_iff takeWhile_eq_all_conv dropWhile_eq_Nil_conv)
  have "clamp_long c (int n) = int n" using assms by (auto simp: clamp_long_def)
  then show ?thesis using s digit_no_sign [OF s(2)] by (simp add: strtol10_def Let_def all)
qed

lemma parse_positive_shown:
  assumes "sizeof_long c = 4 \<or> sizeof_long c = 8" and "n < 2 ^ 31"
  shows "parse_positive c (Some (show_nat n)) fallback = (if 0 < n \<and> n \<le> 1024 then n else fallback)"
  using strtol_shown [OF assms] show_nat_shape [of n] by (simp add: parse_positive_def eq_commute [of "[]"])

lemma parse_positive_range:
  "0 < fallback \<Longrightarrow> fallback \<le> 1024 \<Longrightarrow> 0 < parse_positive c s fallback \<and> parse_positive c s fallback \<le> 1024"
  by (auto simp: parse_positive_def split: option.split prod.split)

section \<open>The exit status\<close>

text \<open>
  Threads that ran as the program can find them, for a file of the image: all were created, every worker started at
  rest under a schedule to rely on, the process is at rest after them, and the readers of the shared
  descriptor took turns until all had ended.
\<close>

definition proper_run :: "('w, 'h) env \<Rightarrow> ('w \<Rightarrow> handle set) \<Rightarrow> ('w \<Rightarrow> nat) \<Rightarrow> (ptr \<Rightarrow> 'w \<Rightarrow> nat) \<Rightarrow>
    string \<Rightarrow> sqfs_inode \<Rightarrow> byte list \<Rightarrow> nat \<Rightarrow> ('w, 'h) threads_run \<Rightarrow> bool" where
  "proper_run P H budget left path inode content threads r \<longleftrightarrow>
     run_allocated r = (True, True) \<and> length (run_workers r) = threads \<and>
     list_all (\<lambda>(J, th). setting P H budget left J path inode content \<and> at_rest P H (snd th)) (run_workers r) \<and>
     at_rest P H (snd (run_after r)) \<and>
     (\<forall>fd k s. at_rest P H s \<longrightarrow> fd_table P s fd = Some (record_at fd inode 0) \<longrightarrow>
        (\<exists>n c k' t. run_joined r fd (k, s) = (c, (k', t)) \<and>
           shared_run P H fd (shared_ctx threads, s) n (c, t) \<and> list_all ((=) Ended) (ctx_readers c)))"

lemma run_shared_ok:
  assumes st: "setting P H budget left I path inode content"
    and r: "proper_run P H budget left path inode content threads r" and "0 < threads"
  shows "run_shared_fd_read P I (measured path content iterations) threads True (run_joined r) (run_after r) = 0"
proof -
  from shared_fd_open_ok [OF st, of "run_after r"] r obtain fd k s
    where o: "shared_fd_open P I path (run_after r) = (Some fd, (k, s))" "at_rest P H s"
      "fd_table P s fd = Some (record_at fd inode 0)" by (auto simp: proper_run_def)
  with r obtain n c k' t where j: "run_joined r fd (k, s) = (c, (k', t))"
      "shared_run P H fd (shared_ctx threads, s) n (c, t)" "list_all ((=) Ended) (ctx_readers c)"
    unfolding proper_run_def by blast
  from shared_run_verdict(3) [OF st o(2,3) assms(3) j(2,3), of iterations k'] show ?thesis
    using o(1) j(1) by (simp add: run_shared_fd_read_def measured_def)
qed

lemma run_workers_ok:
  assumes "proper_run P H budget left path inode content threads r"
  shows "run_independent_workers P (measured path content n) True (run_workers r) threads = 0"
  using assms by (auto simp: proper_run_def list_all_iff intro!: independent_workers_ok)

text \<open>
  C6. The concurrency test passes: called with the path of a file of the image, and with numbers of
  threads and iterations in its arguments, in the environment or neither, it exits with status 0
  whatever the other threads of the process do to other handles, and whatever the order in which
  the readers of the shared descriptor take their turns.
\<close>

theorem concurrent_test_passes:
  assumes "setting P H budget left I path inode content" and "at_rest P H s"
    and "proper_run P H budget left path inode content (test_threads P (prog # path # args)) r"
  shows "test_main P I (prog # path # args) r (k, s) = 0"
proof -
  let ?argv = "prog # path # args"
  have "0 < test_threads P ?argv" by (simp add: test_threads_def parse_positive_range)
  with baseline_ok [OF assms(1), of "(k, s)" "test_iterations P ?argv"] run_workers_ok [OF assms(3)]
    run_shared_ok [OF assms(1,3)] assms(2,3)
  show ?thesis by (auto simp: test_main_def Let_def proper_run_def)
qed

text \<open>The sample with two workers and two readers that take turns in one order.\<close>

definition sample_run_of_threads :: "(machine, (int \<times> ptr) list) threads_run" where
  "sample_run_of_threads =
     \<lparr>run_allocated = (True, True), run_workers = [(busy_schedule, (0, sample_loaded)), (busy_schedule, (1, sample_loaded))],
      run_after = (5, sample_loaded),
      run_joined = (\<lambda>fd (k, s). case take_turns sample_env fd 12 (shared_ctx 2, s) of (c, t) \<Rightarrow> (c, (k, t)))\<rparr>"

lemma sample_proper_run:
  "proper_run sample_env m_open m_interrupts (\<lambda>r. m_listing) ''/hook/d/a'' sample_file sample_bytes 2 sample_run_of_threads"
proof -
  have "(\<exists>n. shared_run sample_env m_open fd (shared_ctx 2, s) n (take_turns sample_env fd 12 (shared_ctx 2, s))) \<and>
      list_all ((=) Ended) (ctx_readers (fst (take_turns sample_env fd 12 (shared_ctx 2, s))))"
    if "at_rest sample_env m_open s" "fd_table sample_env s fd = Some (record_at fd sample_file 0)" for fd s
    using take_turns_ends [OF sample_setting shared_inv_start [OF that], of 2 12]
    by (simp add: turns_left_def shared_ctx_def sample_bytes_def sum_list_replicate)
  then show ?thesis
    unfolding proper_run_def sample_run_of_threads_def
    using sample_setting sample_at_rest by (simp add: split_beta)
qed

theorem concurrent_test_passes_witness:
  "test_main sample_env busy_schedule [''test_concurrent'', ''/hook/d/a'', ''2'', ''16''] sample_run_of_threads (0, sample_loaded) = 0"
proof -
  have "test_threads sample_env [''test_concurrent'', ''/hook/d/a'', ''2'', ''16''] = 2"
    by (simp add: test_threads_def parse_positive_def strtol10_def is_space_def is_digit_def decimal_def clamp_long_def)
  with concurrent_test_passes [OF sample_setting sample_at_rest, of "''test_concurrent''" "[''2'', ''16'']"]
  show ?thesis using sample_proper_run by simp
qed

end
