(* ===== verification/Listing.thy ===== *)
theory Listing
  imports File_Spec Dir_Spec
begin

text \<open>
  The diagnostic listing at the end of \<open>src/sqfs_mgr.c\<close>: \<open>test_sqfs_listing\<close> loads the image, logs
  the name, the size and the first sixteen bytes of every file in its root directory, and unloads
  the image again. No hook calls it.
\<close>

section \<open>Definitions\<close>

definition hex_digit :: "byte \<Rightarrow> char" where
  "hex_digit b = ''0123456789abcdef'' ! unat b"

text \<open>The terminating \<open>NUL\<close> of the C string is the end of the list.\<close>

fun bytes_to_hex :: "byte list \<Rightarrow> string" where
  "bytes_to_hex [] = []"
| "bytes_to_hex (b # bs) = hex_digit (drop_bit 4 b) # hex_digit (b AND 0x0F) # bytes_to_hex bs"

definition entry_text :: "sqfs_dir_entry \<Rightarrow> string" where
  "entry_text entry = ''  '' @ take (entry_size entry + 1) (entry_name entry)"

text \<open>
  One round of the loop, from the entry that was read on; every \<open>continue\<close> ends it. Sixteen is
  \<open>sizeof(head)\<close>: more bytes than that would be read from behind the buffer.
\<close>

definition listing_entry ::
    "('w, 'h) env \<Rightarrow> ptr \<Rightarrow> sqfs_dir_entry \<Rightarrow> ('w, 'h) proc \<Rightarrow> ('w, 'h) proc" where
  "listing_entry P dir entry s =
     (if entry_type entry \<noteq> SQFS_INODE_FILE \<and> entry_type entry \<noteq> SQFS_INODE_EXT_FILE then entry_free s
      else
        (case sys_call (sqfs_dir_reader_get_inode (lib P) dir) s of
           ((ret, inode), s1) \<Rightarrow>
             if ret \<noteq> 0 then
               entry_free (log_msg P (entry_text entry @ '' size=? head16=<inode error '' @ show_int ret @ ''>'' @ nl) s1)
             else
               (case inode of
                  None \<Rightarrow> set_trap Faulted s1
                | Some i \<Rightarrow>
                    let s2 = got_inode inode s1;
                        (ret2, file_size) = sqfs_inode_get_file_size (lib P) i
                    in if ret2 \<noteq> 0 then
                         entry_free (free_inode inode (log_msg P (entry_text entry @
                           '' size=? head16=<size error '' @ show_int ret2 @ ''>'' @ nl) s2))
                       else
                         let want = (if file_size < 16 then ucast file_size else 16) :: u32
                         in (case (if want > 0 then
                                     (case mgr_data_reader s2 of
                                        None \<Rightarrow> ((-1, []), set_trap Faulted s2)
                                      | Some r \<Rightarrow> sys_call (sqfs_data_reader_read (lib P) r i 0 want) s2)
                                   else ((0, []), s2)) of
                               ((got, head), s3) \<Rightarrow>
                                 if got < 0 then
                                   entry_free (free_inode inode (log_msg P (entry_text entry @ '' size='' @
                                     show_nat (unat file_size) @ '' head16=<read error '' @ show_int got @ ''>'' @ nl) s3))
                                 else if got > 16 then set_trap Faulted s3
                                 else
                                   entry_free (free_inode inode (log_msg P (entry_text entry @ '' size='' @
                                     show_nat (unat file_size) @ '' head16='' @
                                     bytes_to_hex (take (nat got) head) @ nl) s3))))))"

partial_function (option) listing_loop ::
    "('w, 'h) env \<Rightarrow> ptr \<Rightarrow> ('w, 'h) proc \<Rightarrow> ('w, 'h) proc option" where
  "listing_loop E dir s =
     (case sys_call (sqfs_dir_reader_read (lib E) dir) s of
        ((ret, entry), s1) \<Rightarrow>
          if ret > 0 then Some s1
          else if ret < 0 then Some (log_msg E (''sqfs_dir_reader_read failed: '' @ show_int ret @ nl) s1)
          else
            (case entry of
               None \<Rightarrow> Some (set_trap Faulted s1)
             | Some d \<Rightarrow>
                 listing_loop E dir (listing_entry E dir d (s1\<lparr>live_dir_entries := live_dir_entries s1 + 1\<rparr>))))"

text \<open>The label \<open>out\<close>. \<open>sqfs_destroy\<close> is called for a \<open>NULL\<close> reader too; 0 is that address.\<close>

definition listing_out ::
    "('w, 'h) env \<Rightarrow> sqfs_inode option \<Rightarrow> ptr option \<Rightarrow> ('w, 'h) proc \<Rightarrow> ('w, 'h) proc" where
  "listing_out P root dir s =
     (let s1 = free_inode root s;
          s2 = (case dir of None \<Rightarrow> snd (sys_call (sqfs_destroy (lib P) 0) s1) | Some r \<Rightarrow> destroy_reader P r s1)
      in sqfs_unlock (sqfs_mgr_unload_image P s2))"

definition listing_root :: "('w, 'h) env \<Rightarrow> ptr \<Rightarrow> ('w, 'h) proc \<Rightarrow> ('w, 'h) proc" where
  "listing_root P dir s =
     (case sys_call (sqfs_dir_reader_get_root_inode (lib P) dir) s of
        ((ret, root), s1) \<Rightarrow>
          if ret \<noteq> 0 then
            listing_out P None (Some dir)
              (log_msg P (''sqfs_dir_reader_get_root_inode failed: '' @ show_int ret @ nl) s1)
          else
            (case root of
               None \<Rightarrow> set_trap Faulted s1
             | Some i \<Rightarrow>
                 (case sys_call (sqfs_dir_reader_open_dir (lib P) dir i) (got_inode root s1) of
                    (ret2, s2) \<Rightarrow>
                      if ret2 \<noteq> 0 then
                        listing_out P root (Some dir)
                          (log_msg P (''sqfs_dir_reader_open_dir failed: '' @ show_int ret2 @ nl) s2)
                      else
                        let s3 = log_msg P (''/ files:'' @ nl) s2
                        in (case listing_loop P dir s3 of
                              None \<Rightarrow> set_trap Hung s3
                            | Some s4 \<Rightarrow> listing_out P root (Some dir) s4))))"

definition test_sqfs_listing :: "('w, 'h) env \<Rightarrow> ('w, 'h) proc \<Rightarrow> ('w, 'h) proc" where
  "test_sqfs_listing P s =
     (let s1 = sqfs_lock (snd (sqfs_mgr_load_image P s))
      in if \<not> sqfs_mgr_loaded_locked s1 then listing_out P None None s1
         else
           (case create_dir_reader P s1 of
              (None, s2) \<Rightarrow> listing_out P None None (log_msg P (''sqfs_dir_reader_create failed'' @ nl) s2)
            | (Some dir, s2) \<Rightarrow> listing_root P dir s2))"

section \<open>Hexadecimal\<close>

definition hex_value :: "char \<Rightarrow> byte" where
  "hex_value c = (let n = of_char c in if n < 58 then n - 48 else n - 87)"

fun hex_to_bytes :: "string \<Rightarrow> byte list" where
  "hex_to_bytes (a # b # cs) = (push_bit 4 (hex_value a) OR hex_value b) # hex_to_bytes cs"
| "hex_to_bytes cs = []"

lemma hex_value_digit:
  assumes "unat n < 16"
  shows "hex_value (hex_digit n) = n"
proof -
  have "list_all (\<lambda>k. hex_value (''0123456789abcdef'' ! k) = word_of_nat k) [0..<16]" by code_simp
  then have "hex_value (''0123456789abcdef'' ! unat n) = word_of_nat (unat n)"
    using assms by (simp add: list_all_iff)
  then show ?thesis by (simp add: hex_digit_def)
qed

lemma nibbles:
  "unat (drop_bit 4 (b :: byte)) < 16" "unat (b AND 0x0F) < 16"
  "push_bit 4 (drop_bit 4 b) OR (b AND 0x0F) = b"
proof -
  have "unat b < 2 ^ LENGTH(8)" by (rule unsigned_less)
  then show "unat (drop_bit 4 b) < 16" by (simp add: drop_bit_eq_div unat_div)
  have mask: "(0x0F :: byte) = mask 4" by (simp add: mask_eq_exp_minus_1)
  show "unat (b AND 0x0F) < 16"
    unfolding mask by (simp add: take_bit_eq_mask [symmetric] take_bit_eq_mod unat_mod)
  show "push_bit 4 (drop_bit 4 b) OR (b AND 0x0F) = b"
    unfolding mask by (rule bit_word_eqI) (auto simp: bit_simps)
qed

text \<open>
  The hexadecimal text that the listing prints is faithful: it has two digits for every byte
  and reading it back gives the bytes.
\<close>

lemma bytes_to_hex_roundtrip:
  "hex_to_bytes (bytes_to_hex bs) = bs \<and> length (bytes_to_hex bs) = 2 * length bs"
  by (induction bs) (simp_all add: hex_value_digit nibbles)

section \<open>What the listing keeps\<close>

text \<open>
  The laws of libsquashfs for the listing: the root inode is stored on success, the data reader
  returns at most as many bytes as it was asked for, and neither reading data nor logging moves
  a directory reader back.
\<close>

definition listing_laws :: "'w libc \<Rightarrow> 'w libsquashfs \<Rightarrow> (ptr \<Rightarrow> 'w \<Rightarrow> nat) \<Rightarrow> bool" where
  "listing_laws L Q left \<longleftrightarrow>
     (\<forall>r w. case sqfs_dir_reader_get_root_inode Q r w of ((ret, i), e, w') \<Rightarrow> ret = 0 \<longrightarrow> i \<noteq> None) \<and>
     (\<forall>r i off n w. case sqfs_data_reader_read Q r i off n w of
        ((ret, bytes), e, w') \<Rightarrow> ret \<le> int (unat n) \<and> (\<forall>d. left d w' \<le> left d w)) \<and>
     (\<forall>fd p d w. left d (snd (snd (sys_write L fd p w))) \<le> left d w) \<and>
     (\<forall>path flags mode d w. left d (snd (snd (sys_openat L path flags mode w))) \<le> left d w)"

lemma listing_lawsD:
  assumes "listing_laws L Q left"
  shows "sqfs_dir_reader_get_root_inode Q r w = ((0, i), e, w') \<Longrightarrow> i \<noteq> None"
    and "sqfs_data_reader_read Q r j off n w = ((ret, bytes), e, w') \<Longrightarrow> ret \<le> int (unat n) \<and> left d w' \<le> left d w"
proof -
  note laws = assms [unfolded listing_laws_def]
  show "i \<noteq> None" if "sqfs_dir_reader_get_root_inode Q r w = ((0, i), e, w')"
    using laws [THEN conjunct1, THEN spec, THEN spec, of r w] that by simp
  show "ret \<le> int (unat n) \<and> left d w' \<le> left d w" if "sqfs_data_reader_read Q r j off n w = ((ret, bytes), e, w')"
    using spec [OF spec [OF spec [OF spec [OF spec [OF laws [THEN conjunct2, THEN conjunct1], of r], of j], of off], of n], of w]
      that by simp
qed

text \<open>
  A bound that only shrinks, as a set of handles that only grows: with it the frame lemmas of the
  handles speak about the bound as well.
\<close>

definition bound_handles :: "('w \<Rightarrow> nat) \<Rightarrow> 'w \<Rightarrow> handle set" where
  "bound_handles b w = {Descriptor (int k) | k. b w \<le> k}"

lemma bound_handles_subset: "bound_handles b w \<subseteq> bound_handles b w' \<longleftrightarrow> b w' \<le> b w"
  unfolding bound_handles_def by auto

lemma bound_keeps: "keeps (bound_handles b) f \<longleftrightarrow> (\<forall>w. b (snd (snd (f w))) \<le> b w)"
  by (simp add: keeps_def bound_handles_subset)

text \<open>The calls of one round, for any observation \<open>H\<close> of the outside state that they only let grow.\<close>

definition round_keeps :: "('w, 'h) env \<Rightarrow> ptr \<Rightarrow> ('w \<Rightarrow> handle set) \<Rightarrow> bool" where
  "round_keeps P dir H \<longleftrightarrow>
     (\<forall>m s. steady H s (log_msg P m s)) \<and> keeps H (sqfs_dir_reader_get_inode (lib P) dir) \<and>
     (\<forall>r i off n. keeps H (sqfs_data_reader_read (lib P) r i off n))"

lemma round_keeps_handles: "platform_ok P H budget left \<Longrightarrow> round_keeps P dir H"
  using platform_okD(2,3) [of P H budget left] by (simp add: round_keeps_def steady_log_msg lib_keepsD(7,13))

lemma round_keeps_bound:
  assumes ok: "platform_ok P H budget left" and laws: "listing_laws (libc P) (lib P) left"
  shows "round_keeps P dir (bound_handles (left dir))"
proof -
  have "calm (bound_handles (left dir)) s (log_write P m s)" for m s
    by (rule log_write_quiet [OF kernel_okD(1) [OF platform_okD(2) [OF ok]]])
      (use laws in \<open>simp_all add: bound_keeps listing_laws_def\<close>)
  then have "steady (bound_handles (left dir)) s (log_msg P m s)" for m s
    using log_msg.core [of s P m] by (simp add: steady_def log_msg_def split: option.split)
  moreover have "left dir (snd (snd (sqfs_dir_reader_get_inode (lib P) dir w))) \<le> left dir w" for w
    using listing_okD(2) [OF platform_okD(4) [OF ok], of dir w] by (metis prod.collapse)
  moreover have "left dir (snd (snd (sqfs_data_reader_read (lib P) r i off n w))) \<le> left dir w" for r i off n w
    using listing_lawsD(2) [OF laws, of r i off n w] by (metis prod.collapse)
  ultimately show ?thesis by (simp add: round_keeps_def bound_keeps)
qed

lemma steady_counted:
  "steady H (s\<lparr>live_dir_entries := live_dir_entries s + 1\<rparr>) t \<Longrightarrow> steady H s (entry_free t)"
  "steady H (s\<lparr>live_inodes := live_inodes s + 1\<rparr>) t \<Longrightarrow> steady H s (free_inode (Some i) t)"
  by (simp_all add: steady_def core_eq_def calm_def entry_free_def free_inode_def)

text \<open>One round gives back what it took: the entry and, if it got one, the inode.\<close>

lemma listing_entry_steady:
  assumes keep: "round_keeps P dir H" and Q: "listing_ok (libc P) (lib P) left" "listing_laws (libc P) (lib P) left"
    and r: "mgr_data_reader s = Some r"
  shows "steady H s (listing_entry P dir entry (s\<lparr>live_dir_entries := live_dir_entries s + 1\<rparr>))"
proof -
  let ?s = "s\<lparr>live_dir_entries := live_dir_entries s + 1\<rparr>"
  have log: "steady H u (log_msg P m u)" for m u using keep by (simp add: round_keeps_def)
  obtain ret inode s1 where c1: "sys_call (sqfs_dir_reader_get_inode (lib P) dir) ?s = ((ret, inode), s1)"
    by (metis surj_pair)
  have s1: "steady H ?s s1" using steady_call' [OF _ c1] keep by (simp add: round_keeps_def)
  show ?thesis
  proof (cases "(entry_type entry = SQFS_INODE_FILE \<or> entry_type entry = SQFS_INODE_EXT_FILE) \<and> ret = 0")
    case False
    then show ?thesis
      using c1 steady_counted(1) [OF steady_trans [OF s1 log]] steady_counted(1) [of H s ?s]
      by (auto simp: listing_entry_def)
  next
    case True
    obtain err where "sqfs_dir_reader_get_inode (lib P) dir (os ?s) = ((ret, inode), err, os s1)"
      using sys_call_os [OF c1] by blast
    then obtain i where i: "inode = Some i" using listing_okD(2) [OF Q(1)] True by blast
    obtain ret2 fsz where fs: "sqfs_inode_get_file_size (lib P) i = (ret2, fsz)" by (metis surj_pair)
    define s2 where "s2 = got_inode inode s1"
    have s2: "steady H (?s\<lparr>live_inodes := live_inodes ?s + 1\<rparr>) s2"
      using s1 by (simp add: s2_def got_inode_def i steady_def core_eq_def calm_def)
    have r2: "mgr_data_reader s2 = Some r" using steadyD(5) [OF s2] r by simp
    define want :: u32 where "want = (if fsz < 16 then ucast fsz else 16)"
    define res where "res = (if want > 0 then sys_call (sqfs_data_reader_read (lib P) r i 0 want) s2 else ((0, []), s2))"
    obtain got head s3 where c3: "res = ((got, head), s3)" by (metis surj_pair)
    have s3: "steady H s2 s3"
      using c3 steady_call' [of H "sqfs_data_reader_read (lib P) r i 0 want" s2] keep
      by (auto simp: res_def round_keeps_def split: if_splits)
    have freed: "steady H s (entry_free (free_inode inode (log_msg P m u)))" if "steady H s2 u" for m u
      using steady_counted(2) [OF steady_trans [OF steady_trans [OF s2 that] log], of i m] i
      by (intro steady_counted(1)) simp
    have "unat fsz mod 2 ^ 32 \<le> unat fsz" by simp
    then have "want \<le> 16"
      by (simp add: want_def word_le_nat_alt word_less_nat_alt unsigned_ucast_eq unsigned_take_bit_eq take_bit_eq_mod
          del: mod_less_eq_dividend)
    then have w16: "unat want \<le> 16" by (simp add: word_le_nat_alt)
    have "got \<le> 16"
    proof (cases "want > 0")
      case True
      then have c: "sys_call (sqfs_data_reader_read (lib P) r i 0 want) s2 = ((got, head), s3)"
        using c3 by (simp add: res_def)
      obtain x where "sqfs_data_reader_read (lib P) r i 0 want (os s2) = ((got, head), x, os s3)"
        using sys_call_os [OF c] by blast
      from listing_lawsD(2) [OF Q(2) this] have "got \<le> int (unat want)" by blast
      with w16 show ?thesis by linarith
    qed (use c3 in \<open>simp add: res_def\<close>)
    moreover have kind: "(entry_type entry \<noteq> SQFS_INODE_FILE \<and> entry_type entry \<noteq> SQFS_INODE_EXT_FILE) = False"
      using True by blast
    moreover have read: "(if want > 0 then (case mgr_data_reader s2 of
          None \<Rightarrow> ((-1, []), set_trap Faulted s2)
        | Some r \<Rightarrow> sys_call (sqfs_data_reader_read (lib P) r i 0 want) s2) else ((0, []), s2)) = ((got, head), s3)"
      using c3 r2 by (simp add: res_def split: if_splits)
    moreover have "listing_entry P dir entry ?s =
        (if ret2 \<noteq> 0 then entry_free (free_inode inode (log_msg P (entry_text entry @
             '' size=? head16=<size error '' @ show_int ret2 @ ''>'' @ nl) s2))
         else if got < 0 then entry_free (free_inode inode (log_msg P (entry_text entry @ '' size='' @
             show_nat (unat fsz) @ '' head16=<read error '' @ show_int got @ ''>'' @ nl) s3))
         else if got > 16 then set_trap Faulted s3
         else entry_free (free_inode inode (log_msg P (entry_text entry @ '' size='' @ show_nat (unat fsz) @
             '' head16='' @ bytes_to_hex (take (nat got) head) @ nl) s3)))"
      by (simp only: listing_entry_def kind if_False c1 True simp_thms prod.case i option.case Let_def fs
          s2_def [unfolded i, symmetric] want_def [symmetric] read)
    ultimately show ?thesis using freed [OF s3] freed [of s2] by simp
  qed
qed

text \<open>The loop ends, and leaves everything as it was.\<close>

lemma listing_loop_steady:
  assumes ok: "platform_ok P H budget left" and laws: "listing_laws (libc P) (lib P) left"
  shows "mgr_data_reader s = Some r \<Longrightarrow> \<exists>t. listing_loop P dir s = Some t \<and> steady H s t"
proof (induction "left dir (os s)" arbitrary: s rule: less_induct)
  case less
  note K = platform_okD(2) [OF ok] and Q = platform_okD(3) [OF ok] and lok = platform_okD(4) [OF ok]
  obtain ret entry s1 where c: "sys_call (sqfs_dir_reader_read (lib P) dir) s = ((ret, entry), s1)"
    by (metis surj_pair)
  have s1: "steady H s s1" using lib_keepsD(12) [OF Q] c by (rule steady_call')
  show ?case
  proof (cases "ret = 0")
    case False
    then show ?thesis
      using c s1 steady_trans [OF s1 steady_log_msg [OF K]] by (subst listing_loop.simps) auto
  next
    case True
    obtain x where "sqfs_dir_reader_read (lib P) dir (os s) = ((0, entry), x, os s1)"
      using sys_call_os [OF c] True by blast
    with listing_okD(1) [OF lok] obtain d where d: "entry = Some d" "left dir (os s1) < left dir (os s)" by blast
    define s2 where "s2 = listing_entry P dir d (s1\<lparr>live_dir_entries := live_dir_entries s1 + 1\<rparr>)"
    have r1: "mgr_data_reader s1 = Some r" using steadyD(5) [OF s1] less.prems by simp
    have s2: "steady H s1 s2"
      unfolding s2_def using round_keeps_handles [OF ok] lok laws r1 by (rule listing_entry_steady)
    have "steady (bound_handles (left dir)) s1 s2"
      unfolding s2_def using round_keeps_bound [OF ok laws] lok laws r1 by (rule listing_entry_steady)
    then have "left dir (os s2) \<le> left dir (os s1)" using steadyD(16) by (metis bound_handles_subset)
    with d(2) have "left dir (os s2) < left dir (os s)" by simp
    moreover have "mgr_data_reader s2 = Some r" using steadyD(5) [OF s2] r1 by simp
    ultimately obtain t where t: "listing_loop P dir s2 = Some t" "steady H s2 t" using less.hyps by blast
    have "listing_loop P dir s = listing_loop P dir s2"
      using c True d(1) by (subst listing_loop.simps) (simp add: s2_def)
    with t steady_trans [OF s1 steady_trans [OF s2 t(2)]] show ?thesis by simp
  qed
qed

lemma load_frame_steady: "steady H s t \<Longrightarrow> load_frame H s t"
  using astray_core [of s t] by (simp add: load_frame_def steady_def core_eq_def)

text \<open>The label \<open>out\<close> gives back the reader and the root inode that the listing holds.\<close>

definition holding :: "ptr option \<Rightarrow> sqfs_inode option \<Rightarrow> ('w, 'h) proc \<Rightarrow> ('w, 'h) proc" where
  "holding dir root s =
     s\<lparr>live_readers := live_readers s + (if dir = None then 0 else 1),
       live_inodes := live_inodes s + (if root = None then 0 else 1)\<rparr>"

lemma listing_out_post:
  assumes Q: "lib_keeps (lib P) H" and lk: "can_lock s" and t: "steady H (holding dir root (sqfs_lock s)) t"
  shows "load_frame H s (listing_out P root dir t) \<and> image_unloaded (listing_out P root dir t)"
proof -
  have 1: "steady H ((sqfs_lock s)\<lparr>live_readers := live_readers (sqfs_lock s) + (if dir = None then 0 else 1)\<rparr>) (free_inode root t)"
    using t by (auto simp: holding_def steady_def core_eq_def calm_def free_inode_def)
  define u where "u = (case dir of None \<Rightarrow> snd (sys_call (sqfs_destroy (lib P) 0) (free_inode root t))
    | Some r \<Rightarrow> destroy_reader P r (free_inode root t))"
  have "steady H (sqfs_lock s) u"
  proof (cases dir)
    case None
    then show ?thesis using steady_trans [OF _ steady_call [OF lib_keepsD(14) [OF Q]]] 1 by (simp add: u_def)
  next
    case (Some r)
    then show ?thesis using steady_destroy_reader [OF Q, of "sqfs_lock s"] 1 by (simp add: u_def)
  qed
  then have f: "load_frame H (sqfs_lock s) (sqfs_mgr_unload_image P u)"
    by (intro unload_image_frame [OF Q] load_frame_steady)
  then have "0 < mutex_depth (sqfs_mgr_unload_image P u)" using lk by (simp add: load_frame_def)
  with unlock_frame [OF f] unload_image_empty [of P u] lk show ?thesis
    by (simp add: listing_out_def u_def Let_def image_unloaded_def)
qed

lemma listing_root_post:
  assumes ok: "platform_ok P H budget left" and laws: "listing_laws (libc P) (lib P) left" and lk: "can_lock s"
    and t: "steady H (holding (Some dir) None (sqfs_lock s)) t" and r: "mgr_data_reader t = Some r"
  shows "load_frame H s (listing_root P dir t) \<and> image_unloaded (listing_root P dir t)"
proof -
  note K = platform_okD(2) [OF ok] and Q = platform_okD(3) [OF ok]
  obtain ret root s1 where c1: "sys_call (sqfs_dir_reader_get_root_inode (lib P) dir) t = ((ret, root), s1)"
    by (metis surj_pair)
  have s1: "steady H (holding (Some dir) None (sqfs_lock s)) s1"
    using steady_trans [OF t steady_call' [OF lib_keepsD(9) [OF Q] c1]] .
  show ?thesis
  proof (cases "ret = 0")
    case False
    then show ?thesis
      using c1 listing_out_post [OF Q lk steady_trans [OF s1 steady_log_msg [OF K]]] by (simp add: listing_root_def)
  next
    case True
    obtain x where "sqfs_dir_reader_get_root_inode (lib P) dir (os t) = ((0, root), x, os s1)"
      using sys_call_os [OF c1] True by blast
    then obtain i where i: "root = Some i" using listing_lawsD(1) [OF laws] by blast
    define s2 where "s2 = got_inode (Some i) s1"
    have s2: "steady H (holding (Some dir) (Some i) (sqfs_lock s)) s2"
      using s1 by (auto simp: s2_def got_inode_def holding_def steady_def core_eq_def calm_def)
    obtain ret2 s3 where c3: "sys_call (sqfs_dir_reader_open_dir (lib P) dir i) s2 = (ret2, s3)"
      by (cases "sys_call (sqfs_dir_reader_open_dir (lib P) dir i) s2")
    have s3: "steady H (holding (Some dir) (Some i) (sqfs_lock s)) s3"
      using steady_trans [OF s2 steady_call' [OF lib_keepsD(11) [OF Q] c3]] .
    define s4 where "s4 = log_msg P (''/ files:'' @ nl) s3"
    have s4: "steady H (holding (Some dir) (Some i) (sqfs_lock s)) s4"
      unfolding s4_def using s3 steady_log_msg [OF K] by (rule steady_trans)
    have "mgr_data_reader s4 = Some r"
      using steadyD(5) [OF s4] steadyD(5) [OF t] r by (simp add: holding_def)
    then obtain s5 where s5: "listing_loop P dir s4 = Some s5" "steady H s4 s5"
      using listing_loop_steady [OF ok laws] by blast
    have "listing_root P dir t =
        (if ret2 \<noteq> 0 then listing_out P (Some i) (Some dir)
           (log_msg P (''sqfs_dir_reader_open_dir failed: '' @ show_int ret2 @ nl) s3)
         else listing_out P (Some i) (Some dir) s5)"
      using c1 True i c3 [unfolded s2_def] s5(1) [unfolded s4_def] by (simp add: listing_root_def Let_def)
    then show ?thesis
      using listing_out_post [OF Q lk steady_trans [OF s3 steady_log_msg [OF K]]]
        listing_out_post [OF Q lk steady_trans [OF s4 s5(2)]] by simp
  qed
qed

lemma test_sqfs_listing_post:
  assumes ok: "platform_ok P H budget left" and laws: "listing_laws (libc P) (lib P) left"
    and lk: "can_lock s" and im: "image_ok s"
  shows "load_frame H s (test_sqfs_listing P s) \<and> image_unloaded (test_sqfs_listing P s)"
proof -
  note K = platform_okD(2) [OF ok] and Q = platform_okD(3) [OF ok]
  define s1 where "s1 = snd (sqfs_mgr_load_image P s)"
  have s1: "load_frame H s s1" using load_image_post(1) [OF ok lk im] by (simp add: s1_def)
  have lk1: "can_lock s1" using s1 lk by (simp add: load_frame_def can_lock_def)
  have out: "load_frame H s1 (test_sqfs_listing P s) \<and> image_unloaded (test_sqfs_listing P s)"
  proof (cases "sqfs_mgr_loaded_locked (sqfs_lock s1)")
    case False
    then show ?thesis
      using listing_out_post [OF Q lk1, of None None "sqfs_lock s1"] lk1
      by (simp add: test_sqfs_listing_def s1_def [symmetric] Let_def holding_def)
  next
    case True
    then obtain r where r: "mgr_data_reader (sqfs_lock s1) = Some r" by (auto simp: sqfs_mgr_loaded_locked_def)
    obtain dir s2 where c: "create_dir_reader P (sqfs_lock s1) = (dir, s2)"
      by (cases "create_dir_reader P (sqfs_lock s1)")
    have s2: "steady H (holding dir None (sqfs_lock s1)) s2"
      using steady_create_reader [OF Q c] by (simp add: holding_def)
    then have "mgr_data_reader s2 = Some r" using steadyD(5) [OF s2] r by (simp add: holding_def)
    then show ?thesis
      using True c s2 listing_root_post [OF ok laws lk1] listing_out_post [OF Q lk1 steady_trans [OF _ steady_log_msg [OF K]]]
      by (cases dir) (simp_all add: test_sqfs_listing_def s1_def [symmetric] Let_def)
  qed
  then show ?thesis using load_frame_trans [OF s1] by blast
qed

text \<open>
  C30. The diagnostic listing always ends and gives back everything it took: the lock, both tables
  and the open handles are as before, and so are the inodes, the entries, the nodes and the
  directory readers held, on every path through it, errors included. The image is unloaded at its
  end, whether or not it was loaded before: the file object, the compressor and the data reader of
  an image that was loaded are given back, and of those that the listing receives itself none is
  left, whichever call fails. Only the descriptor of the image file is not closed, since
  \<open>sqfs_free\<close> does not close it.
\<close>

theorem test_sqfs_listing_releases:
  assumes "platform_ok P H budget left" and "listing_laws (libc P) (lib P) left"
    and "can_lock s" and "sqfs_mgr_loaded_locked s \<or> image_unloaded s" and "t = test_sqfs_listing P s"
  shows "mutex_depth t = mutex_depth s \<and> trapped t = trapped s \<and> fd_table P t = fd_table P s \<and>
    dir_table P t = dir_table P s \<and> H (os s) \<subseteq> H (os t) \<and> live_inodes t = live_inodes s \<and>
    live_dir_entries t = live_dir_entries s \<and> live_nodes t = live_nodes s \<and> live_readers t = live_readers s \<and>
    (\<forall>k. k \<noteq> Image_descriptor \<longrightarrow>
       live_parts t k = live_parts s k - (if sqfs_mgr_loaded_locked s then 1 else 0)) \<and>
    image_unloaded t"
proof -
  have t: "load_frame H s t" "image_unloaded t"
    using test_sqfs_listing_post [OF assms(1-3)] assms(4,5) by (simp_all add: image_ok_def)
  then have "astray t = astray s" by (simp add: load_frame_def)
  note held = astray_held [OF this]
  have "part_pointer t k = None" for k using t(2) by (cases k) (simp_all add: image_unloaded_def part_pointer_def)
  moreover have "k \<noteq> Image_descriptor \<Longrightarrow> part_pointer s k \<noteq> None \<longleftrightarrow> sqfs_mgr_loaded_locked s" for k
    using assms(4) by (cases k) (auto simp: sqfs_mgr_loaded_locked_def image_unloaded_def)
  ultimately have "k \<noteq> Image_descriptor \<Longrightarrow> live_parts t k = live_parts s k - of_bool (sqfs_mgr_loaded_locked s)" for k
    using held [of k] by simp
  with t show ?thesis by (simp add: load_frame_def calm_def table_defs)
qed

lemma int_min_unat: "int (min k (unat n)) \<le> uint n"
  unfolding uint_nat by (simp del: of_nat_unat of_nat_min)

lemma sample_listing_laws: "listing_laws sample_libc sample_lib (\<lambda>r. m_listing)"
  by (simp add: listing_laws_def sample_libc_def sample_lib_def machine_ops Let_def
      int_min_unat del: of_nat_min)

theorem test_sqfs_listing_releases_witness:
  "let t = test_sqfs_listing sample_env sample_loaded
   in mutex_depth t = mutex_depth sample_loaded \<and> trapped t = trapped sample_loaded \<and>
    fd_table sample_env t = fd_table sample_env sample_loaded \<and>
    dir_table sample_env t = dir_table sample_env sample_loaded \<and>
    m_open (os sample_loaded) \<subseteq> m_open (os t) \<and> live_inodes t = live_inodes sample_loaded \<and>
    live_dir_entries t = live_dir_entries sample_loaded \<and> live_nodes t = live_nodes sample_loaded \<and>
    live_readers t = live_readers sample_loaded \<and>
    (\<forall>k. k \<noteq> Image_descriptor \<longrightarrow>
       live_parts t k = live_parts sample_loaded k - (if sqfs_mgr_loaded_locked sample_loaded then 1 else 0)) \<and>
    image_unloaded t"
  unfolding Let_def
  by (rule test_sqfs_listing_releases [OF sample_platform_ok _ sample_loaded_lock _ refl])
    (simp_all add: sample_listing_laws sample_loaded_def sqfs_mgr_loaded_locked_def)

text \<open>
  The listing must not run while files of the image are open: it unloads the image under them,
  and the next \<open>read\<close> on such a descriptor passes a \<open>NULL\<close> data reader to libsquashfs.
\<close>

lemma listing_breaks_open_files:
  assumes "platform_ok P H budget left" and "listing_laws (libc P) (lib P) left"
    and "can_lock s" and "sqfs_mgr_loaded_locked s" and "mgr_ok P H s" and "fd_table P s fd = Some e"
    and "trapped s = Running"
  shows "trapped (snd (sqfs_read P fd count (test_sqfs_listing P s))) = Faulted"
proof -
  define t where "t = test_sqfs_listing P s"
  have t: "load_frame H s t" "image_unloaded t"
    using test_sqfs_listing_post [OF assms(1-3)] assms(4) by (simp_all add: t_def image_ok_def)
  obtain p where p: "find_fd P fd s = Some p" using find_fd_table [OF assms(5), of fd] assms(6) by fastforce
  then obtain e' where "fd_heap s p = Some e'" by (rule find_fd_entry [OF assms(5)])
  with p t(1) have "find_fd P fd t = Some p" "fd_heap t p = Some e'" "can_lock t" "trapped t = Running"
    using assms(3,7) by (simp_all add: load_frame_def find_fd_def can_lock_def calm_def)
  moreover have "trapped (log_hook P f m u) = trapped u" for f m u
    using steady_log_hook [OF platform_okD(2) [OF assms(1)], of u f m] by (simp add: steady_def calm_def)
  ultimately show ?thesis
    using t(2) unfolding t_def [symmetric]
    by (auto simp: sqfs_read_def data_read_def image_unloaded_def find_fd_def set_trap_def Let_def)
qed

lemma listing_breaks_open_files_sample:
  "trapped (snd (sqfs_read sample_env 3 2 (test_sqfs_listing sample_env sample_opened))) = Faulted"
  by (rule listing_breaks_open_files [OF sample_platform_ok _ sample_opened_ok(2) _
        sample_opened_ok(1,3)])
    (simp_all add: sample_listing_laws sample_opened_def sample_loaded_def sample_proc_def fresh_proc_def sqfs_mgr_loaded_locked_def)

end
