(* ===== verification/Spec2Isabelle.thy ===== *)
theory Spec2Isabelle
  imports Test_Main Listing
begin

text \<open>
  Verification of \<open>hooksqfs\<close>, a preloaded library that overlays the real file system with a
  read-only SquashFS image. Its constructor looks up thirteen entry points of the C library,
  replaces them with hooks through \<open>funchook\<close> and loads the image. A hook first decides whether
  its path lies under the prefix of the overlay, or whether its descriptor or directory stream is
  one that the overlay handed out; it then serves the call from the image through libsquashfs, or
  passes it on to the real entry point.

  \<^bold>\<open>The parts and their theories.\<close>
  \<^item> \<open>Prelude\<close> has the C types, constants and shared lemmas; \<open>Platform\<close> the interfaces of what is
    not under \<open>src\<close> (the kernel and the C library, libsquashfs, the environment); \<open>Process\<close> the
    state: \<open>g_xSqfsMgr\<close>, the records of \<open>src/sqfs_mgr.c\<close> in explicit heaps, the state of
    \<open>src/logging.c\<close> and \<open>src/utils.c\<close>, \<open>errno\<close>, and one opaque outside state. \<open>Sample\<close> is a
    concrete platform on which the laws hold and the witnesses run.
  \<^item> \<open>Path_Utils\<close> and \<open>Backing\<close> are \<open>src/utils.c\<close>: path normalisation and containment; backing
    descriptors and directories.
  \<^item> \<open>Logging\<close> is \<open>src/logging.c\<close>: output, one-time initialisation, filter, \<open>log_msg\<close>, \<open>log_hook\<close>.
  \<^item> \<open>Inode\<close> and \<open>Sqfs_Mgr\<close> are the first half of \<open>src/sqfs_mgr.c\<close>: errors, inodes, \<open>struct stat\<close>
    and the arithmetic of \<open>lseek\<close> on machine words; the lock, loading and unloading the image,
    the path filter \<open>sqfs_check_path_then_convert\<close> and the lookup \<open>sqfs_find_inode\<close>.
  \<^item> \<open>File_Ops\<close> and \<open>Dir_Ops\<close> are the hooks themselves, one definition per function and one per
    label or locked part that the function jumps to; \<open>Tables\<close> has the two hash tables, the
    invariant and the contract of a hook; \<open>File_Spec\<close> and \<open>Dir_Spec\<close> prove what the hooks do.
  \<^item> \<open>Hooks\<close> is \<open>src/hooksqfs.c\<close> with the table of \<open>src/real.h\<close>.
  \<^item> \<open>Overlay\<close> composes constructor and hooks into sequences of calls; \<open>Threads\<close> interleaves the
    sections of several threads, and \<open>Rely\<close> says what is left of one thread's view while the others
    run;
    \<open>Listing\<close> is \<open>test_sqfs_listing\<close>, the diagnostic function at the end of \<open>src/sqfs_mgr.c\<close>.
  \<^item> \<open>Client\<close>, \<open>Shared_Read\<close> and \<open>Test_Main\<close> are \<open>src/test_concurrent.c\<close>, the
    test program of the repository, as a client of the hooks: its worker threads with a descriptor each, its threads that read one
    descriptor together, and its \<open>main\<close>. \<open>Client_Spec\<close> proves what the workers observe.

  \<^bold>\<open>How code becomes a definition.\<close> A function of the source maps the state to its result and the
  next state. A call of the platform goes through \<^const>\<open>sys_call\<close>, which also stores the \<open>errno\<close> of
  the call. A read through \<open>NULL\<close> or a freed record, a write behind a buffer and a loop that never
  ends are recorded in the field \<^const>\<open>trapped\<close>, so that their absence is a statement. The lock is
  a depth: taking it twice hangs unless it was made recursive, giving it back unheld traps. What the
  process holds of libsquashfs is counted (\<^const>\<open>live_inodes\<close>, \<^const>\<open>live_readers\<close>,
  \<^const>\<open>live_dir_entries\<close>, \<^const>\<open>live_nodes\<close>, and in \<^const>\<open>live_parts\<close> the file objects with their
  descriptors, the compressors and the data readers), so a leak and a double release are visible.
  The hooks that call the real function outside the lock take what other threads do there as a
  parameter, the \<open>gap\<close> between the two (\<open>open_amid\<close>, \<open>xstat_amid\<close>, \<open>access_amid\<close>, \<open>opendir_amid\<close>,
  \<open>closedir_amid\<close>, \<open>sqfs_close_impl\<close>); the hook of a single thread has the identity there.
  The macros of \<open>uthash\<close> are a parameter with the documented laws of a hash table. Widths are kept
  where they matter: offsets are 64-bit words, the size given to the data reader is a 32-bit
  word, and the conversion to \<open>off_t\<close> depends on \<^const>\<open>sizeof_long\<close>.

  \<^bold>\<open>Interfaces.\<close> The locale \<open>quiet\<close> is a step that leaves the records of the manager alone (logging,
  system calls, backing objects); \<open>entry_table\<close> is a table of records with lookup, attach, detach
  and store, interpreted for descriptors and for streams; \<open>hook\<close> is the contract of every hook
  (invariant kept, lock as before, no trap but the one of a long name) and \<open>observer\<close>, which gives \<open>hook\<close> by a sublocale, that
  of the hooks that change no table. All thirteen hooks interpret one of the last two.

  \<^bold>\<open>What is assumed.\<close> \<^const>\<open>platform_ok\<close> collects the laws of the platform: the hash table; calls
  of the kernel and libsquashfs end no handle except \<open>close\<close> and \<open>closedir\<close>, and the ones that
  return a new handle return one that was not open; an interrupted \<open>write\<close> is not interrupted for
  ever (\<open>budget\<close>); a directory reader has finitely many entries left (\<open>left\<close>) and stores what it
  promises on success. Nothing is assumed of the names in the image: a listing that meets one of 256
  characters or more overruns \<open>d_name\<close> (\<^const>\<open>long_names\<close>), which the theorems state or exclude. \<open>H\<close> observes the open handles in the outside state. Each theorem with such
  a hypothesis has a witness on the platform of \<open>Sample\<close>.

  \<^bold>\<open>What is proved.\<close> Here: the invariant of every reachable state, no leaks, independence of calls, and
  the content that \<open>open\<close> and \<open>read\<close> deliver. In \<open>Threads\<close>: safety of every interleaving. In
  \<open>Rely\<close>: other threads change nothing of a thread's own handles, records and \<open>errno\<close>. In \<open>Client_Spec\<close>, \<open>Shared_Read\<close> and \<open>Test_Main\<close>:
  under every such interference the concurrency test ends and succeeds on a file of the image.
  In \<open>File_Spec\<close>: \<open>read\<close> and \<open>lseek\<close> refine an abstract read-only file with an offset, the outcomes of
  \<open>open\<close>, \<open>close\<close>, \<open>access\<close> and \<open>__xstat\<close> on every branch, and that calls on what the overlay does not
  serve are the real calls. In \<open>Dir_Spec\<close>: listing, merging and releasing directories. In
  \<open>Path_Utils\<close>: equivalence with a reference normal form on components, the containment test, and the
  bounds of every buffer. In \<open>Inode\<close>: the 64-bit arithmetic against unbounded integers. In \<open>Logging\<close>:
  the filter against a reference, delivery over partial writes, termination. In \<open>Backing\<close>: the bounded
  search for names. In \<open>Sqfs_Mgr\<close>: loading is all or nothing, with every part that it receives given back or
  kept; which paths are served. In \<open>Hooks\<close>: installation is all or nothing, whichever call of
  \<open>funchook\<close> fails, and is undone by the destructor. In \<open>Listing\<close>: the listing ends and gives
  everything back but the descriptor that \<open>sqfs_free\<close> leaves open.

  \<^bold>\<open>Loops.\<close> Loops bounded by the code are recursive functions: the 128 attempts of \<open>Backing\<close>, the
  characters of a path. The three that are not (\<open>log_write_loop\<close>, \<open>enumerate_dir\<close>, \<open>listing_loop\<close>)
  are partial functions into \<open>option\<close>, and it is proved that they return under \<open>budget\<close> and \<open>left\<close>.
  The read loops of \<open>Client\<close> end because every read that returns something brings them nearer to the
  size they ask for; the turns of \<open>Shared_Read\<close> are bounded by the size of the file.
  There is no fuel.

  \<^bold>\<open>Schedules.\<close> A thread of the test program runs with a schedule \<open>I\<close>: \<open>I F k s\<close> is the state that the
  other threads leave before its step \<open>k\<close> while it has the handles \<open>F\<close>. The theorems hold for every
  schedule that is \<^const>\<open>respectful\<close>, which steps of \<open>Threads\<close> about other handles are
  (\<open>foreign_respectful\<close>).

  \<^bold>\<open>Not modelled.\<close> The formatting of \<open>printf\<close>: a call site builds the text. Threads are interleaved
  at the boundaries of locked sections: \<open>close\<close> and \<open>closedir\<close> are split before their real call, \<open>open\<close>,
  \<open>opendir\<close>, \<open>access\<close> and \<open>__xstat\<close> behind it; a stream that \<open>opendir\<close> gives up is closed in the
  same step as its locked section, and a call on a descriptor of the real file system (\<open>read\<close>,
  \<open>lseek\<close>) is one step. The messages of \<open>src/test_concurrent.c\<close> have no model; whether its
  arrays of threads could be allocated, which threads started, and the state each starts in, are given. The headers with prototypes only and the
  build files have no model; nor has the function of \<open>src/utils.c\<close> that is commented out.
\<close>

section \<open>Every reachable state\<close>

text \<open>
  C1. In every state that the process can reach, after the constructor and any sequence of calls
  of the hooks, the two tables are consistent: every record is found under its own key and no
  other, every key is an open descriptor or stream, every cursor stands inside its listing, and
  exactly the inodes and readers of the records are held. The lock is free. No call has hung, and
  none has made an invalid access unless the image has a name of 256 characters or more. The image is
  what the constructor left: its file, compressor and data reader all there or all absent, one of
  each held if it is there and none otherwise, and the data reader unchanged.
\<close>

theorem reachable_safe:
  assumes "platform_ok P H budget left" and "loader_keeps L H" and "reachable P L H w s"
  shows "mgr_ok P H s \<and> mutex_depth s = 0 \<and>
    (trapped s = Running \<or> trapped s = Faulted \<and> long_names (lib P)) \<and>
    (sqfs_mgr_loaded_locked s \<or> image_unloaded s) \<and> mgr_data_reader s = mgr_data_reader (started P L w) \<and>
    live_parts s Image_file = (if mgr_file s = None then 0 else 1) \<and>
    live_parts s Image_compressor = (if mgr_compressor s = None then 0 else 1) \<and>
    live_parts s Image_data_reader = (if mgr_data_reader s = None then 0 else 1)"
proof -
  have "live_parts s k = (if part_pointer s k = None then 0 else 1)" if "k \<noteq> Image_descriptor" for k
    using fun_cong [OF reachable_ok(9) [OF assms], of k] that by (simp add: astray_def split: if_splits)
  from this [of Image_file] this [of Image_compressor] this [of Image_data_reader] show ?thesis
    using reachable_ok(1-4,8) [OF assms] by (simp add: image_ok_def sound_def)
qed

definition sample_session :: "(machine, (int \<times> ptr) list) proc" where
  "sample_session = perform sample_env (Read 3 2)
     (perform sample_env (Open (Some ''/hook/d/a'') 0 0) (started sample_env sample_loader sample_machine))"

lemma sample_session_reachable: "reachable sample_env sample_loader m_open sample_machine sample_session"
  unfolding sample_session_def by (intro reachable.intros)

theorem reachable_safe_witness:
  "mgr_ok sample_env m_open sample_session \<and> mutex_depth sample_session = 0 \<and> trapped sample_session = Running \<and>
    (sqfs_mgr_loaded_locked sample_session \<or> image_unloaded sample_session) \<and>
    mgr_data_reader sample_session = mgr_data_reader (started sample_env sample_loader sample_machine) \<and>
    live_parts sample_session Image_file = (if mgr_file sample_session = None then 0 else 1)"
  using reachable_safe [OF sample_platform_ok sample_loader_keeps sample_session_reachable] sample_short_names by simp

text \<open>
  C9. No inode and no directory reader is leaked by any history of calls: in a reachable state with
  no file and no directory of the overlay open, none is held and both heaps are empty.
\<close>

theorem reachable_no_leak:
  assumes "platform_ok P H budget left" and "loader_keeps L H" and "reachable P L H w s"
    and "fd_table P s = Map.empty" and "dir_table P s = Map.empty"
  shows "live_inodes s = 0 \<and> live_readers s = 0 \<and> fd_heap s = Map.empty \<and> dir_heap s = Map.empty"
  using no_records_no_holdings [OF reachable_ok(1) [OF assms(1-3)] assms(4,5)] by simp

theorem reachable_no_leak_witness:
  "live_inodes (started sample_env sample_loader sample_machine) = 0 \<and>
    live_readers (started sample_env sample_loader sample_machine) = 0 \<and>
    fd_heap (started sample_env sample_loader sample_machine) = Map.empty \<and>
    dir_heap (started sample_env sample_loader sample_machine) = Map.empty"
  by (rule reachable_no_leak [OF sample_platform_ok sample_loader_keeps reachable.start
      started_ok(5,6) [OF sample_platform_ok sample_loader_keeps]])

section \<open>Calls and each other\<close>

text \<open>
  C8. Files and directories are independent: a call changes no record of a descriptor or a stream
  it is not about. In particular the offset of one descriptor never moves because of a call on
  another one, and opening never replaces a record.
\<close>

theorem calls_are_isolated:
  assumes "platform_ok P H budget left" and "mgr_ok P H s" and "can_lock s"
  shows "(\<forall>k e. \<not> moves c k \<longrightarrow> fd_table P s k = Some e \<longrightarrow> fd_table P (perform P c s) k = Some e) \<and>
    (\<forall>d e. \<not> moves_dir c d \<longrightarrow> dir_table P s d = Some e \<longrightarrow> dir_table P (perform P c s) d = Some e)"
  using perform_spares [OF assms] by blast

text \<open>The sample process with a file and a directory of the image open.\<close>

definition sample_both :: "(machine, (int \<times> ptr) list) proc" where
  "sample_both = sample_loaded\<lparr>fd_map := [(3, 0)], fd_heap := [0 \<mapsto> sample_entry],
     dir_map := [(4, 1)], dir_heap := [1 \<mapsto> sample_direntry\<lparr>dir_key := 4\<rparr>], next_ptr := 2,
     live_inodes := 2, live_nodes := 1, live_readers := 1,
     os := sample_machine\<lparr>m_next := 5, m_handles := [Stream 4, Descriptor 3]\<rparr>\<rparr>"

lemma sample_both_ok:
  "mgr_ok sample_env m_open sample_both" "can_lock sample_both"
  "fd_table sample_env sample_both 3 = Some sample_entry"
  "dir_table sample_env sample_both 4 = Some (sample_direntry\<lparr>dir_key := 4\<rparr>)"
  by (simp_all add: sample_both_def sample_loaded_def sample_proc_def fresh_proc_def sample_uthash_def mgr_ok_def
      table_ok_def table_defs entry_at_def holdings_ok_def listed_nodes_def can_lock_def m_open_def
      sample_entry_def sample_direntry_def sample_listing_def make_node_def dir_entry_ok_def)

theorem calls_are_isolated_witness:
  "fd_table sample_env (perform sample_env (Open (Some ''/hook/a'') 0 0) sample_both) 3 = Some sample_entry \<and>
    dir_table sample_env (perform sample_env (Open (Some ''/hook/a'') 0 0) sample_both) 4 =
      Some (sample_direntry\<lparr>dir_key := 4\<rparr>) \<and>
    fd_table sample_env (perform sample_env (Closedir 7) sample_opened) 3 = Some sample_entry"
  using calls_are_isolated [OF sample_platform_ok sample_both_ok(1,2), of "Open (Some ''/hook/a'') 0 0"]
    calls_are_isolated [OF sample_platform_ok sample_opened_ok(1,2), of "Closedir 7"]
    sample_both_ok(3,4) sample_opened_ok(3) by simp

text \<open>
  C2. Reading through the overlay: a path that the real file system does not open and the image
  has. When \<open>open\<close> returns a descriptor, a sequence of reads of any sizes on it delivers the
  content of the file in the image from its first byte on.
\<close>

theorem open_then_read:
  assumes ok: "platform_ok P H budget left" and inv: "mgr_ok P H s" and lk: "can_lock s" and conf: "good_config P"
    and real: "sys_call (libc_open (libc P) (Some path) flags
      (if open_flags_need_mode flags then Some mode else None)) s = (r, s1)" "r < 0"
    and found: "sqfs_find_inode P (Some (join_with (CHR ''/'') (relative_components (sqfs_mgr_get_prefix P) path)))
      (sqfs_lock s1) = (Some inode, s2)"
    and sv: "serves (lib P) inode content" and len: "length content < 2 ^ 63"
    and counts: "\<forall>count \<in> set counts. count < 2 ^ 31"
    and op: "sqfs_open P (Some path) flags mode s = (fd, t)" "0 \<le> fd"
  shows "fst (read_seq P fd counts t) = take (sum_list counts) content"
proof -
  let ?rel = "join_with (CHR ''/'') (relative_components (sqfs_mgr_get_prefix P) path)"
  have s1: "steady H s s1" using kernel_keeps(1) [OF platform_okD(2) [OF ok]] real(1) by (rule steady_call')
  have lk1: "can_lock s1" using lk steadyD(1,2) [OF s1] by (simp add: can_lock_def)
  have eq: "open_in_image P ?rel flags s1 = (fd, t)"
    using op real check_path_served [OF conf, of path] by (auto simp: sqfs_open_defs Let_def split: if_splits)
  note eff = open_in_image_effect [OF ok lk1 steady_mgr_ok [OF s1 inv], of ?rel flags,
      unfolded eq open_effect_def fst_conv snd_conv]
  then have post: "hook_post P H s1 t" by blast
  from eff op(2) found have "fd_table P t fd = Some \<lparr>fd_key = fd, fd_inode = inode, fd_offset = 0\<rparr>" by auto
  from reads_deliver [OF ok _ _ this, of content counts] post lk1 hook_post_can_lock [OF post] sv len counts
  show ?thesis by (simp add: hook_post_def)
qed

theorem open_then_read_witness:
  "let (fd, t) = sqfs_open sample_env (Some ''/hook/d/a'') 0 0 sample_loaded
   in 0 \<le> fd \<and> fst (read_seq sample_env fd [2, 2, 5] t) = [104, 101, 108, 108, 111]"
proof -
  obtain fd t where op: "sqfs_open sample_env (Some ''/hook/d/a'') 0 0 sample_loaded = (fd, t)"
    by (cases "sqfs_open sample_env (Some ''/hook/d/a'') 0 0 sample_loaded")
  have call: "sys_call (libc_open (libc sample_env) (Some ''/hook/d/a'') 0
      (if open_flags_need_mode 0 then Some 0 else None)) sample_loaded = (-1, sample_denied)"
    by (simp add: sys_call_def sample_libc_def sample_denied_def)
  have path: "sqfs_check_path_then_convert sample_env (Some ''/hook/d/a'') True PATH_MAX = Inr ''d/a''"
    using check_path_served [OF sample_good_config, of "''/hook/d/a''"] sample_path by simp
  have "fd = 3"
    using op call path
    by (simp add: run_defs sqfs_open_defs open_in_image_def sample_denied_def create_backing_fd_def
        create_memfd_def sample_libc_def m_alloc_fd_def sample_machine_def malloc_def Let_def)
  with open_then_read [OF sample_platform_ok sample_loaded_ok sample_good_config call _ sample_found _ _ _ op,
      of sample_bytes "[2, 2, 5]"] show ?thesis
    by (simp add: op sample_serves [unfolded sample_bytes_def] sample_bytes_def)
qed

end
